theory Spec2Isabelle
  imports Main "HOL-Library.Sublist"
begin

section \<open>Strings and values of the source language\<close>

text \<open>
  A string of the program is a sequence of UTF-16 code units, each modelled as a natural
  number. ASCII literals of the source are written \<open>js ''...''\<close>; the few literals outside
  ASCII are written out as code units.
\<close>

type_synonym jsstring = "nat list"

definition js :: "string \<Rightarrow> jsstring" where
  "js s = map of_char s"

text \<open>
  \<open>String.prototype.trim\<close> removes leading and trailing white space and line terminators:
  TAB, LF, VT, FF, CR, SPACE, NBSP, U+1680, U+2000..U+200A, U+2028, U+2029, U+202F, U+205F,
  U+3000 and U+FEFF.
\<close>

definition isWhiteSpace :: "nat \<Rightarrow> bool" where
  "isWhiteSpace c =
     (c \<in> set [9, 10, 11, 12, 13, 32, 160, 5760, 8232, 8233, 8239, 8287, 12288, 65279]
      \<or> (8192 \<le> c \<and> c \<le> 8202))"

definition trim :: "jsstring \<Rightarrow> jsstring" where
  "trim s = rev (dropWhile isWhiteSpace (rev (dropWhile isWhiteSpace s)))"

text \<open>
  An optional string field (\<open>field?: string\<close>) is \<open>None\<close> when it is \<open>undefined\<close>. It is
  truthy when it is a non-empty string.
\<close>

definition truthy :: "jsstring option \<Rightarrow> bool" where
  "truthy v = (case v of None \<Rightarrow> False | Some s \<Rightarrow> s \<noteq> [])"

section \<open>Data model (types.ts)\<close>

datatype SlideStyle = CONCISE | DETAILED

text \<open>
  The field \<open>id\<close> of the source is \<open>slideId\<close> here. Identifiers are numbers with an integer
  value, as the data model prescribes. The handlers compare them; \<open>handleAddSlide\<close> alone
  computes with them, and the arithmetic of numbers is defined there.
\<close>

record SlidePlan =
  slideId :: int
  title :: jsstring
  content :: jsstring
  visualDescription :: jsstring
  userPromptOverride :: "jsstring option"
  referenceImage :: "jsstring option"
  generatedImageUrl :: "jsstring option"
  isGenerating :: bool

datatype Step = INPUT | PLANNING | WORKBENCH | EXPORT

record ProjectState =
  step :: Step
  inputText :: jsstring
  targetSlideCount :: int
  selectedStyle :: SlideStyle
  customStylePrompt :: jsstring
  designSystemPrompt :: jsstring
  slides :: "SlidePlan list"
  isProcessing :: bool

section \<open>Adding a slide (App.tsx, handleAddSlide)\<close>

text \<open>
  A number of the program is a double of IEEE 754. An integer of magnitude below \<open>2 ^ 53\<close>
  is a number. From there on the numbers thin out: between \<open>2 ^ 53\<close> and \<open>2 ^ 54\<close> they are
  the multiples of 2, between \<open>2 ^ 54\<close> and \<open>2 ^ 55\<close> the multiples of 4, and so on up to
  \<open>2 ^ 1024\<close>. \<open>spacing n\<close> is the distance between the numbers around the magnitude \<open>n\<close>.
\<close>

function spacing :: "int \<Rightarrow> int" where
  "spacing n = (if n < 2 ^ 53 then 1 else 2 * spacing (n div 2))"
  by pat_completeness auto
termination
  by (relation "measure nat") auto

declare spacing.simps [simp del]

definition isNumber :: "int \<Rightarrow> bool" where
  "isNumber i = (spacing \<bar>i\<bar> dvd i \<and> \<bar>i\<bar> < 2 ^ 1024)"

text \<open>
  The result of an arithmetic operation is the number nearest to the exact result; of
  two numbers equally near, the one whose significand is even. \<open>a + b\<close> on numbers with
  integer values is \<open>add a b\<close>. A sum whose magnitude reaches \<open>2 ^ 1024 - 2 ^ 970\<close> is
  \<open>Infinity\<close> in the program; the sum of a number and 1 never does, and no other sum is
  computed here.
\<close>

definition roundTiesToEven :: "int \<Rightarrow> int" where
  "roundTiesToEven i =
     (let u = spacing \<bar>i\<bar>;
          q = i div u;
          r = i mod u
      in if 2 * r < u then q * u
         else if u < 2 * r then (q + 1) * u
         else if even q then q * u
         else (q + 1) * u)"

definition add :: "int \<Rightarrow> int \<Rightarrow> int" where
  "add a b = roundTiesToEven (a + b)"

text \<open>\<open>Math.max(x, ...xs)\<close> on a non-empty argument list: the largest argument, exactly.\<close>

definition Math_max :: "int \<Rightarrow> int list \<Rightarrow> int" where
  "Math_max x xs = fold max xs x"

text \<open>
  The placeholder title and content are the four and the eleven code units of the
  source's literals.
\<close>

definition newSlideTitle :: jsstring where
  "newSlideTitle = [26032, 24187, 28783, 29255]"

definition newSlideContent :: jsstring where
  "newSlideContent = [22312, 27492, 36755, 20837, 27491, 25991, 20869, 23481, 46, 46, 46]"

definition newSlideId :: "SlidePlan list \<Rightarrow> int" where
  "newSlideId ss =
     (case map slideId ss of
        [] \<Rightarrow> 1
      | x # xs \<Rightarrow> add (Math_max x xs) 1)"

definition newSlide :: "int \<Rightarrow> SlidePlan" where
  "newSlide newId =
     \<lparr> slideId = newId,
       title = newSlideTitle,
       content = newSlideContent,
       visualDescription = js ''Describe the visual structure for this slide in English...'',
       userPromptOverride = None,
       referenceImage = None,
       generatedImageUrl = None,
       isGenerating = False \<rparr>"

text \<open>
  The handler reads \<open>state.slides\<close> of the render it belongs to and appends to the slides
  of the committed state; a click is handled on the rendered state, so both are the
  slides of \<open>state\<close>.
\<close>

definition handleAddSlide :: "ProjectState \<Rightarrow> ProjectState" where
  "handleAddSlide state =
     (let newId = newSlideId (slides state)
      in state\<lparr> slides := slides state @ [newSlide newId] \<rparr>)"

section \<open>Retry with backoff (geminiService.ts, retryOperation)\<close>

text \<open>
  An asynchronous operation runs in a world and returns either the value it resolves to
  (\<open>Inr\<close>) or the error it rejects with (\<open>Inl\<close>), together with the world it leaves. The world
  records the delays that were waited, in order, and an environment \<open>env\<close> that belongs to
  the operation (the log of remote calls, or the counter of a stub).
\<close>

record 'e World =
  sleeps :: "int list"
  env :: 'e

definition delay :: "int \<Rightarrow> 'e World \<Rightarrow> 'e World" where
  "delay ms w = w\<lparr> sleeps := sleeps w @ [ms] \<rparr>"

text \<open>
  The \<open>catch\<close> block takes the rejection value as \<open>any\<close>. Before it waits, it builds the
  text of a warning from \<open>error.message\<close> (line 824). Reading a property of \<open>undefined\<close> or
  of \<open>null\<close> throws a \<open>TypeError\<close>, and that error leaves \<open>retryOperation\<close> at once. What
  the read does depends on the rejection value alone, so it is the argument \<open>warn\<close>:
  \<open>warn error\<close> is \<open>Some t\<close> when building the text throws \<open>t\<close>, and \<open>None\<close> when the text is
  built. The text itself goes to the console only.
\<close>

function retryOperation ::
  "('x \<Rightarrow> 'x option) \<Rightarrow> ('e World \<Rightarrow> ('x + 'a) \<times> 'e World) \<Rightarrow> int \<Rightarrow> int \<Rightarrow> 'e World
     \<Rightarrow> ('x + 'a) \<times> 'e World"
where
  "retryOperation warn operation retries delayMs w =
     (case operation w of
        (Inr v, w') \<Rightarrow> (Inr v, w')
      | (Inl error, w') \<Rightarrow>
          (if retries > 0
           then
             (case warn error of
                Some thrown \<Rightarrow> (Inl thrown, w')
              | None \<Rightarrow>
                  retryOperation warn operation (retries - 1) (delayMs * 2) (delay delayMs w'))
           else (Inl error, w')))"
  by pat_completeness auto
termination
  by (relation "measure (\<lambda>(warn, operation, retries, delayMs, w). nat retries)") auto

declare retryOperation.simps [simp del]

text \<open>The default arguments of the source: \<open>retries = 3\<close>, \<open>delayMs = 3000\<close>.\<close>

definition retryOperation_default ::
  "('x \<Rightarrow> 'x option) \<Rightarrow> ('e World \<Rightarrow> ('x + 'a) \<times> 'e World) \<Rightarrow> 'e World \<Rightarrow> ('x + 'a) \<times> 'e World"
where
  "retryOperation_default warn operation w = retryOperation warn operation 3 3000 w"

text \<open>
  A stub operation, as a test of the retry wrapper uses one: its environment counts the
  invocations, and the invocation number \<open>k\<close> (from 0) settles as \<open>outcome k\<close>.
\<close>

definition scripted :: "(nat \<Rightarrow> 'x + 'a) \<Rightarrow> nat World \<Rightarrow> ('x + 'a) \<times> nat World" where
  "scripted outcome w = (outcome (env w), w\<lparr> env := Suc (env w) \<rparr>)"

text \<open>
  The values a stub rejects with: \<open>undefined\<close>, \<open>null\<close>, an \<open>Error\<close> object with its message,
  and the \<open>TypeError\<close> that the engine throws when a property of \<open>undefined\<close> or of \<open>null\<close> is
  read. The message of an \<open>Error\<close> object and of a \<open>TypeError\<close> can be read.
\<close>

datatype Rejection = Undefined | Null | ErrorObject jsstring | TypeError

fun warnRejection :: "Rejection \<Rightarrow> Rejection option" where
  "warnRejection Undefined = Some TypeError"
| "warnRejection Null = Some TypeError"
| "warnRejection (ErrorObject message) = None"
| "warnRejection TypeError = None"

section \<open>The remote model (geminiService.ts, ai.models.generateContent)\<close>

text \<open>
  What a call of the service can reject with: the rejection of the remote call itself
  (transport, authentication, backend) with its message, the \<open>SyntaxError\<close> of
  \<open>JSON.parse\<close> with its message, \<open>Error("Output is not an array")\<close>, the \<open>TypeError\<close> of
  reading a property of \<open>null\<close>, and \<open>Error("No image data returned from Gemini")\<close>.
\<close>

datatype error =
    RemoteError jsstring
  | SyntaxError jsstring
  | OutputNotArray
  | NullItem
  | NoImageData

text \<open>
  Each of them is an \<open>Error\<close> object, so the warning of \<open>retryOperation\<close> can be built
  from it.
\<close>

definition warnError :: "error \<Rightarrow> error option" where
  "warnError e = None"

text \<open>
  A request names the model and carries the prompt, and either the response MIME type
  (text calls of the planner) or the image shape \<open>(aspectRatio, imageSize)\<close>. A response
  has a text (\<open>response.text\<close>, which may be \<open>undefined\<close>) and the parts of its first
  candidate; a part is \<open>Some data\<close> when it has \<open>inlineData\<close>, with the text that
  \<open>part.inlineData.data\<close> interpolates to.
\<close>

record request =
  model :: jsstring
  contents :: jsstring
  responseMimeType :: "jsstring option"
  imageConfig :: "(jsstring \<times> jsstring) option"

record response =
  responseText :: "jsstring option"
  parts :: "jsstring option list"

text \<open>
  The remote model is a black box: the call number \<open>k\<close> (counted from 0 over the whole
  run) with request \<open>req\<close> settles as \<open>remote k req\<close>. The environment of the world is the
  log of the requests sent so far.
\<close>

type_synonym remote = "nat \<Rightarrow> request \<Rightarrow> error + response"

type_synonym Net = "request list"

definition generateContent ::
  "remote \<Rightarrow> request \<Rightarrow> Net World \<Rightarrow> (error + response) \<times> Net World"
where
  "generateContent remote req w = (remote (length (env w)) req, w\<lparr> env := env w @ [req] \<rparr>)"

text \<open>\<open>a || b\<close> on an optional string \<open>a\<close>: \<open>b\<close> when \<open>a\<close> is \<open>undefined\<close> or empty.\<close>

definition orElse :: "jsstring option \<Rightarrow> jsstring \<Rightarrow> jsstring" where
  "orElse a b = (case a of None \<Rightarrow> b | Some s \<Rightarrow> if s = [] then b else s)"

text \<open>
  The fixed wording of the four long prompts is a parameter of the model: a template is
  the function from the values the source interpolates, in the order of their first
  occurrence, to the prompt text.
\<close>

record Templates =
  designSystemTemplate :: "jsstring \<Rightarrow> jsstring \<Rightarrow> jsstring"
  updateTemplate :: "jsstring \<Rightarrow> jsstring \<Rightarrow> jsstring"
  slidePlanTemplate :: "int \<Rightarrow> jsstring \<Rightarrow> jsstring \<Rightarrow> jsstring \<Rightarrow> jsstring"
  slideImageTemplate ::
    "jsstring \<Rightarrow> jsstring \<Rightarrow> jsstring \<Rightarrow> jsstring \<Rightarrow> jsstring \<Rightarrow> jsstring"

definition textRequest :: "jsstring \<Rightarrow> jsstring \<Rightarrow> request" where
  "textRequest m prompt =
     \<lparr> model = m, contents = prompt, responseMimeType = None, imageConfig = None \<rparr>"

section \<open>Design system (geminiService.ts, generateDesignSystem and updateDesignSystem)\<close>

definition designSystemRequest :: "Templates \<Rightarrow> jsstring \<Rightarrow> SlideStyle \<Rightarrow> request" where
  "designSystemRequest tpl customStyle styleMode =
     (let modeContext =
            (if styleMode = CONCISE
             then js ''LAYOUT: Minimalist, generous whitespace, large typography, focus on visual impact.''
             else js ''LAYOUT: Editorial grid, multi-column text areas, structured density, information-rich.'');
          userContext =
            (if customStyle \<noteq> [] then customStyle
             else js ''Premium Swiss International Style. Clean, Professional, Trustworthy. High contrast, refined typography.'');
          prompt = designSystemTemplate tpl userContext modeContext
      in textRequest (js ''gemini-2.5-flash'') prompt)"

definition generateDesignSystem ::
  "Templates \<Rightarrow> remote \<Rightarrow> jsstring \<Rightarrow> SlideStyle \<Rightarrow> Net World \<Rightarrow> (error + jsstring) \<times> Net World"
where
  "generateDesignSystem tpl remote customStyle styleMode =
     retryOperation_default warnError
       (\<lambda>w. case generateContent remote (designSystemRequest tpl customStyle styleMode) w of
              (Inl e, w') \<Rightarrow> (Inl e, w')
            | (Inr response, w') \<Rightarrow>
                (Inr (orElse (responseText response)
                        (js ''Modern clean business style with blue accents.'')), w'))"

definition updateRequest :: "Templates \<Rightarrow> jsstring \<Rightarrow> jsstring \<Rightarrow> request" where
  "updateRequest tpl currentSystem adjustment =
     textRequest (js ''gemini-2.5-flash'') (updateTemplate tpl currentSystem adjustment)"

definition updateDesignSystem ::
  "Templates \<Rightarrow> remote \<Rightarrow> jsstring \<Rightarrow> jsstring \<Rightarrow> Net World \<Rightarrow> (error + jsstring) \<times> Net World"
where
  "updateDesignSystem tpl remote currentSystem adjustment =
     retryOperation_default warnError
       (\<lambda>w. case generateContent remote (updateRequest tpl currentSystem adjustment) w of
              (Inl e, w') \<Rightarrow> (Inl e, w')
            | (Inr response, w') \<Rightarrow>
                (Inr (orElse (responseText response) currentSystem), w'))"

section \<open>Outline planning (geminiService.ts, generateSlidePlan)\<close>

text \<open>
  The values \<open>JSON.parse\<close> returns. The type of numbers is left open. An object is the
  list of its entries, one per key.
\<close>

datatype 'n json =
    JNull
  | JBool bool
  | JNum 'n
  | JStr jsstring
  | JArr "'n json list"
  | JObj "(jsstring \<times> 'n json) list"

text \<open>
  \<open>s.replace(/pat/g, '')\<close> for a literal pattern: every match, found from left to right
  without overlap, is removed.
\<close>

function stripAll :: "nat list \<Rightarrow> nat list \<Rightarrow> nat list" where
  "stripAll pat [] = []"
| "stripAll pat (c # cs) =
     (if pat \<noteq> [] \<and> prefix pat (c # cs)
      then stripAll pat (drop (length pat) (c # cs))
      else c # stripAll pat cs)"
  by pat_completeness auto
termination
  by (relation "measure (\<lambda>(pat, s). length s)") auto

text \<open>
  The four properties \<open>parseResponse\<close> reads of an item. Reading any of them of \<open>null\<close>
  throws; an object has it when it has an entry of that name; a boolean, a number, a
  string and an array have none of them, and the read is \<open>undefined\<close> (\<open>None\<close>).
\<close>

datatype PlanKey = K_id | K_title | K_content | K_visualDescription

fun keyName :: "PlanKey \<Rightarrow> jsstring" where
  "keyName K_id = js ''id''"
| "keyName K_title = js ''title''"
| "keyName K_content = js ''content''"
| "keyName K_visualDescription = js ''visualDescription''"

fun getProp :: "'n json \<Rightarrow> PlanKey \<Rightarrow> error + 'n json option" where
  "getProp JNull k = Inl NullItem"
| "getProp (JObj entries) k = Inr (map_of entries (keyName k))"
| "getProp _ k = Inr None"

text \<open>
  The object \<open>parseResponse\<close> builds of an item, read at the properties of a
  \<open>SlidePlan\<close>: the four values copied from the item are of any type or \<open>undefined\<close>; the
  literal has no \<open>userPromptOverride\<close>, \<open>referenceImage\<close> and \<open>generatedImageUrl\<close>, which
  therefore read \<open>undefined\<close>.
\<close>

record 'n RawSlide =
  raw_id :: "'n json option"
  raw_title :: "'n json option"
  raw_content :: "'n json option"
  raw_visualDescription :: "'n json option"
  raw_userPromptOverride :: "'n json option"
  raw_referenceImage :: "'n json option"
  raw_generatedImageUrl :: "'n json option"
  raw_isGenerating :: bool

definition projectItem :: "'n json \<Rightarrow> error + 'n RawSlide" where
  "projectItem item =
     (case getProp item K_id of Inl e \<Rightarrow> Inl e | Inr i \<Rightarrow>
      case getProp item K_title of Inl e \<Rightarrow> Inl e | Inr t \<Rightarrow>
      case getProp item K_content of Inl e \<Rightarrow> Inl e | Inr c \<Rightarrow>
      case getProp item K_visualDescription of Inl e \<Rightarrow> Inl e | Inr v \<Rightarrow>
        Inr \<lparr> raw_id = i, raw_title = t, raw_content = c, raw_visualDescription = v,
              raw_userPromptOverride = None, raw_referenceImage = None,
              raw_generatedImageUrl = None, raw_isGenerating = False \<rparr>)"

text \<open>\<open>items.map(f)\<close> for an \<open>f\<close> that may throw: the first throw ends the map.\<close>

fun mapThrowing :: "('a \<Rightarrow> error + 'b) \<Rightarrow> 'a list \<Rightarrow> error + 'b list" where
  "mapThrowing f [] = Inr []"
| "mapThrowing f (x # xs) =
     (case f x of
        Inl e \<Rightarrow> Inl e
      | Inr y \<Rightarrow> (case mapThrowing f xs of Inl e \<Rightarrow> Inl e | Inr ys \<Rightarrow> Inr (y # ys)))"

text \<open>
  The first two statements of \<open>parseResponse\<close>: the text that is handed to the parser.
\<close>

definition cleanText :: "jsstring option \<Rightarrow> jsstring" where
  "cleanText text0 =
     trim (stripAll (js ''```'') (stripAll (js ''```json'') (orElse text0 (js ''[]''))))"

text \<open>\<open>JSON.parse\<close> is a parameter: it returns the parsed value or throws.\<close>

definition parseResponse ::
  "(jsstring \<Rightarrow> error + 'n json) \<Rightarrow> jsstring option \<Rightarrow> error + 'n RawSlide list"
where
  "parseResponse JSON_parse text0 =
     (case JSON_parse (cleanText text0) of
        Inl e \<Rightarrow> Inl e
      | Inr parsed \<Rightarrow>
          (case parsed of
             JArr items \<Rightarrow> mapThrowing projectItem items
           | _ \<Rightarrow> Inl OutputNotArray))"

definition planRequest :: "jsstring \<Rightarrow> jsstring \<Rightarrow> request" where
  "planRequest m prompt =
     \<lparr> model = m, contents = prompt,
       responseMimeType = Some (js ''application/json''), imageConfig = None \<rparr>"

definition primaryModel :: jsstring where
  "primaryModel = js ''gemini-3-pro-preview''"

definition fallbackModel :: jsstring where
  "fallbackModel = js ''gemini-2.5-flash''"

text \<open>The \<open>catch\<close> block of the planning operation: the second model, same prompt.\<close>

definition planFallback ::
  "(jsstring \<Rightarrow> error + 'n json) \<Rightarrow> remote \<Rightarrow> jsstring \<Rightarrow> Net World
     \<Rightarrow> (error + 'n RawSlide list) \<times> Net World"
where
  "planFallback JSON_parse remote prompt w =
     (case generateContent remote (planRequest fallbackModel prompt) w of
        (Inl e, w') \<Rightarrow> (Inl e, w')
      | (Inr response, w') \<Rightarrow> (parseResponse JSON_parse (responseText response), w'))"

text \<open>The operation handed to \<open>retryOperation\<close>: the \<open>try\<close> block, then the \<open>catch\<close>.\<close>

definition planAttempt ::
  "(jsstring \<Rightarrow> error + 'n json) \<Rightarrow> remote \<Rightarrow> jsstring \<Rightarrow> Net World
     \<Rightarrow> (error + 'n RawSlide list) \<times> Net World"
where
  "planAttempt JSON_parse remote prompt w =
     (case generateContent remote (planRequest primaryModel prompt) w of
        (Inl e, w') \<Rightarrow> planFallback JSON_parse remote prompt w'
      | (Inr response, w') \<Rightarrow>
          (case parseResponse JSON_parse (responseText response) of
             Inl e \<Rightarrow> planFallback JSON_parse remote prompt w'
           | Inr plan \<Rightarrow> (Inr plan, w')))"

definition slidePlanPrompt :: "Templates \<Rightarrow> jsstring \<Rightarrow> int \<Rightarrow> SlideStyle \<Rightarrow> jsstring \<Rightarrow> jsstring" where
  "slidePlanPrompt tpl inputText0 slideCount style designSystem =
     (let styleInstruction =
            (if style = CONCISE
             then js ''STYLE: CONCISE. Very few words. Big impact. Bullet points. No long paragraphs.''
             else js ''STYLE: DETAILED. Comprehensive explanation. Structured paragraphs. High information density.'')
      in slidePlanTemplate tpl slideCount (take 15000 inputText0) designSystem styleInstruction)"

definition generateSlidePlan ::
  "Templates \<Rightarrow> (jsstring \<Rightarrow> error + 'n json) \<Rightarrow> remote \<Rightarrow> jsstring \<Rightarrow> int \<Rightarrow> SlideStyle
     \<Rightarrow> jsstring \<Rightarrow> Net World \<Rightarrow> (error + 'n RawSlide list) \<times> Net World"
where
  "generateSlidePlan tpl JSON_parse remote inputText0 slideCount style designSystem =
     retryOperation_default warnError
       (planAttempt JSON_parse remote
          (slidePlanPrompt tpl inputText0 slideCount style designSystem))"

section \<open>Image synthesis and prompt refinement (geminiService.ts)\<close>

definition generateSlideImage ::
  "Templates \<Rightarrow> remote \<Rightarrow> SlidePlan \<Rightarrow> jsstring \<Rightarrow> Net World \<Rightarrow> (error + jsstring) \<times> Net World"
where
  "generateSlideImage tpl remote slide designSystem =
     (let fullPrompt =
            slideImageTemplate tpl designSystem (visualDescription slide)
              (orElse (userPromptOverride slide) (js ''None'')) (title slide) (content slide)
      in retryOperation_default warnError
           (\<lambda>w. case generateContent remote
                         \<lparr> model = js ''gemini-3-pro-image-preview'', contents = fullPrompt,
                           responseMimeType = None,
                           imageConfig = Some (js ''16:9'', js ''2K'') \<rparr> w of
                  (Inl e, w') \<Rightarrow> (Inl e, w')
                | (Inr response, w') \<Rightarrow>
                    (case List.find (\<lambda>part. part \<noteq> None) (parts response) of
                       Some (Some inlineData) \<Rightarrow>
                         (Inr (js ''data:image/png;base64,'' @ inlineData), w')
                     | _ \<Rightarrow> (Inl NoImageData, w'))))"

definition refineRequest :: "jsstring \<Rightarrow> request" where
  "refineRequest currentPrompt =
     textRequest (js ''gemini-2.5-flash'')
       (js ''Optimize this image generation prompt for a presentation slide. Make it more descriptive, artistic, and precise. Keep it in English.''
        @ [10, 10] @ js ''Input: '' @ [34] @ currentPrompt @ [34])"

definition refinePrompt ::
  "remote \<Rightarrow> jsstring \<Rightarrow> Net World \<Rightarrow> (error + jsstring) \<times> Net World"
where
  "refinePrompt remote currentPrompt w =
     (case generateContent remote (refineRequest currentPrompt) w of
        (Inl e, w') \<Rightarrow> (Inl e, w')
      | (Inr response, w') \<Rightarrow> (Inr (orElse (responseText response) currentPrompt), w'))"

section \<open>Handlers of the outline (App.tsx)\<close>

text \<open>
  What the user sees beside the project state: the error message of the last failed
  outline generation (modelled as the error it was taken from) and the alerts raised so
  far.
\<close>

datatype Alert =
    EnterContent
  | RefineFailed
  | StyleUpdated
  | StyleUpdateFailed
  | SlideFailed int

record UI =
  state :: ProjectState
  errorMsg :: "error option"
  alerts :: "Alert list"

text \<open>
  A handler is modelled as running alone: no other handler changes the state while it
  awaits, so the state its closure reads and the state its updates apply to are the same.
\<close>

text \<open>Lines 111 to 121 of \<open>handleGeneratePlan\<close>: the design system of the deck.\<close>

definition determineDesignSystem ::
  "Templates \<Rightarrow> remote \<Rightarrow> ProjectState \<Rightarrow> Net World \<Rightarrow> (error + jsstring) \<times> Net World"
where
  "determineDesignSystem tpl remote st w =
     (let designSystem = trim (customStylePrompt st)
      in if designSystem = []
         then generateDesignSystem tpl remote (customStylePrompt st) (selectedStyle st) w
         else (Inr designSystem, w))"

text \<open>
  \<open>typed\<close> is the unchecked reading of the parsed outline at its declared type
  \<open>SlidePlan[]\<close>.
\<close>

definition handleGeneratePlan ::
  "Templates \<Rightarrow> (jsstring \<Rightarrow> error + 'n json) \<Rightarrow> ('n RawSlide list \<Rightarrow> SlidePlan list) \<Rightarrow> remote
     \<Rightarrow> UI \<Rightarrow> Net World \<Rightarrow> UI \<times> Net World"
where
  "handleGeneratePlan tpl JSON_parse typed remote ui w =
     (let st = state ui in
      if trim (inputText st) = []
      then (ui\<lparr> alerts := alerts ui @ [EnterContent] \<rparr>, w)
      else
        (case determineDesignSystem tpl remote st w of
           (Inl e, w1) \<Rightarrow>
             (ui\<lparr> state := st\<lparr> isProcessing := False \<rparr>, errorMsg := Some e \<rparr>, w1)
         | (Inr designSystem, w1) \<Rightarrow>
             (case generateSlidePlan tpl JSON_parse remote (inputText st) (targetSlideCount st)
                     (selectedStyle st) designSystem w1 of
                (Inl e, w2) \<Rightarrow>
                  (ui\<lparr> state := st\<lparr> isProcessing := False \<rparr>, errorMsg := Some e \<rparr>, w2)
              | (Inr plan, w2) \<Rightarrow>
                  (ui\<lparr> state := st\<lparr> step := PLANNING, slides := typed plan,
                                   designSystemPrompt := designSystem,
                                   isProcessing := False \<rparr>,
                       errorMsg := None \<rparr>, w2))))"

text \<open>The string-valued fields a slide can be edited at.\<close>

datatype Field =
    F_title
  | F_content
  | F_visualDescription
  | F_userPromptOverride
  | F_referenceImage
  | F_generatedImageUrl

fun setField :: "Field \<Rightarrow> jsstring \<Rightarrow> SlidePlan \<Rightarrow> SlidePlan" where
  "setField F_title v s = s\<lparr> title := v \<rparr>"
| "setField F_content v s = s\<lparr> content := v \<rparr>"
| "setField F_visualDescription v s = s\<lparr> visualDescription := v \<rparr>"
| "setField F_userPromptOverride v s = s\<lparr> userPromptOverride := Some v \<rparr>"
| "setField F_referenceImage v s = s\<lparr> referenceImage := Some v \<rparr>"
| "setField F_generatedImageUrl v s = s\<lparr> generatedImageUrl := Some v \<rparr>"

definition handleUpdateSlide :: "int \<Rightarrow> Field \<Rightarrow> jsstring \<Rightarrow> ProjectState \<Rightarrow> ProjectState" where
  "handleUpdateSlide i field v st =
     st\<lparr> slides := map (\<lambda>s. if slideId s = i then setField field v s else s) (slides st) \<rparr>"

definition handleRefinePrompt :: "remote \<Rightarrow> int \<Rightarrow> UI \<Rightarrow> Net World \<Rightarrow> UI \<times> Net World" where
  "handleRefinePrompt remote i ui w =
     (case List.find (\<lambda>s. slideId s = i) (slides (state ui)) of
        None \<Rightarrow> (ui, w)
      | Some slide \<Rightarrow>
          (case refinePrompt remote (visualDescription slide) w of
             (Inr refined, w') \<Rightarrow>
               (ui\<lparr> state := (handleUpdateSlide i F_visualDescription refined
                                (state ui\<lparr> isProcessing := True \<rparr>))\<lparr> isProcessing := False \<rparr> \<rparr>,
                w')
           | (Inl e, w') \<Rightarrow>
               (ui\<lparr> state := state ui\<lparr> isProcessing := False \<rparr>,
                    alerts := alerts ui @ [RefineFailed] \<rparr>, w')))"

definition handleUpdateGlobalStyle ::
  "Templates \<Rightarrow> remote \<Rightarrow> jsstring \<Rightarrow> UI \<Rightarrow> Net World \<Rightarrow> UI \<times> Net World"
where
  "handleUpdateGlobalStyle tpl remote styleAdjustment ui w =
     (if trim styleAdjustment = [] then (ui, w)
      else
        (case updateDesignSystem tpl remote (designSystemPrompt (state ui)) styleAdjustment w of
           (Inr newSystem, w') \<Rightarrow>
             (ui\<lparr> state := state ui\<lparr> designSystemPrompt := newSystem \<rparr>,
                  alerts := alerts ui @ [StyleUpdated] \<rparr>, w')
         | (Inl e, w') \<Rightarrow> (ui\<lparr> alerts := alerts ui @ [StyleUpdateFailed] \<rparr>, w')))"

section \<open>The orchestrator (App.tsx, generateSingleSlideImage)\<close>

text \<open>
  \<open>xs.findIndex(p)\<close>: the index of the first element that satisfies \<open>p\<close>, \<open>None\<close> for \<open>-1\<close>.
\<close>

fun findIndex :: "('a \<Rightarrow> bool) \<Rightarrow> 'a list \<Rightarrow> nat option" where
  "findIndex p [] = None"
| "findIndex p (x # xs) = (if p x then Some 0 else map_option Suc (findIndex p xs))"

text \<open>
  An awaited call of \<open>generateSlideImage\<close>: the arguments of the invocation of
  \<open>generateSingleSlideImage\<close> that awaits it, and the arguments of the call itself, the
  slide read from \<open>slidesRef.current\<close> and \<open>state.designSystemPrompt\<close> of the closure.
\<close>

record Call =
  callSlideId :: int
  callAutoChain :: bool
  callSlide :: SlidePlan
  callDesignSystem :: jsstring

text \<open>
  The session: \<open>state.slides\<close> with every queued update applied; \<open>slidesRef.current\<close>, the
  copy that the effect of lines 38 to 40 writes after a render; the index of the active
  slide; the calls in flight; the pending timers, each the design system of its closure
  and the id it will call \<open>generateSingleSlideImage(id, true)\<close> with; the alerts raised; and
  the ids \<open>generateSlideImage\<close> was called for, in order.
\<close>

record Session =
  stateSlides :: "SlidePlan list"
  slidesRef :: "SlidePlan list"
  activeSlideIndex :: nat
  inFlight :: "Call list"
  timers :: "(jsstring \<times> int) list"
  sessionAlerts :: "Alert list"
  started :: "int list"

text \<open>The test of line 188, and the states of a slide in the words of the design.\<close>

definition busy :: "SlidePlan \<Rightarrow> bool" where
  "busy target = (truthy (generatedImageUrl target) \<or> isGenerating target)"

datatype Status = IDLE | GENERATING | DONE

definition status :: "SlidePlan \<Rightarrow> Status" where
  "status s =
     (if isGenerating s then GENERATING
      else if truthy (generatedImageUrl s) then DONE
      else IDLE)"

text \<open>
  Lines 199 to 216, up to the \<open>await\<close>: nothing when the id is not in the list; otherwise
  the slide is marked, the active slide follows an auto-chained call, and
  \<open>generateSlideImage\<close> is called.
\<close>

definition launch :: "jsstring \<Rightarrow> int \<Rightarrow> bool \<Rightarrow> Session \<Rightarrow> Session" where
  "launch designSystem i autoChain w =
     (case findIndex (\<lambda>s. slideId s = i) (slidesRef w) of
        None \<Rightarrow> w
      | Some slideIndex \<Rightarrow>
          w\<lparr> stateSlides :=
                map (\<lambda>s. if slideId s = i then s\<lparr> isGenerating := True \<rparr> else s) (stateSlides w),
             activeSlideIndex := (if autoChain then slideIndex else activeSlideIndex w),
             inFlight := inFlight w @
                [\<lparr> callSlideId = i, callAutoChain = autoChain,
                   callSlide = slidesRef w ! slideIndex,
                   callDesignSystem = designSystem \<rparr>],
             started := started w @ [i] \<rparr>)"

text \<open>
  \<open>generateSingleSlideImage\<close> up to its \<open>await\<close>. The call on the next slide of line 193 is
  not awaited, so it runs up to its own \<open>await\<close> within this one. A recursion that never
  ends is the value \<open>None\<close>.
\<close>

partial_function (option) generateSingleSlideImage ::
  "jsstring \<Rightarrow> int \<Rightarrow> bool \<Rightarrow> Session \<Rightarrow> Session option"
where
  "generateSingleSlideImage designSystem i autoChain w =
     (if autoChain \<and>
         (case List.find (\<lambda>s. slideId s = i) (slidesRef w) of
            None \<Rightarrow> False
          | Some target \<Rightarrow> busy target)
      then
        (case findIndex (\<lambda>s. slideId s = i) (slidesRef w) of
           None \<Rightarrow> Some w
         | Some currentIndex \<Rightarrow>
             if currentIndex < length (slidesRef w) - 1
             then generateSingleSlideImage designSystem
                    (slideId (slidesRef w ! (currentIndex + 1))) True w
             else Some w)
      else Some (launch designSystem i autoChain w))"

text \<open>
  The rest of \<open>generateSingleSlideImage\<close>, run when the awaited call \<open>c\<close> settles:
  lines 217 to 243 when it resolved to an image, lines 246 to 254 when it rejected. The
  list read at line 230 is \<open>slidesRef.current\<close> as it is then: the update of line 218 is
  not yet rendered.
\<close>

definition settle :: "Call \<Rightarrow> error + jsstring \<Rightarrow> Session \<Rightarrow> Session" where
  "settle c outcome w =
     (case outcome of
        Inr imageUrl \<Rightarrow>
          (let w1 = w\<lparr> stateSlides :=
                  map (\<lambda>s. if slideId s = callSlideId c
                           then s\<lparr> generatedImageUrl := Some imageUrl, isGenerating := False \<rparr>
                           else s) (stateSlides w) \<rparr>
           in if callAutoChain c
              then
                (case findIndex (\<lambda>s. slideId s = callSlideId c) (slidesRef w1) of
                   None \<Rightarrow> w1
                 | Some finishedIndex \<Rightarrow>
                     if finishedIndex < length (slidesRef w1) - 1
                     then
                       (let nextSlide = slidesRef w1 ! (finishedIndex + 1)
                        in if \<not> truthy (generatedImageUrl nextSlide) \<and> \<not> isGenerating nextSlide
                           then w1\<lparr> timers := timers w1 @
                                    [(callDesignSystem c, slideId nextSlide)] \<rparr>
                           else w1)
                     else w1)
              else w1)
      | Inl e \<Rightarrow>
          w\<lparr> stateSlides :=
                map (\<lambda>s. if slideId s = callSlideId c then s\<lparr> isGenerating := False \<rparr> else s)
                  (stateSlides w),
             sessionAlerts := sessionAlerts w @ [SlideFailed (callSlideId c)] \<rparr>)"

text \<open>
  A render: React commits the queued updates, and the effect copies \<open>state.slides\<close> to
  \<open>slidesRef.current\<close>.
\<close>

definition render :: "Session \<Rightarrow> Session" where
  "render w = w\<lparr> slidesRef := stateSlides w \<rparr>"

definition removeAt :: "nat \<Rightarrow> 'a list \<Rightarrow> 'a list" where
  "removeAt k xs = take k xs @ drop (Suc k) xs"

text \<open>
  The two continuations that the event loop runs as tasks: the callback of the pending
  timer number \<open>k\<close>, and the rest of the invocation that awaits the call in flight number
  \<open>k\<close>, when that call settles with \<open>outcome\<close>. There is none (\<open>None\<close>) when there is no such
  timer or call.
\<close>

definition fireTimer :: "nat \<Rightarrow> Session \<Rightarrow> Session option" where
  "fireTimer k w =
     (if k < length (timers w)
      then generateSingleSlideImage (fst (timers w ! k)) (snd (timers w ! k)) True
             (w\<lparr> timers := removeAt k (timers w) \<rparr>)
      else None)"

definition settleCall :: "nat \<Rightarrow> error + jsstring \<Rightarrow> Session \<Rightarrow> Session option" where
  "settleCall k outcome w =
     (if k < length (inFlight w)
      then Some (settle (inFlight w ! k) outcome (w\<lparr> inFlight := removeAt k (inFlight w) \<rparr>))
      else None)"

text \<open>
  The event loop without a user: while a call is in flight it settles as the
  synthesizer \<open>synth\<close> decides for the slide and the design system it was called with;
  otherwise the first pending timer fires; React renders after each of them; the
  session is settled when neither a call nor a timer is left.
\<close>

partial_function (option) drain ::
  "(SlidePlan \<Rightarrow> jsstring \<Rightarrow> error + jsstring) \<Rightarrow> Session \<Rightarrow> Session option"
where
  "drain synth w =
     (case inFlight w of
        c # cs \<Rightarrow>
          Option.bind (settleCall 0 (synth (callSlide c) (callDesignSystem c)) w)
            (\<lambda>w'. drain synth (render w'))
      | [] \<Rightarrow>
          (case timers w of
             t # ts \<Rightarrow> Option.bind (fireTimer 0 w) (\<lambda>w'. drain synth (render w'))
           | [] \<Rightarrow> Some w))"

text \<open>A settled session on a deck, and the auto-chain started on a slide of it.\<close>

definition session :: "SlidePlan list \<Rightarrow> Session" where
  "session deck =
     \<lparr> stateSlides = deck, slidesRef = deck, activeSlideIndex = 0, inFlight = [],
       timers = [], sessionAlerts = [], started = [] \<rparr>"

definition autoChainFrom ::
  "(SlidePlan \<Rightarrow> jsstring \<Rightarrow> error + jsstring) \<Rightarrow> jsstring \<Rightarrow> int \<Rightarrow> Session \<Rightarrow> Session option"
where
  "autoChainFrom synth designSystem i w =
     Option.bind (generateSingleSlideImage designSystem i True w)
       (\<lambda>w'. drain synth (render w'))"

text \<open>
  The page of the workbench with a user in front of it: the session, and
  \<open>activeSlideIndex\<close> as the last render had it (\<open>activeSlideIndex\<close> of the session is the
  state with every queued update applied; the slides of the last render are those that
  \<open>slidesRef.current\<close> holds). The handlers and the disabled state of the button that the
  user can reach are those of the last render.
\<close>

record Page =
  shownIndex :: nat
  live :: Session

text \<open>
  A handler only queues its updates of the state. React applies them when it commits
  the next render, and the updates queued by the callback of a timer or by the
  continuation of a settled call are committed in a later task of the event loop. The
  commit is therefore an event of its own, and another event can be handled before it.
  The updates of a click are committed when its handler returns: a run that follows
  React has a \<open>Commit\<close> right after each click.
\<close>

definition commit :: "Page \<Rightarrow> Page" where
  "commit p = \<lparr> shownIndex = activeSlideIndex (live p), live = render (live p) \<rparr>"

text \<open>
  The events of the workbench: entering it (\<open>startWorkbench\<close> schedules the first slide
  of the rendered list with auto-chaining), a pending timer fires, a call in flight
  settles with an outcome, the user clicks the thumbnail of a rendered slide, the user
  clicks the regenerate button, React commits a render. The button of lines 636 to 643
  is disabled when \<open>isGenerating\<close> of the active slide was true in the last render; its
  handler calls \<open>generateSingleSlideImage\<close> with the id of that slide and no
  auto-chaining. An event that cannot happen on a page has no successor (\<open>None\<close>).
\<close>

datatype Event =
    StartWorkbench jsstring
  | TimerFires nat
  | CallSettles nat "error + jsstring"
  | SelectSlide nat
  | ClickRegenerate jsstring
  | Commit

fun handleEvent :: "Event \<Rightarrow> Page \<Rightarrow> Page option" where
  "handleEvent (StartWorkbench designSystem) p =
     (case slidesRef (live p) of
        [] \<Rightarrow> Some p
      | firstSlide # rest \<Rightarrow>
          Some (p\<lparr> live := (live p)\<lparr> timers := timers (live p) @
                                         [(designSystem, slideId firstSlide)] \<rparr> \<rparr>))"
| "handleEvent (TimerFires k) p =
     map_option (\<lambda>w. p\<lparr> live := w \<rparr>) (fireTimer k (live p))"
| "handleEvent (CallSettles k outcome) p =
     map_option (\<lambda>w. p\<lparr> live := w \<rparr>) (settleCall k outcome (live p))"
| "handleEvent (SelectSlide k) p =
     (if k < length (slidesRef (live p))
      then Some (p\<lparr> live := (live p)\<lparr> activeSlideIndex := k \<rparr> \<rparr>)
      else None)"
| "handleEvent (ClickRegenerate designSystem) p =
     (if shownIndex p < length (slidesRef (live p))
         \<and> \<not> isGenerating (slidesRef (live p) ! shownIndex p)
      then map_option (\<lambda>w. p\<lparr> live := w \<rparr>)
             (generateSingleSlideImage designSystem
                (slideId (slidesRef (live p) ! shownIndex p)) False (live p))
      else None)"
| "handleEvent Commit p = Some (commit p)"

fun run :: "Event list \<Rightarrow> Page \<Rightarrow> Page option" where
  "run [] p = Some p"
| "run (e # es) p = (case handleEvent e p of None \<Rightarrow> None | Some p' \<Rightarrow> run es p')"

text \<open>The page of a settled session on a deck.\<close>

definition page :: "SlidePlan list \<Rightarrow> Page" where
  "page deck = \<lparr> shownIndex = 0, live = session deck \<rparr>"

section \<open>Stubs for concrete runs\<close>

text \<open>
  Templates that concatenate the interpolated values, a remote model that answers every
  call with the same text and no parts, and a project state whose custom style is one
  space.
\<close>

definition stubTemplates :: Templates where
  "stubTemplates =
     \<lparr> designSystemTemplate = (\<lambda>userContext modeContext. userContext @ modeContext),
       updateTemplate = (\<lambda>currentSystem adjustment. currentSystem @ adjustment),
       slidePlanTemplate = (\<lambda>slideCount inputText0 designSystem styleInstruction.
          inputText0 @ designSystem @ styleInstruction),
       slideImageTemplate = (\<lambda>designSystem visual override title0 content0.
          designSystem @ visual @ override @ title0 @ content0) \<rparr>"

definition answering :: "jsstring option \<Rightarrow> remote" where
  "answering t k req = Inr \<lparr> responseText = t, parts = [] \<rparr>"

definition freshWorld :: "Net World" where
  "freshWorld = \<lparr> sleeps = [], env = [] \<rparr>"

definition blankStyleState :: ProjectState where
  "blankStyleState =
     \<lparr> step = INPUT, inputText = js ''A'', targetSlideCount = 3, selectedStyle = CONCISE,
       customStylePrompt = js '' '', designSystemPrompt = [], slides = [],
       isProcessing = False \<rparr>"

text \<open>
  A parser that knows four texts, and a remote model whose first planning model is down
  while every other model answers with the empty list.
\<close>

definition stubParse :: "jsstring \<Rightarrow> error + nat json" where
  "stubParse t =
     (if t = js ''[]'' then Inr (JArr [])
      else if t = js ''[{}]'' then Inr (JArr [JObj []])
      else if t = js ''[null]'' then Inr (JArr [JNull])
      else if t = js ''{}'' then Inr (JObj [])
      else Inl (SyntaxError t))"

definition primaryDown :: remote where
  "primaryDown k req =
     (if model req = primaryModel
      then Inl (RemoteError (js ''overloaded''))
      else Inr \<lparr> responseText = Some (js ''[]''), parts = [] \<rparr>)"

text \<open>A remote model that rejects its first \<open>m\<close> calls and answers the empty list after.\<close>

definition downUntil :: "nat \<Rightarrow> remote" where
  "downUntil m k req =
     (if k < m then Inl (RemoteError (js ''down''))
      else Inr \<lparr> responseText = Some (js ''[]''), parts = [] \<rparr>)"

definition styledUI :: "jsstring \<Rightarrow> UI" where
  "styledUI customStyle =
     \<lparr> state = blankStyleState\<lparr> customStylePrompt := customStyle \<rparr>,
       errorMsg = None, alerts = [] \<rparr>"

definition idleSlide :: "int \<Rightarrow> SlidePlan" where
  "idleSlide i =
     \<lparr> slideId = i, title = js ''T'', content = js ''C'', visualDescription = js ''V'',
       userPromptOverride = None, referenceImage = None, generatedImageUrl = None,
       isGenerating = False \<rparr>"

definition typedAsIdle :: "nat RawSlide list \<Rightarrow> SlidePlan list" where
  "typedAsIdle plan = map (\<lambda>r. idleSlide 1) plan"

text \<open>
  A slide that has an image, a synthesizer that always resolves, and one that rejects
  the slide of a given id.
\<close>

definition doneSlide :: "int \<Rightarrow> SlidePlan" where
  "doneSlide i = (idleSlide i)\<lparr> generatedImageUrl := Some (js ''data:image/png;base64,AAAA'') \<rparr>"

definition stubSynth :: "SlidePlan \<Rightarrow> jsstring \<Rightarrow> error + jsstring" where
  "stubSynth slide designSystem = Inr (js ''data:image/png;base64,AAAA'')"

definition failingOn :: "int \<Rightarrow> SlidePlan \<Rightarrow> jsstring \<Rightarrow> error + jsstring" where
  "failingOn i slide designSystem =
     (if slideId slide = i then Inl NoImageData else Inr (js ''data:image/png;base64,AAAA''))"

text \<open>
  The session of a deck of one slide after the workbench was entered and the timer of
  the first slide has fired: the slide is generating, its call is in flight.
\<close>

definition generatingSession :: Session where
  "generatingSession =
     \<lparr> stateSlides = [(idleSlide 1)\<lparr> isGenerating := True \<rparr>],
       slidesRef = [(idleSlide 1)\<lparr> isGenerating := True \<rparr>],
       activeSlideIndex = 0,
       inFlight = [\<lparr> callSlideId = 1, callAutoChain = True, callSlide = idleSlide 1,
                     callDesignSystem = js ''D'' \<rparr>],
       timers = [], sessionAlerts = [], started = [1] \<rparr>"

text \<open>
  That session when the user has clicked the regenerate button before the marker of
  the first call was rendered: two calls for the slide are in flight.
\<close>

definition racingSession :: Session where
  "racingSession =
     \<lparr> stateSlides = [(idleSlide 1)\<lparr> isGenerating := True \<rparr>],
       slidesRef = [idleSlide 1],
       activeSlideIndex = 0,
       inFlight = [\<lparr> callSlideId = 1, callAutoChain = True, callSlide = idleSlide 1,
                     callDesignSystem = js ''D'' \<rparr>,
                   \<lparr> callSlideId = 1, callAutoChain = False, callSlide = idleSlide 1,
                     callDesignSystem = js ''D'' \<rparr>],
       timers = [], sessionAlerts = [], started = [1, 1] \<rparr>"

definition stubUI :: UI where
  "stubUI =
     \<lparr> state = blankStyleState\<lparr> slides := [idleSlide 1, idleSlide 2] \<rparr>,
       errorMsg = None, alerts = [] \<rparr>"

section \<open>Auxiliary notions of the proofs\<close>

text \<open>
  The shape the retried operations of the design system and of the image synthesis
  share: one remote call, whose response \<open>g\<close> turns into the result.
\<close>

definition ask ::
  "remote \<Rightarrow> request \<Rightarrow> (response \<Rightarrow> error + 'a) \<Rightarrow> Net World \<Rightarrow> (error + 'a) \<times> Net World"
where
  "ask remote req g w =
     (case generateContent remote req w of
        (Inl e, w') \<Rightarrow> (Inl e, w')
      | (Inr response, w') \<Rightarrow> (g response, w'))"

text \<open>
  Mutual exclusion in a session: no two calls in flight are for the same slide id, and
  every call in flight is for a slide that is marked as generating.
\<close>

definition oneCallPerSlide :: "Session \<Rightarrow> bool" where
  "oneCallPerSlide w = distinct (map callSlideId (inFlight w))"

definition callsMarked :: "Session \<Rightarrow> bool" where
  "callsMarked w =
     list_all (\<lambda>c. list_ex (\<lambda>s. slideId s = callSlideId c \<and> isGenerating s) (stateSlides w))
       (inFlight w)"

text \<open>
  The invariant of a rendered session with distinct slide ids, and of a page that shows
  it. A sequence of events in which React commits a render after each event.
\<close>

definition sound :: "Session \<Rightarrow> bool" where
  "sound w =
     (distinct (map slideId (stateSlides w)) \<and> slidesRef w = stateSlides w
      \<and> oneCallPerSlide w \<and> callsMarked w)"

definition rendered :: "Page \<Rightarrow> bool" where
  "rendered p = (sound (live p) \<and> shownIndex p = activeSlideIndex (live p))"

definition committing :: "Event list \<Rightarrow> Event list" where
  "committing events = concat (map (\<lambda>e. [e, Commit]) events)"

text \<open>
  What a planning tier yields when its call is the call number \<open>k\<close>: the rejection of the
  call, or what \<open>parseResponse\<close> makes of the response.
\<close>

definition tierOutcome ::
  "(jsstring \<Rightarrow> error + 'n json) \<Rightarrow> remote \<Rightarrow> jsstring \<Rightarrow> jsstring \<Rightarrow> nat
     \<Rightarrow> error + 'n RawSlide list"
where
  "tierOutcome JSON_parse remote m prompt k =
     (case remote k (planRequest m prompt) of
        Inl e \<Rightarrow> Inl e
      | Inr response \<Rightarrow> parseResponse JSON_parse (responseText response))"

text \<open>
  The outcomes of the two tiers in the attempt number \<open>j\<close> (from 0) of a planning run that
  starts in the world \<open>w\<close> and whose earlier attempts called both tiers.
\<close>

definition primaryAt ::
  "(jsstring \<Rightarrow> error + 'n json) \<Rightarrow> remote \<Rightarrow> jsstring \<Rightarrow> Net World \<Rightarrow> nat
     \<Rightarrow> error + 'n RawSlide list"
where
  "primaryAt JSON_parse remote prompt w j =
     tierOutcome JSON_parse remote primaryModel prompt (length (env w) + 2 * j)"

definition fallbackAt ::
  "(jsstring \<Rightarrow> error + 'n json) \<Rightarrow> remote \<Rightarrow> jsstring \<Rightarrow> Net World \<Rightarrow> nat
     \<Rightarrow> error + 'n RawSlide list"
where
  "fallbackAt JSON_parse remote prompt w j =
     tierOutcome JSON_parse remote fallbackModel prompt (length (env w) + 2 * j + 1)"

definition bothTiers :: "jsstring \<Rightarrow> request list" where
  "bothTiers prompt = [planRequest primaryModel prompt, planRequest fallbackModel prompt]"

text \<open>The delays of \<open>n\<close> retries that start at \<open>d\<close> milliseconds.\<close>

definition backoff :: "int \<Rightarrow> nat \<Rightarrow> int list" where
  "backoff d n = map (\<lambda>i. d * 2 ^ i) [0..<n]"

section \<open>Properties of adding a slide\<close>

lemma Math_max_eq_Max: "Math_max x xs = Max (set (x # xs))"
  unfolding Math_max_def by (rule Max.set_eq_fold [symmetric])

lemma spacing_below: "n < 2 ^ 53 \<Longrightarrow> spacing n = 1"
  by (subst spacing.simps) simp

lemma spacing_2_53: "spacing 9007199254740992 = 2"
  by (subst spacing.simps) (simp add: spacing_below)

lemma roundTiesToEven_exact:
  assumes "\<bar>i\<bar> \<le> 2 ^ 53"
  shows "roundTiesToEven i = i"
proof (cases "\<bar>i\<bar> < 2 ^ 53")
  case True
  then have "spacing \<bar>i\<bar> = 1" by (rule spacing_below)
  then show ?thesis by (simp add: roundTiesToEven_def)
next
  case False
  with assms have a: "\<bar>i\<bar> = 2 ^ 53" by simp
  then have u: "spacing \<bar>i\<bar> = 2" by (simp add: spacing_2_53)
  from a have "i = 2 ^ 53 \<or> i = - (2 ^ 53)" by (simp add: abs_if split: if_splits)
  then show ?thesis by (auto simp: roundTiesToEven_def u)
qed

lemma newSlideId_Nil: "newSlideId [] = 1"
  by (simp add: newSlideId_def)

lemma newSlideId_nonempty:
  assumes "ss \<noteq> []" "\<forall>s\<in>set ss. \<bar>slideId s\<bar> < 2 ^ 53"
  shows "newSlideId ss = Max (slideId ` set ss) + 1"
proof -
  from assms(1) have "Max (slideId ` set ss) \<in> slideId ` set ss" by (intro Max_in) auto
  with assms(2) have "\<bar>Max (slideId ` set ss)\<bar> < 2 ^ 53" by auto
  then have "\<bar>Max (slideId ` set ss) + 1\<bar> \<le> 2 ^ 53" by simp
  then have "add (Max (slideId ` set ss)) 1 = Max (slideId ` set ss) + 1"
    by (simp add: add_def roundTiesToEven_exact)
  with assms(1) show ?thesis
    by (cases ss) (simp_all add: newSlideId_def Math_max_eq_Max)
qed

lemma newSlideId_greater:
  assumes "s \<in> set ss" "\<forall>s\<in>set ss. \<bar>slideId s\<bar> < 2 ^ 53"
  shows "slideId s < newSlideId ss"
proof -
  from assms have ne: "ss \<noteq> []" by auto
  have "slideId s \<le> Max (slideId ` set ss)"
    using assms by (intro Max_ge) auto
  then show ?thesis
    using newSlideId_nonempty [OF ne assms(2)] by simp
qed

text \<open>
  Where the new id is fresh: on every list whose ids have a magnitude below \<open>2 ^ 53\<close>.
  \<open>handleAddSlide\<close> appends exactly one slide to the list and changes nothing else
  in the project state (the model has no remote call to make: the handler is a function
  of the state alone). The new slide is not generating and has no image; its id is 1 on
  an empty list and the largest existing id plus 1 otherwise, so it is strictly greater
  than every existing id and different from each of them, and a list of distinct ids
  stays distinct.
\<close>

lemma handleAddSlide_fresh_id_below_2_53:
  assumes small: "\<forall>s\<in>set (slides st). \<bar>slideId s\<bar> < 2 ^ 53"
  shows "slides (handleAddSlide st) = slides st @ [newSlide (newSlideId (slides st))]
   \<and> ProjectState.more (handleAddSlide st) = ProjectState.more st
   \<and> handleAddSlide st = st\<lparr> slides := slides (handleAddSlide st) \<rparr>
   \<and> take (length (slides st)) (slides (handleAddSlide st)) = slides st
   \<and> length (slides (handleAddSlide st)) = length (slides st) + 1
   \<and> slideId (last (slides (handleAddSlide st))) =
        (if slides st = [] then 1 else Max (slideId ` set (slides st)) + 1)
   \<and> \<not> isGenerating (last (slides (handleAddSlide st)))
   \<and> generatedImageUrl (last (slides (handleAddSlide st))) = None
   \<and> list_all (\<lambda>s. slideId s < slideId (last (slides (handleAddSlide st)))) (slides st)
   \<and> slideId (last (slides (handleAddSlide st))) \<notin> slideId ` set (slides st)
   \<and> (distinct (map slideId (slides st)) = distinct (map slideId (slides (handleAddSlide st))))"
proof -
  let ?n = "newSlideId (slides st)"
  have sl: "slides (handleAddSlide st) = slides st @ [newSlide ?n]"
    by (simp add: handleAddSlide_def Let_def)
  have lastid: "slideId (last (slides (handleAddSlide st))) = ?n"
    by (simp add: sl newSlide_def)
  have gt: "\<And>s. s \<in> set (slides st) \<Longrightarrow> slideId s < ?n"
    using small newSlideId_greater by blast
  have notin: "?n \<notin> slideId ` set (slides st)"
    using gt by force
  have idval: "?n = (if slides st = [] then 1 else Max (slideId ` set (slides st)) + 1)"
    using small by (simp add: newSlideId_Nil newSlideId_nonempty)
  have fresh: "list_all (\<lambda>s. slideId s < ?n) (slides st)"
    using gt by (simp add: list_all_iff)
  have more: "ProjectState.more (handleAddSlide st) = ProjectState.more st"
    by (simp add: handleAddSlide_def Let_def)
  have upd: "handleAddSlide st = st\<lparr> slides := slides (handleAddSlide st) \<rparr>"
    by (simp add: handleAddSlide_def Let_def)
  have dist: "distinct (map slideId (slides st))
              = distinct (map slideId (slides (handleAddSlide st)))"
    using notin by (simp add: sl newSlide_def)
  have flags: "\<not> isGenerating (last (slides (handleAddSlide st)))"
       "generatedImageUrl (last (slides (handleAddSlide st))) = None"
    by (simp_all add: sl newSlide_def)
  show ?thesis
    using sl lastid notin idval fresh more upd dist flags by simp
qed

lemma add_2_53: "add 9007199254740992 1 = 9007199254740992"
proof -
  have "spacing (9007199254740993 div 2) = 1" by (rule spacing_below) simp
  then have "spacing 9007199254740993 = 2"
    by (subst spacing.simps) simp
  then show ?thesis by (simp add: add_def roundTiesToEven_def)
qed

text \<open>
  C9 fails on a list that holds the id \<open>2 ^ 53 = 9007199254740992\<close>, which is a number.
  The claim says that the new id is the largest id plus 1, strictly greater than every
  existing id and not one of them. The code computes \<open>Math.max(...) + 1\<close> on doubles:
  \<open>2 ^ 53 + 1\<close> is no number, and the sum is rounded to \<open>2 ^ 53\<close>. The new slide
  has the id of the slide that is there.
\<close>

theorem handleAddSlide_duplicate_id:
  "isNumber 9007199254740992
   \<and> map slideId
        (slides (handleAddSlide (blankStyleState\<lparr> slides := [idleSlide 9007199254740992] \<rparr>)))
      = [9007199254740992, 9007199254740992]
   \<and> \<not> distinct (map slideId
        (slides (handleAddSlide (blankStyleState\<lparr> slides := [idleSlide 9007199254740992] \<rparr>))))"
proof -
  have n: "isNumber 9007199254740992" by (simp add: isNumber_def spacing_2_53)
  have ids: "map slideId
        (slides (handleAddSlide (blankStyleState\<lparr> slides := [idleSlide 9007199254740992] \<rparr>)))
      = [9007199254740992, 9007199254740992]"
    by (simp add: handleAddSlide_def newSlideId_def Math_max_def add_2_53 newSlide_def
        idleSlide_def)
  from n ids show ?thesis by simp
qed

section \<open>Properties of the retry wrapper\<close>

lemma retryOperation_resolved:
  "operation w = (Inr v, w') \<Longrightarrow> retryOperation warn operation r d w = (Inr v, w')"
  by (simp add: retryOperation.simps)

lemma retryOperation_again:
  "operation w = (Inl e, w') \<Longrightarrow> 0 < r \<Longrightarrow> warn e = None \<Longrightarrow>
   retryOperation warn operation r d w
   = retryOperation warn operation (r - 1) (d * 2) (delay d w')"
  by (subst retryOperation.simps) simp

lemma retryOperation_warning_throws:
  "operation w = (Inl e, w') \<Longrightarrow> 0 < r \<Longrightarrow> warn e = Some t \<Longrightarrow>
   retryOperation warn operation r d w = (Inl t, w')"
  by (subst retryOperation.simps) simp

lemma retryOperation_last:
  "operation w = (Inl e, w') \<Longrightarrow> \<not> 0 < r \<Longrightarrow>
   retryOperation warn operation r d w = (Inl e, w')"
  by (subst retryOperation.simps) simp

text \<open>The same for the operations of the service, whose errors are \<open>Error\<close> objects.\<close>

lemma retry_Inr:
  "operation w = (Inr v, w') \<Longrightarrow> retryOperation warnError operation r d w = (Inr v, w')"
  by (rule retryOperation_resolved)

lemma retry_Inl_more:
  "operation w = (Inl e, w') \<Longrightarrow> 0 < r \<Longrightarrow>
   retryOperation warnError operation r d w
   = retryOperation warnError operation (r - 1) (d * 2) (delay d w')"
  by (rule retryOperation_again) (simp_all add: warnError_def)

lemma retry_Inl_last:
  "operation w = (Inl e, w') \<Longrightarrow> \<not> 0 < r \<Longrightarrow>
   retryOperation warnError operation r d w = (Inl e, w')"
  by (rule retryOperation_last)

lemma backoff_Suc:
  "map (\<lambda>i. d * 2 ^ i) [0..<Suc n] = (d::int) # map (\<lambda>i. (d * 2) * 2 ^ i) [0..<n]"
  by (simp add: upt_conv_Cons map_Suc_upt [symmetric] del: upt_Suc)

lemma backoff_simps: "backoff d 0 = []" "backoff d (Suc n) = d # backoff (d * 2) n"
  by (simp_all add: backoff_def backoff_Suc del: upt_Suc)

lemma retry_scripted_success:
  "(\<forall>k<N. \<exists>e. outcome (c + k) = Inl e \<and> warn e = None) \<Longrightarrow> outcome (c + N) = Inr v \<Longrightarrow>
   int N \<le> r \<Longrightarrow>
   retryOperation warn (scripted outcome) r d \<lparr> sleeps = s, env = c \<rparr>
   = (Inr v, \<lparr> sleeps = s @ map (\<lambda>i. d * 2 ^ i) [0..<N], env = c + N + 1 \<rparr>)"
proof (induction N arbitrary: c r d s)
  case 0
  then show ?case by (simp add: retryOperation_resolved scripted_def)
next
  case (Suc N)
  from Suc.prems(1) have "\<exists>e. outcome (c + 0) = Inl e \<and> warn e = None" by blast
  then obtain e where e: "outcome c = Inl e" "warn e = None" by auto
  have op: "scripted outcome \<lparr> sleeps = s, env = c \<rparr> = (Inl e, \<lparr> sleeps = s, env = Suc c \<rparr>)"
    by (simp add: scripted_def e)
  have r: "0 < r" using Suc.prems(3) by simp
  have fails: "\<forall>k<N. \<exists>e. outcome (Suc c + k) = Inl e \<and> warn e = None"
    using Suc.prems(1) by (metis Suc_less_eq add_Suc_shift)
  have "retryOperation warn (scripted outcome) r d \<lparr> sleeps = s, env = c \<rparr>
        = retryOperation warn (scripted outcome) (r - 1) (d * 2) \<lparr> sleeps = s @ [d], env = Suc c \<rparr>"
    by (simp add: retryOperation_again [where operation = "scripted outcome" and warn = warn, OF op r e(2)]
          delay_def)
  also have "\<dots> = (Inr v, \<lparr> sleeps = (s @ [d]) @ map (\<lambda>i. (d * 2) * 2 ^ i) [0..<N],
                              env = Suc c + N + 1 \<rparr>)"
    using Suc.prems(2,3) by (intro Suc.IH [OF fails]) simp_all
  finally show ?case by (simp add: backoff_Suc del: upt_Suc)
qed

lemma retry_scripted_exhausted:
  "(\<forall>k\<le>N. \<exists>e. outcome (c + k) = Inl e \<and> warn e = None) \<Longrightarrow> r = int N \<Longrightarrow>
   retryOperation warn (scripted outcome) r d \<lparr> sleeps = s, env = c \<rparr>
   = (outcome (c + N), \<lparr> sleeps = s @ map (\<lambda>i. d * 2 ^ i) [0..<N], env = c + N + 1 \<rparr>)"
proof (induction N arbitrary: c r d s)
  case 0
  from "0.prems"(1) obtain e where e: "outcome c = Inl e" by auto
  have op: "scripted outcome \<lparr> sleeps = s, env = c \<rparr> = (Inl e, \<lparr> sleeps = s, env = Suc c \<rparr>)"
    by (simp add: scripted_def e)
  show ?case
    using retryOperation_last [where operation = "scripted outcome", OF op, of r warn d]
      "0.prems"(2) e
    by simp
next
  case (Suc N)
  from Suc.prems(1) have "\<exists>e. outcome (c + 0) = Inl e \<and> warn e = None" by blast
  then obtain e where e: "outcome c = Inl e" "warn e = None" by auto
  have op: "scripted outcome \<lparr> sleeps = s, env = c \<rparr> = (Inl e, \<lparr> sleeps = s, env = Suc c \<rparr>)"
    by (simp add: scripted_def e)
  have r: "0 < r" using Suc.prems(2) by simp
  have fails: "\<forall>k\<le>N. \<exists>e. outcome (Suc c + k) = Inl e \<and> warn e = None"
    using Suc.prems(1) by (metis Suc_le_mono add_Suc_shift)
  have "retryOperation warn (scripted outcome) r d \<lparr> sleeps = s, env = c \<rparr>
        = retryOperation warn (scripted outcome) (r - 1) (d * 2) \<lparr> sleeps = s @ [d], env = Suc c \<rparr>"
    by (simp add: retryOperation_again [where operation = "scripted outcome" and warn = warn, OF op r e(2)]
          delay_def)
  also have "\<dots> = (outcome (Suc c + N), \<lparr> sleeps = (s @ [d]) @ map (\<lambda>i. (d * 2) * 2 ^ i) [0..<N],
                              env = Suc c + N + 1 \<rparr>)"
    using Suc.prems(2) by (intro Suc.IH [OF fails]) simp_all
  finally show ?case by (simp add: backoff_Suc del: upt_Suc)
qed

lemma retry_Inr_from_operation:
  "retryOperation warn operation r d w = (Inr v, w1) \<Longrightarrow> \<exists>w0 w2. operation w0 = (Inr v, w2)"
proof (induction warn operation r d w rule: retryOperation.induct)
  case (1 warn operation retries delayMs w)
  obtain res w' where op: "operation w = (res, w')" by (cases "operation w")
  show ?case
  proof (cases res)
    case (Inr u)
    with op "1.prems" have "u = v" by (simp add: retryOperation_resolved)
    with op Inr show ?thesis by blast
  next
    case (Inl e)
    show ?thesis
    proof (cases "0 < retries")
      case True
      show ?thesis
      proof (cases "warn e")
        case None
        have "retryOperation warn operation (retries - 1) (delayMs * 2) (delay delayMs w')
              = (Inr v, w1)"
          using "1.prems" retryOperation_again [of operation w e w' retries warn delayMs]
            op Inl True None
          by simp
        from "1.IH" [OF op [unfolded Inl, symmetric] refl True None this] show ?thesis .
      next
        case (Some t)
        with "1.prems" op Inl True show ?thesis
          by (simp add: retryOperation_warning_throws [of operation w e w' retries warn t])
      qed
    next
      case False
      with "1.prems" op Inl show ?thesis by (simp add: retryOperation_last)
    qed
  qed
qed

text \<open>
  The counts of the wrapper, for every stub operation whose rejection values have a
  message that can be read, and every \<open>N\<close>. When the first \<open>N\<close> invocations reject,
  the next one resolves to \<open>v\<close> and \<open>retries\<close> is at least \<open>N\<close>, \<open>retryOperation\<close> resolves to
  \<open>v\<close> after exactly \<open>N + 1\<close> invocations, having waited \<open>delayMs\<close>, \<open>2 * delayMs\<close>, ...
  between them. When every invocation rejects, \<open>retryOperation\<close> with its default
  arguments invokes the operation exactly 4 times, waits 3000, 6000 and 12000
  milliseconds between the attempts, and rejects with the error of the fourth
  invocation, unchanged.
\<close>

lemma retryOperation_readable_counts:
  "((\<forall>k<N. \<exists>e. outcome k = Inl e \<and> warn e = None) \<and> outcome N = Inr v \<and> int N \<le> retries \<longrightarrow>
      retryOperation warn (scripted outcome) retries delayMs \<lparr> sleeps = [], env = 0 \<rparr>
      = (Inr v, \<lparr> sleeps = map (\<lambda>i. delayMs * 2 ^ i) [0..<N], env = N + 1 \<rparr>))
   \<and> ((\<forall>k. outcome k = Inl (failure k) \<and> warn (failure k) = None) \<longrightarrow>
      retryOperation_default warn (scripted outcome) \<lparr> sleeps = [], env = 0 \<rparr>
      = (Inl (failure 3), \<lparr> sleeps = [3000, 6000, 12000], env = 4 \<rparr>))"
proof (intro conjI impI)
  assume "(\<forall>k<N. \<exists>e. outcome k = Inl e \<and> warn e = None) \<and> outcome N = Inr v \<and> int N \<le> retries"
  then show "retryOperation warn (scripted outcome) retries delayMs \<lparr> sleeps = [], env = 0 \<rparr>
      = (Inr v, \<lparr> sleeps = map (\<lambda>i. delayMs * 2 ^ i) [0..<N], env = N + 1 \<rparr>)"
    using retry_scripted_success [of N outcome 0 warn v retries delayMs "[]"] by simp
next
  assume a: "\<forall>k. outcome k = Inl (failure k) \<and> warn (failure k) = None"
  then have f: "\<forall>k\<le>3. \<exists>e. outcome (0 + k) = Inl e \<and> warn e = None" by simp
  from a have l: "outcome 3 = Inl (failure 3)" by simp
  from retry_scripted_exhausted [OF f, of 3 3000 "[]"] l
  show "retryOperation_default warn (scripted outcome) \<lparr> sleeps = [], env = 0 \<rparr>
      = (Inl (failure 3), \<lparr> sleeps = [3000, 6000, 12000], env = 4 \<rparr>)"
    by (simp add: retryOperation_default_def upt_conv_Cons)
qed

text \<open>
  A stub that rejects twice with an \<open>Error\<close> object and then resolves to 7, and a stub
  that always rejects with one.
\<close>

lemma retryOperation_readable_counts_example:
  "retryOperation warnRejection
     (scripted (\<lambda>k::nat. if k < 2 then Inl (ErrorObject (js ''e'')) else Inr (7::nat))) 3 3000
     \<lparr> sleeps = [], env = 0 \<rparr>
   = (Inr 7, \<lparr> sleeps = [3000, 6000], env = 3 \<rparr>)
   \<and> retryOperation_default warnRejection
        (scripted (\<lambda>k. Inl (ErrorObject (js ''e'')) :: Rejection + nat))
        \<lparr> sleeps = [], env = 0 \<rparr>
   = (Inl (ErrorObject (js ''e'')), \<lparr> sleeps = [3000, 6000, 12000], env = 4 \<rparr>)"
  using retryOperation_readable_counts [where N = 2 and v = 7 and retries = 3 and delayMs = 3000
      and warn = warnRejection
      and outcome = "\<lambda>k::nat. if k < 2 then Inl (ErrorObject (js ''e'')) else Inr (7::nat)"
      and failure = "\<lambda>k. ErrorObject (js ''e'')"]
    retryOperation_readable_counts [where N = 0 and v = 0 and retries = 0 and delayMs = 0
      and warn = warnRejection
      and outcome = "\<lambda>k. Inl (ErrorObject (js ''e'')) :: Rejection + nat"
      and failure = "\<lambda>k. ErrorObject (js ''e'')"]
  by (simp add: upt_conv_Cons)


section \<open>Properties of the design system\<close>

lemma js_simps: "js [] = []" "js (c # cs) = of_char c # js cs"
  by (simp_all add: js_def)

lemma orElse_falsy: "\<not> truthy a \<Longrightarrow> orElse a b = b"
  by (simp add: orElse_def truthy_def split: option.splits)

lemma orElse_cases: "orElse a b = b \<or> orElse a b \<noteq> []"
  by (simp add: orElse_def split: option.splits)

lemma ask_world: "snd (ask remote req g w) = w\<lparr> env := env w @ [req] \<rparr>"
  by (simp add: ask_def generateContent_def split: sum.splits)

lemma ask_Inl: "remote (length (env w)) req = Inl e \<Longrightarrow>
   ask remote req g w = (Inl e, w\<lparr> env := env w @ [req] \<rparr>)"
  by (simp add: ask_def generateContent_def)

lemma ask_Inr: "remote (length (env w)) req = Inr response \<Longrightarrow>
   ask remote req g w = (g response, w\<lparr> env := env w @ [req] \<rparr>)"
  by (simp add: ask_def generateContent_def)

lemma ask_Inr_result: "ask remote req g w0 = (Inr r, stripAll_fence_json) \<Longrightarrow> \<exists>response. g response = Inr r"
  by (auto simp: ask_def generateContent_def split: sum.splits)

lemma retry_ask_success:
  "(\<forall>j<n. isl (remote (length (env w) + j) req)) \<Longrightarrow>
   remote (length (env w) + n) req = Inr response \<Longrightarrow> g response = Inr v \<Longrightarrow> int n \<le> r \<Longrightarrow>
   retryOperation warnError (ask remote req g) r d w
   = (Inr v, w\<lparr> sleeps := sleeps w @ map (\<lambda>i. d * 2 ^ i) [0..<n],
                env := env w @ replicate (Suc n) req \<rparr>)"
proof (induction n arbitrary: w r d)
  case 0
  then show ?case by (simp add: retry_Inr ask_Inr)
next
  case (Suc n)
  from Suc.prems(1) have "isl (remote (length (env w) + 0) req)" by blast
  then obtain e where e: "remote (length (env w)) req = Inl e"
    by (cases "remote (length (env w)) req") auto
  let ?w' = "delay d (w\<lparr> env := env w @ [req] \<rparr>)"
  have r: "0 < r" using Suc.prems(4) by simp
  have len: "length (env ?w') = Suc (length (env w))" by (simp add: delay_def)
  have fails: "\<forall>j<n. isl (remote (length (env ?w') + j) req)"
    using Suc.prems(1) unfolding len by (metis Suc_less_eq add_Suc_shift)
  have ok: "remote (length (env ?w') + n) req = Inr response"
    using Suc.prems(2) unfolding len by simp
  have "retryOperation warnError (ask remote req g) r d w
        = retryOperation warnError (ask remote req g) (r - 1) (d * 2) ?w'"
    by (rule retry_Inl_more [where operation = "ask remote req g",
          OF ask_Inl [where remote = remote and g = g, OF e] r])
  also have "\<dots> = (Inr v, ?w'\<lparr> sleeps := sleeps ?w' @ map (\<lambda>i. (d * 2) * 2 ^ i) [0..<n],
                env := env ?w' @ replicate (Suc n) req \<rparr>)"
    using Suc.prems(4) by (intro Suc.IH [OF fails ok Suc.prems(3)]) simp
  finally show ?case
    by (simp add: backoff_Suc delay_def del: upt_Suc)
qed

lemma retry_ask_calls:
  "\<exists>m. env (snd (retryOperation warnError (ask remote req g) r d w)) = env w @ replicate (Suc m) req"
proof (induction warnError "ask remote req g" r d w rule: retryOperation.induct)
  case (1 retries delayMs w)
  let ?w' = "w\<lparr> env := env w @ [req] \<rparr>"
  obtain res where op: "ask remote req g w = (res, ?w')"
    using ask_world [of remote req g w] by (cases "ask remote req g w") simp
  show ?case
  proof (cases res)
    case (Inr u)
    with op have "retryOperation warnError (ask remote req g) retries delayMs w = (Inr u, ?w')"
      by (simp add: retry_Inr)
    then have "env (snd (retryOperation warnError (ask remote req g) retries delayMs w))
               = env w @ replicate (Suc 0) req" by simp
    then show ?thesis by blast
  next
    case (Inl e)
    show ?thesis
    proof (cases "0 < retries")
      case True
      have "warnError e = None" by (simp add: warnError_def)
      from "1.hyps" [OF op [unfolded Inl, symmetric] refl True this]
      obtain m where "env (snd (retryOperation warnError (ask remote req g) (retries - 1) (delayMs * 2)
                                  (delay delayMs ?w')))
                      = env (delay delayMs ?w') @ replicate (Suc m) req" by blast
      then have "env (snd (retryOperation warnError (ask remote req g) retries delayMs w))
                 = env w @ replicate (Suc (Suc m)) req"
        using retry_Inl_more [of "ask remote req g" w e ?w' retries delayMs] op Inl True
        by (simp add: delay_def)
      then show ?thesis by blast
    next
      case False
      with op Inl have "retryOperation warnError (ask remote req g) retries delayMs w = (Inl e, ?w')"
        by (simp add: retry_Inl_last)
      then have "env (snd (retryOperation warnError (ask remote req g) retries delayMs w))
               = env w @ replicate (Suc 0) req" by simp
      then show ?thesis by blast
    qed
  qed
qed

lemma updateDesignSystem_ask:
  "updateDesignSystem tpl remote currentSystem adjustment
   = retryOperation_default warnError
       (ask remote (updateRequest tpl currentSystem adjustment)
          (\<lambda>response. Inr (orElse (responseText response) currentSystem)))"
proof -
  have "(\<lambda>w. case generateContent remote (updateRequest tpl currentSystem adjustment) w of
           (Inl e, w') \<Rightarrow> (Inl e, w')
         | (Inr response, w') \<Rightarrow> (Inr (orElse (responseText response) currentSystem), w'))
        = ask remote (updateRequest tpl currentSystem adjustment)
          (\<lambda>response. Inr (orElse (responseText response) currentSystem))"
    by (rule ext) (simp add: ask_def)
  then show ?thesis by (simp add: updateDesignSystem_def)
qed

lemma generateDesignSystem_ask:
  "generateDesignSystem tpl remote customStyle styleMode
   = retryOperation_default warnError
       (ask remote (designSystemRequest tpl customStyle styleMode)
          (\<lambda>response. Inr (orElse (responseText response)
                            (js ''Modern clean business style with blue accents.''))))"
proof -
  have "(\<lambda>w. case generateContent remote (designSystemRequest tpl customStyle styleMode) w of
           (Inl e, w') \<Rightarrow> (Inl e, w')
         | (Inr response, w') \<Rightarrow> (Inr (orElse (responseText response)
                            (js ''Modern clean business style with blue accents.'')), w'))
        = ask remote (designSystemRequest tpl customStyle styleMode)
          (\<lambda>response. Inr (orElse (responseText response)
                            (js ''Modern clean business style with blue accents.'')))"
    by (rule ext) (simp add: ask_def)
  then show ?thesis by (simp add: generateDesignSystem_def)
qed

text \<open>
  C8. For every current design system and every adjustment: when the remote model, after
  at most three rejected calls, answers the update request with an empty (or undefined)
  text, \<open>updateDesignSystem\<close> resolves to the current design system, unchanged. And
  whatever the remote model does, a design system \<open>updateDesignSystem\<close> resolves to is the
  current one or a non-empty text: the update never blanks the design system.
\<close>

theorem updateDesignSystem_empty_output:
  "((\<forall>j<n. isl (remote (length (env w) + j)
                   (updateRequest tpl currentSystem adjustment)))
     \<and> remote (length (env w) + n)
          (updateRequest tpl currentSystem adjustment)
        = Inr response
     \<and> \<not> truthy (responseText response) \<and> n \<le> 3
     \<longrightarrow> fst (updateDesignSystem tpl remote currentSystem adjustment w) = Inr currentSystem)
   \<and> (fst (updateDesignSystem tpl remote currentSystem adjustment w) = Inr r
     \<longrightarrow> r = currentSystem \<or> r \<noteq> [])"
proof (intro conjI impI)
  let ?req = "updateRequest tpl currentSystem adjustment"
  let ?g = "\<lambda>response::response. Inr (orElse (responseText response) currentSystem) :: error + jsstring"
  assume a: "(\<forall>j<n. isl (remote (length (env w) + j) ?req))
     \<and> remote (length (env w) + n) ?req = Inr response
     \<and> \<not> truthy (responseText response) \<and> n \<le> 3"
  then have g: "?g response = Inr currentSystem" by (simp add: orElse_falsy)
  from a have n: "int n \<le> 3" by simp
  from a retry_ask_success [where g = ?g, OF _ _ g n, of remote w ?req 3000]
  show "fst (updateDesignSystem tpl remote currentSystem adjustment w) = Inr currentSystem"
    by (simp add: updateDesignSystem_ask retryOperation_default_def)
next
  let ?req = "updateRequest tpl currentSystem adjustment"
  let ?g = "\<lambda>response::response. Inr (orElse (responseText response) currentSystem) :: error + jsstring"
  assume "fst (updateDesignSystem tpl remote currentSystem adjustment w) = Inr r"
  then obtain stripAll_fence where "retryOperation warnError (ask remote ?req ?g) 3 3000 w = (Inr r, stripAll_fence)"
    by (cases "retryOperation warnError (ask remote ?req ?g) 3 3000 w")
       (simp add: updateDesignSystem_ask retryOperation_default_def)
  from retry_Inr_from_operation [OF this]
  obtain w0 stripAll_fence_json where "ask remote ?req ?g w0 = (Inr r, stripAll_fence_json)" by blast
  from ask_Inr_result [OF this]
  obtain resp where "?g resp = Inr r" ..
  then have "r = orElse (responseText resp) currentSystem" by simp
  then show "r = currentSystem \<or> r \<noteq> []"
    using orElse_cases [of "responseText resp" currentSystem] by simp
qed

text \<open>A remote model that answers every call with the empty text.\<close>

theorem updateDesignSystem_empty_output_witness:
  "fst (updateDesignSystem stubTemplates (answering (Some [])) (js ''dark'') (js ''more blue'')
          freshWorld) = Inr (js ''dark'')
   \<and> js ''dark'' \<noteq> []"
  using updateDesignSystem_empty_output [where n = 0 and remote = "answering (Some [])"
      and w = freshWorld and tpl = stubTemplates and currentSystem = "js ''dark''"
      and adjustment = "js ''more blue''" and r = "js ''dark''"
      and response = "\<lparr> responseText = Some [], parts = [] \<rparr>"]
  by (simp add: answering_def truthy_def js_def)

section \<open>Properties of prompt refinement\<close>

lemma find_distinct_id:
  "distinct (map slideId ss) \<Longrightarrow> s \<in> set ss \<Longrightarrow> List.find (\<lambda>x. slideId x = slideId s) ss = Some s"
  by (induction ss) (auto simp: image_iff)

lemma map_self_distinct_id:
  assumes d: "distinct (map slideId ss)" and m: "s \<in> set ss"
  shows "map (\<lambda>x. if slideId x = slideId s
                   then setField F_visualDescription (visualDescription s) x else x) ss = ss"
proof -
  have "(if slideId x = slideId s
         then setField F_visualDescription (visualDescription s) x else x) = x"
    if "x \<in> set ss" for x
  proof (cases "slideId x = slideId s")
    case True
    with d m that have "x = s" by (meson distinct_map inj_onD)
    then show ?thesis by simp
  next
    case False
    then show ?thesis by simp
  qed
  then show ?thesis by (simp add: map_idI)
qed

lemma refinePrompt_falsy:
  "remote (length (env w)) (refineRequest p) = Inr response \<Longrightarrow> \<not> truthy (responseText response) \<Longrightarrow>
   refinePrompt remote p w = (Inr p, w\<lparr> env := env w @ [refineRequest p] \<rparr>)"
  by (simp add: refinePrompt_def generateContent_def orElse_falsy)

text \<open>
  C10. For every prompt: when the remote model answers the refinement request with an
  empty (or undefined) text, \<open>refinePrompt\<close> resolves to the prompt it was given,
  unchanged, after one call. Hence \<open>handleRefinePrompt\<close> on a slide of a deck with
  distinct ids, with such an answer, writes the visual description the slide already
  has: the slides are unchanged, the processing flag is cleared, no alert is raised.
\<close>

theorem refinePrompt_empty_output:
  "(remote (length (env w)) (refineRequest p) = Inr response \<and> \<not> truthy (responseText response)
      \<longrightarrow> refinePrompt remote p w = (Inr p, w\<lparr> env := env w @ [refineRequest p] \<rparr>))
   \<and> (s \<in> set (slides (state ui)) \<and> distinct (map slideId (slides (state ui)))
       \<and> remote (length (env w)) (refineRequest (visualDescription s)) = Inr response'
       \<and> \<not> truthy (responseText response')
      \<longrightarrow> handleRefinePrompt remote (slideId s) ui w
          = (ui\<lparr> state := state ui\<lparr> isProcessing := False \<rparr> \<rparr>,
             w\<lparr> env := env w @ [refineRequest (visualDescription s)] \<rparr>))"
proof (intro conjI impI)
  assume "remote (length (env w)) (refineRequest p) = Inr response \<and> \<not> truthy (responseText response)"
  then show "refinePrompt remote p w = (Inr p, w\<lparr> env := env w @ [refineRequest p] \<rparr>)"
    by (simp add: refinePrompt_falsy)
next
  assume a: "s \<in> set (slides (state ui)) \<and> distinct (map slideId (slides (state ui)))
       \<and> remote (length (env w)) (refineRequest (visualDescription s)) = Inr response'
       \<and> \<not> truthy (responseText response')"
  then have f: "List.find (\<lambda>x. slideId x = slideId s) (slides (state ui)) = Some s"
    by (simp add: find_distinct_id)
  from a have r: "refinePrompt remote (visualDescription s) w
      = (Inr (visualDescription s), w\<lparr> env := env w @ [refineRequest (visualDescription s)] \<rparr>)"
    by (simp add: refinePrompt_falsy)
  from a have m: "map (\<lambda>x. if slideId x = slideId s
                         then setField F_visualDescription (visualDescription s) x else x)
                    (slides (state ui)) = slides (state ui)"
    by (simp add: map_self_distinct_id)
  show "handleRefinePrompt remote (slideId s) ui w
          = (ui\<lparr> state := state ui\<lparr> isProcessing := False \<rparr> \<rparr>,
             w\<lparr> env := env w @ [refineRequest (visualDescription s)] \<rparr>)"
    by (simp add: handleRefinePrompt_def f r handleUpdateSlide_def m)
qed

text \<open>The first of two idle slides is refined by a remote model that answers no text.\<close>

theorem refinePrompt_empty_output_witness:
  "refinePrompt (answering None) (js ''V'') freshWorld
     = (Inr (js ''V''), freshWorld\<lparr> env := [refineRequest (js ''V'')] \<rparr>)
   \<and> handleRefinePrompt (answering None) 1 stubUI freshWorld
     = (stubUI\<lparr> state := state stubUI\<lparr> isProcessing := False \<rparr> \<rparr>,
        freshWorld\<lparr> env := [refineRequest (js ''V'')] \<rparr>)"
  using refinePrompt_empty_output [where remote = "answering None" and w = freshWorld
      and p = "js ''V''" and s = "idleSlide 1" and ui = stubUI
      and response = "\<lparr> responseText = None, parts = [] \<rparr>"
      and response' = "\<lparr> responseText = None, parts = [] \<rparr>"]
  by (simp add: answering_def truthy_def freshWorld_def stubUI_def idleSlide_def)

section \<open>Properties of the outline parser\<close>

lemma mapThrowing_all_Inr:
  "\<forall>x\<in>set xs. \<exists>y. f x = Inr y \<Longrightarrow> mapThrowing f xs = Inr (map (\<lambda>x. projr (f x)) xs)"
  by (induction xs) (auto split: sum.splits)

lemma mapThrowing_Inr:
  "mapThrowing f xs = Inr ys \<Longrightarrow> list_all2 (\<lambda>x y. f x = Inr y) xs ys"
proof (induction xs arbitrary: ys)
  case Nil
  then show ?case by simp
next
  case (Cons x xs)
  from Cons.prems obtain y ys' where "f x = Inr y" "mapThrowing f xs = Inr ys'" "ys = y # ys'"
    by (auto split: sum.splits)
  with Cons.IH [of ys'] show ?case by simp
qed

lemma mapThrowing_Inl:
  "mapThrowing f xs = Inl e \<Longrightarrow> \<exists>x\<in>set xs. f x = Inl e"
proof (induction xs)
  case Nil
  then show ?case by simp
next
  case (Cons x xs)
  show ?case
  proof (cases "f x")
    case (Inl e')
    with Cons.prems show ?thesis by simp
  next
    case (Inr y)
    with Cons.prems have "mapThrowing f xs = Inl e"
      by (cases "mapThrowing f xs") simp_all
    with Cons.IH show ?thesis by simp
  qed
qed

lemma projectItem_JNull: "projectItem JNull = Inl NullItem"
  by (simp add: projectItem_def)

lemma projectItem_nonnull:
  "item \<noteq> JNull \<Longrightarrow> projectItem item =
               Inr \<lparr> raw_id = projr (getProp item K_id),
                     raw_title = projr (getProp item K_title),
                     raw_content = projr (getProp item K_content),
                     raw_visualDescription = projr (getProp item K_visualDescription),
                     raw_userPromptOverride = None, raw_referenceImage = None,
                     raw_generatedImageUrl = None, raw_isGenerating = False \<rparr>"
  by (cases item) (simp_all add: projectItem_def)

lemma projectItem_Inr:
  "projectItem item = Inr s \<Longrightarrow> \<not> raw_isGenerating s \<and> raw_generatedImageUrl s = None \<and> item \<noteq> JNull"
proof (cases "item = JNull")
  case True
  assume "projectItem item = Inr s"
  with True show ?thesis by (simp add: projectItem_JNull)
next
  case False
  assume "projectItem item = Inr s"
  with projectItem_nonnull [OF False] False show ?thesis by auto
qed

lemma projectItem_Inl: "projectItem item = Inl e \<Longrightarrow> e = NullItem"
  by (cases "item = JNull") (simp_all add: projectItem_JNull projectItem_nonnull)

text \<open>
  C6, as the code has it. The text handed to the parser is the response (or \<open>[]\<close> when it
  is empty) without the code-fence markers and trimmed. \<open>parseResponse\<close> throws the
  parser's error when the text does not parse, \<open>Error("Output is not an array")\<close> when the
  parsed value is not an array, and a \<open>TypeError\<close> when the array has a \<open>null\<close> element.
  Every other array is projected element by element: a property the element lacks is
  read as \<open>undefined\<close>, without any error. Every projected element has
  \<open>isGenerating = false\<close> and no generated image.
\<close>

theorem parseResponse_shape:
  "(JSON_parse (cleanText rawText) = Inl e \<longrightarrow> parseResponse JSON_parse rawText = Inl e)
   \<and> (JSON_parse (cleanText rawText) = Inr parsed \<and> (\<forall>items. parsed \<noteq> JArr items)
        \<longrightarrow> parseResponse JSON_parse rawText = Inl OutputNotArray)
   \<and> (JSON_parse (cleanText rawText) = Inr (JArr items) \<and> JNull \<in> set items
        \<longrightarrow> parseResponse JSON_parse rawText = Inl NullItem)
   \<and> (JSON_parse (cleanText rawText) = Inr (JArr items) \<and> JNull \<notin> set items
        \<longrightarrow> parseResponse JSON_parse rawText = Inr (map (\<lambda>item. projr (projectItem item)) items)
          \<and> list_all (\<lambda>item. projectItem item =
               Inr \<lparr> raw_id = projr (getProp item K_id),
                     raw_title = projr (getProp item K_title),
                     raw_content = projr (getProp item K_content),
                     raw_visualDescription = projr (getProp item K_visualDescription),
                     raw_userPromptOverride = None, raw_referenceImage = None,
                     raw_generatedImageUrl = None, raw_isGenerating = False \<rparr>) items)
   \<and> (parseResponse JSON_parse rawText = Inr plan
        \<longrightarrow> list_all (\<lambda>s. \<not> raw_isGenerating s \<and> raw_generatedImageUrl s = None) plan)"
proof (intro conjI impI)
  assume "JSON_parse (cleanText rawText) = Inl e"
  then show "parseResponse JSON_parse rawText = Inl e"
    by (simp add: parseResponse_def)
next
  assume "JSON_parse (cleanText rawText) = Inr parsed \<and> (\<forall>items. parsed \<noteq> JArr items)"
  then show "parseResponse JSON_parse rawText = Inl OutputNotArray"
    by (cases parsed) (simp_all add: parseResponse_def)
next
  assume a: "JSON_parse (cleanText rawText) = Inr (JArr items) \<and> JNull \<in> set items"
  have "mapThrowing projectItem items = Inl NullItem"
  proof (cases "mapThrowing projectItem items")
    case (Inl e')
    from mapThrowing_Inl [OF this] obtain x where "x \<in> set items" "projectItem x = Inl e'"
      by blast
    then have "e' = NullItem" by (simp add: projectItem_Inl)
    with Inl show ?thesis by simp
  next
    case (Inr ys)
    from a obtain i where i: "i < length items" "items ! i = JNull"
      by (auto simp: in_set_conv_nth)
    from mapThrowing_Inr [OF Inr] i have "projectItem JNull = Inr (ys ! i)"
      by (auto simp: list_all2_conv_all_nth)
    then show ?thesis by (simp add: projectItem_JNull)
  qed
  with a show "parseResponse JSON_parse rawText = Inl NullItem"
    by (simp add: parseResponse_def)
next
  assume a: "JSON_parse (cleanText rawText) = Inr (JArr items) \<and> JNull \<notin> set items"
  then have "\<forall>x\<in>set items. \<exists>y. projectItem x = Inr y"
    using projectItem_nonnull by (metis (no_types))
  then have "mapThrowing projectItem items = Inr (map (\<lambda>x. projr (projectItem x)) items)"
    by (rule mapThrowing_all_Inr)
  with a show "parseResponse JSON_parse rawText = Inr (map (\<lambda>item. projr (projectItem item)) items)"
    by (simp add: parseResponse_def)
  have "\<And>item. item \<in> set items \<Longrightarrow> projectItem item =
               Inr \<lparr> raw_id = projr (getProp item K_id),
                     raw_title = projr (getProp item K_title),
                     raw_content = projr (getProp item K_content),
                     raw_visualDescription = projr (getProp item K_visualDescription),
                     raw_userPromptOverride = None, raw_referenceImage = None,
                     raw_generatedImageUrl = None, raw_isGenerating = False \<rparr>"
  proof -
    fix item assume "item \<in> set items"
    with a have "item \<noteq> JNull" by auto
    then show "projectItem item =
               Inr \<lparr> raw_id = projr (getProp item K_id),
                     raw_title = projr (getProp item K_title),
                     raw_content = projr (getProp item K_content),
                     raw_visualDescription = projr (getProp item K_visualDescription),
                     raw_userPromptOverride = None, raw_referenceImage = None,
                     raw_generatedImageUrl = None, raw_isGenerating = False \<rparr>"
      by (rule projectItem_nonnull)
  qed
  then show "list_all (\<lambda>item. projectItem item =
               Inr \<lparr> raw_id = projr (getProp item K_id),
                     raw_title = projr (getProp item K_title),
                     raw_content = projr (getProp item K_content),
                     raw_visualDescription = projr (getProp item K_visualDescription),
                     raw_userPromptOverride = None, raw_referenceImage = None,
                     raw_generatedImageUrl = None, raw_isGenerating = False \<rparr>) items"
    by (simp add: list_all_iff)
next
  assume a: "parseResponse JSON_parse rawText = Inr plan"
  then obtain items where m: "mapThrowing projectItem items = Inr plan"
    by (auto simp: parseResponse_def split: sum.splits json.splits)
  from mapThrowing_Inr [OF m]
  have len: "length plan = length items"
    and each: "\<And>i. i < length items \<Longrightarrow> projectItem (items ! i) = Inr (plan ! i)"
    by (simp_all add: list_all2_conv_all_nth)
  have "\<not> raw_isGenerating s \<and> raw_generatedImageUrl s = None" if "s \<in> set plan" for s
  proof -
    from that obtain i where "i < length plan" "plan ! i = s" by (auto simp: in_set_conv_nth)
    with len each [of i] have "projectItem (items ! i) = Inr s" by simp
    then show ?thesis using projectItem_Inr by blast
  qed
  then show "list_all (\<lambda>s. \<not> raw_isGenerating s \<and> raw_generatedImageUrl s = None) plan"
    by (simp add: list_all_iff)
qed

text \<open>
  The texts \<open>oops\<close>, \<open>{}\<close>, \<open>[null]\<close> and \<open>[{}]\<close> under the stub parser.
\<close>

theorem parseResponse_shape_witness:
  "parseResponse stubParse (Some (js ''oops'')) = Inl (SyntaxError (js ''oops''))
   \<and> parseResponse stubParse (Some (js ''{}'')) = Inl OutputNotArray
   \<and> parseResponse stubParse (Some (js ''[null]'')) = Inl NullItem
   \<and> parseResponse stubParse (Some (js ''[{}]''))
       = Inr [\<lparr> raw_id = None, raw_title = None, raw_content = None,
                raw_visualDescription = None, raw_userPromptOverride = None,
                raw_referenceImage = None, raw_generatedImageUrl = None,
                raw_isGenerating = False \<rparr>]
   \<and> list_all (\<lambda>s. \<not> raw_isGenerating s \<and> raw_generatedImageUrl s = None)
        [\<lparr> raw_id = None :: nat json option, raw_title = None, raw_content = None,
                raw_visualDescription = None, raw_userPromptOverride = None,
                raw_referenceImage = None, raw_generatedImageUrl = None,
                raw_isGenerating = False \<rparr>]"
proof -
  have c1: "cleanText (Some (js ''oops'')) = js ''oops''"
    by (simp add: cleanText_def orElse_def js_simps trim_def isWhiteSpace_def)
  have c2: "cleanText (Some (js ''{}'')) = js ''{}''"
    by (simp add: cleanText_def orElse_def js_simps trim_def isWhiteSpace_def)
  have c3: "cleanText (Some (js ''[null]'')) = js ''[null]''"
    by (simp add: cleanText_def orElse_def js_simps trim_def isWhiteSpace_def)
  have c4: "cleanText (Some (js ''[{}]'')) = js ''[{}]''"
    by (simp add: cleanText_def orElse_def js_simps trim_def isWhiteSpace_def)
  have p1: "stubParse (js ''oops'') = Inl (SyntaxError (js ''oops''))"
    by (simp add: stubParse_def js_simps)
  have p2: "stubParse (js ''{}'') = Inr (JObj [])"
    by (simp add: stubParse_def js_simps)
  have p3: "stubParse (js ''[null]'') = Inr (JArr [JNull])"
    by (simp add: stubParse_def js_simps)
  have p4: "stubParse (js ''[{}]'') = Inr (JArr [JObj []])"
    by (simp add: stubParse_def js_simps)
  have r1: "parseResponse stubParse (Some (js ''oops'')) = Inl (SyntaxError (js ''oops''))"
    using parseResponse_shape [where JSON_parse = stubParse and rawText = "Some (js ''oops'')"
        and e = "SyntaxError (js ''oops'')"]
    by (simp add: c1 p1)
  have r2: "parseResponse stubParse (Some (js ''{}'')) = Inl OutputNotArray"
    using parseResponse_shape [where JSON_parse = stubParse and rawText = "Some (js ''{}'')"
        and parsed = "JObj []"]
    by (simp add: c2 p2)
  have r3: "parseResponse stubParse (Some (js ''[null]'')) = Inl NullItem"
    using parseResponse_shape [where JSON_parse = stubParse and rawText = "Some (js ''[null]'')"
        and items = "[JNull]"]
    by (simp add: c3 p3)
  have r4: "parseResponse stubParse (Some (js ''[{}]''))
       = Inr [\<lparr> raw_id = None, raw_title = None, raw_content = None,
                raw_visualDescription = None, raw_userPromptOverride = None,
                raw_referenceImage = None, raw_generatedImageUrl = None,
                raw_isGenerating = False \<rparr>]"
    using parseResponse_shape [where JSON_parse = stubParse and rawText = "Some (js ''[{}]'')"
        and items = "[JObj []]"]
    by (simp add: c4 p4)
  have r5: "list_all (\<lambda>s. \<not> raw_isGenerating s \<and> raw_generatedImageUrl s = None)
        [\<lparr> raw_id = None :: nat json option, raw_title = None, raw_content = None,
                raw_visualDescription = None, raw_userPromptOverride = None,
                raw_referenceImage = None, raw_generatedImageUrl = None,
                raw_isGenerating = False \<rparr>]"
    using parseResponse_shape [where JSON_parse = stubParse and rawText = "Some (js ''[{}]'')"
        and plan = "[\<lparr> raw_id = None, raw_title = None, raw_content = None,
                raw_visualDescription = None, raw_userPromptOverride = None,
                raw_referenceImage = None, raw_generatedImageUrl = None,
                raw_isGenerating = False \<rparr>]"] r4
    by simp
  from r1 r2 r3 r4 r5 show ?thesis by simp
qed

lemma stripAll_fence_json: "stripAll (js ''```json'') (js ''```json [{}] ```'') = js '' [{}] ```''"
  by (simp add: js_simps)

lemma stripAll_fence: "stripAll (js ''```'') (js '' [{}] ```'') = js '' [{}] ''"
  by (simp add: js_simps)

lemma trim_fenced: "trim (js '' [{}] '') = js ''[{}]''"
  by (simp add: js_simps trim_def isWhiteSpace_def)

lemma cleanText_fenced: "cleanText (Some (js ''```json [{}] ```'')) = js ''[{}]''"
proof -
  have "orElse (Some (js ''```json [{}] ```'')) (js ''[]'') = js ''```json [{}] ```''"
    by (simp add: orElse_def js_simps)
  then show ?thesis by (simp only: cleanText_def stripAll_fence_json stripAll_fence trim_fenced)
qed

text \<open>
  C6 as stated fails: the fenced response \<open>[{}]\<close> holds a record without title, content
  and visual description, and \<open>parseResponse\<close> returns a slide whose fields are
  \<open>undefined\<close> instead of throwing.
\<close>

theorem parseResponse_counterexample:
  "parseResponse stubParse (Some (js ''```json [{}] ```''))
   = Inr [\<lparr> raw_id = None, raw_title = None, raw_content = None, raw_visualDescription = None,
            raw_userPromptOverride = None, raw_referenceImage = None,
            raw_generatedImageUrl = None, raw_isGenerating = False \<rparr>]"
proof -
  have "stubParse (js ''[{}]'') = Inr (JArr [JObj []])"
    by (simp add: stubParse_def js_simps)
  then show ?thesis
    by (simp add: parseResponse_def cleanText_fenced projectItem_def)
qed

section \<open>Properties of the two planning tiers\<close>

lemma planAttempt_primary:
  "tierOutcome JSON_parse remote primaryModel prompt (length (env w)) = Inr plan \<Longrightarrow>
   planAttempt JSON_parse remote prompt w
   = (Inr plan, w\<lparr> env := env w @ [planRequest primaryModel prompt] \<rparr>)"
  by (auto simp: planAttempt_def generateContent_def tierOutcome_def split: sum.splits)

lemma planAttempt_fallback:
  "isl (tierOutcome JSON_parse remote primaryModel prompt (length (env w))) \<Longrightarrow>
   planAttempt JSON_parse remote prompt w
   = (tierOutcome JSON_parse remote fallbackModel prompt (Suc (length (env w))),
      w\<lparr> env := env w @ bothTiers prompt \<rparr>)"
  by (auto simp: planAttempt_def planFallback_def generateContent_def tierOutcome_def
      bothTiers_def split: sum.splits)

lemma retry_plan_skip:
  "(\<forall>j<n. isl (primaryAt JSON_parse remote prompt w j)
          \<and> isl (fallbackAt JSON_parse remote prompt w j)) \<Longrightarrow> int n \<le> r \<Longrightarrow>
   retryOperation warnError (planAttempt JSON_parse remote prompt) r d w
   = retryOperation warnError (planAttempt JSON_parse remote prompt) (r - int n) (d * 2 ^ n)
       (w\<lparr> sleeps := sleeps w @ backoff d n,
           env := env w @ concat (replicate n (bothTiers prompt)) \<rparr>)"
proof (induction n arbitrary: w r d)
  case 0
  then show ?case by (simp add: backoff_simps)
next
  case (Suc n)
  let ?op = "planAttempt JSON_parse remote prompt"
  let ?stripAll_fence_json = "w\<lparr> env := env w @ bothTiers prompt \<rparr>"
  from Suc.prems(1) have p0: "isl (primaryAt JSON_parse remote prompt w 0)"
    and f0: "isl (fallbackAt JSON_parse remote prompt w 0)" by auto
  from f0 obtain e where e: "tierOutcome JSON_parse remote fallbackModel prompt (Suc (length (env w))) = Inl e"
    by (cases "tierOutcome JSON_parse remote fallbackModel prompt (Suc (length (env w)))")
       (auto simp: fallbackAt_def)
  have op: "?op w = (Inl e, ?stripAll_fence_json)"
    using planAttempt_fallback [of JSON_parse remote prompt w] p0 e by (simp add: primaryAt_def)
  have r: "0 < r" using Suc.prems(2) by simp
  have len: "length (env (delay d ?stripAll_fence_json)) = length (env w) + 2"
    by (simp add: delay_def bothTiers_def)
  have fails: "\<forall>j<n. isl (primaryAt JSON_parse remote prompt (delay d ?stripAll_fence_json) j)
          \<and> isl (fallbackAt JSON_parse remote prompt (delay d ?stripAll_fence_json) j)"
  proof (intro allI impI)
    fix j assume "j < n"
    then have "Suc j < Suc n" by simp
    with Suc.prems(1) have "isl (primaryAt JSON_parse remote prompt w (Suc j))
          \<and> isl (fallbackAt JSON_parse remote prompt w (Suc j))" by blast
    then show "isl (primaryAt JSON_parse remote prompt (delay d ?stripAll_fence_json) j)
          \<and> isl (fallbackAt JSON_parse remote prompt (delay d ?stripAll_fence_json) j)"
      by (simp add: primaryAt_def fallbackAt_def len)
  qed
  have "retryOperation warnError ?op r d w = retryOperation warnError ?op (r - 1) (d * 2) (delay d ?stripAll_fence_json)"
    by (rule retry_Inl_more [where operation = ?op, OF op r])
  also have "\<dots> = retryOperation warnError ?op (r - 1 - int n) (d * 2 * 2 ^ n)
       ((delay d ?stripAll_fence_json)\<lparr> sleeps := sleeps (delay d ?stripAll_fence_json) @ backoff (d * 2) n,
           env := env (delay d ?stripAll_fence_json) @ concat (replicate n (bothTiers prompt)) \<rparr>)"
    using Suc.prems(2) by (intro Suc.IH [OF fails]) simp
  finally show ?case
    by (simp add: delay_def backoff_simps algebra_simps)
qed

lemma length_bothTiers [simp]: "length (concat (replicate n (bothTiers prompt))) = 2 * n"
  by (induction n) (simp_all add: bothTiers_def)

lemma concat_replicate_snoc: "concat (replicate (Suc n) xs) = concat (replicate n xs) @ xs"
  by (induction n) simp_all

lemma retry_plan_primary:
  assumes fails: "\<forall>j<n. isl (primaryAt JSON_parse remote prompt w j)
          \<and> isl (fallbackAt JSON_parse remote prompt w j)"
    and n: "int n \<le> r"
    and ok: "primaryAt JSON_parse remote prompt w n = Inr plan"
  shows "retryOperation warnError (planAttempt JSON_parse remote prompt) r d w
   = (Inr plan, w\<lparr> sleeps := sleeps w @ backoff d n,
        env := env w @ concat (replicate n (bothTiers prompt))
                 @ [planRequest primaryModel prompt] \<rparr>)"
proof -
  let ?w' = "w\<lparr> sleeps := sleeps w @ backoff d n,
           env := env w @ concat (replicate n (bothTiers prompt)) \<rparr>"
  have len: "length (env ?w') = length (env w) + 2 * n"
    by simp
  have "planAttempt JSON_parse remote prompt ?w'
        = (Inr plan, ?w'\<lparr> env := env ?w' @ [planRequest primaryModel prompt] \<rparr>)"
    using ok by (intro planAttempt_primary) (simp add: primaryAt_def len)
  then have "retryOperation warnError (planAttempt JSON_parse remote prompt) (r - int n) (d * 2 ^ n) ?w'
        = (Inr plan, ?w'\<lparr> env := env ?w' @ [planRequest primaryModel prompt] \<rparr>)"
    by (rule retry_Inr)
  with retry_plan_skip [OF fails n, of d] show ?thesis by simp
qed

lemma retry_plan_fallback:
  assumes fails: "\<forall>j<n. isl (primaryAt JSON_parse remote prompt w j)
          \<and> isl (fallbackAt JSON_parse remote prompt w j)"
    and n: "int n \<le> r"
    and p: "isl (primaryAt JSON_parse remote prompt w n)"
    and ok: "fallbackAt JSON_parse remote prompt w n = Inr plan"
  shows "retryOperation warnError (planAttempt JSON_parse remote prompt) r d w
   = (Inr plan, w\<lparr> sleeps := sleeps w @ backoff d n,
        env := env w @ concat (replicate (Suc n) (bothTiers prompt)) \<rparr>)"
proof -
  let ?w' = "w\<lparr> sleeps := sleeps w @ backoff d n,
           env := env w @ concat (replicate n (bothTiers prompt)) \<rparr>"
  have len: "length (env ?w') = length (env w) + 2 * n"
    by simp
  have "planAttempt JSON_parse remote prompt ?w'
        = (Inr plan, ?w'\<lparr> env := env ?w' @ bothTiers prompt \<rparr>)"
    using planAttempt_fallback [of JSON_parse remote prompt ?w'] p ok
    by (simp add: primaryAt_def fallbackAt_def len)
  then have "retryOperation warnError (planAttempt JSON_parse remote prompt) (r - int n) (d * 2 ^ n) ?w'
        = (Inr plan, ?w'\<lparr> env := env ?w' @ bothTiers prompt \<rparr>)"
    by (rule retry_Inr)
  with retry_plan_skip [OF fails n, of d] show ?thesis
    by (simp add: concat_replicate_snoc del: replicate_Suc)
qed

lemma retry_plan_exhausted:
  assumes fails: "\<forall>j<Suc n. isl (primaryAt JSON_parse remote prompt w j)
          \<and> isl (fallbackAt JSON_parse remote prompt w j)"
  shows "retryOperation warnError (planAttempt JSON_parse remote prompt) (int n) d w
   = (fallbackAt JSON_parse remote prompt w n, w\<lparr> sleeps := sleeps w @ backoff d n,
        env := env w @ concat (replicate (Suc n) (bothTiers prompt)) \<rparr>)"
proof -
  let ?w' = "w\<lparr> sleeps := sleeps w @ backoff d n,
           env := env w @ concat (replicate n (bothTiers prompt)) \<rparr>"
  have len: "length (env ?w') = length (env w) + 2 * n"
    by simp
  from fails have before: "\<forall>j<n. isl (primaryAt JSON_parse remote prompt w j)
          \<and> isl (fallbackAt JSON_parse remote prompt w j)" by simp
  from fails have p: "isl (primaryAt JSON_parse remote prompt w n)"
    and f: "isl (fallbackAt JSON_parse remote prompt w n)" by simp_all
  from f obtain e where e: "fallbackAt JSON_parse remote prompt w n = Inl e"
    by (cases "fallbackAt JSON_parse remote prompt w n") auto
  have "planAttempt JSON_parse remote prompt ?w'
        = (Inl e, ?w'\<lparr> env := env ?w' @ bothTiers prompt \<rparr>)"
    using planAttempt_fallback [of JSON_parse remote prompt ?w'] p e
    by (simp add: primaryAt_def fallbackAt_def len)
  then have "retryOperation warnError (planAttempt JSON_parse remote prompt) (int n - int n) (d * 2 ^ n) ?w'
        = (Inl e, ?w'\<lparr> env := env ?w' @ bothTiers prompt \<rparr>)"
    by (intro retry_Inl_last [where operation = "planAttempt JSON_parse remote prompt"]) simp_all
  with retry_plan_skip [OF before, of "int n" d] e show ?thesis
    by (simp add: concat_replicate_snoc del: replicate_Suc)
qed

lemma retry_plan_fails_all:
  assumes fail: "isl (fst (retryOperation warnError (planAttempt JSON_parse remote prompt) (int m) d w))"
  shows "\<forall>j<Suc m. isl (primaryAt JSON_parse remote prompt w j)
          \<and> isl (fallbackAt JSON_parse remote prompt w j)"
proof (rule ccontr)
  let ?bad = "\<lambda>j. j < Suc m \<and> \<not> (isl (primaryAt JSON_parse remote prompt w j)
          \<and> isl (fallbackAt JSON_parse remote prompt w j))"
  assume "\<not> (\<forall>j<Suc m. isl (primaryAt JSON_parse remote prompt w j)
          \<and> isl (fallbackAt JSON_parse remote prompt w j))"
  then have "\<exists>j. ?bad j" by blast
  then obtain n where n: "?bad n" and least: "\<forall>j<n. \<not> ?bad j"
    using exists_least_iff [of ?bad] by blast
  from n least have before: "\<forall>j<n. isl (primaryAt JSON_parse remote prompt w j)
          \<and> isl (fallbackAt JSON_parse remote prompt w j)" by auto
  from n have le: "int n \<le> int m" by simp
  show False
  proof (cases "primaryAt JSON_parse remote prompt w n")
    case (Inr plan)
    from retry_plan_primary [OF before le Inr, of d] fail show False by simp
  next
    case (Inl e)
    then have p: "isl (primaryAt JSON_parse remote prompt w n)" by simp
    with n obtain plan where "fallbackAt JSON_parse remote prompt w n = Inr plan"
      by (cases "fallbackAt JSON_parse remote prompt w n") auto
    from retry_plan_fallback [OF before le p this, of d] fail show False by simp
  qed
qed

text \<open>
  C5, as the code has it. Both tiers are tried inside one retried operation, in fixed
  order, with the same prompt and the same parsing: an attempt calls the primary model
  and, when that call or the parsing of its response fails, the fallback model. With
  the default budget there are at most four attempts, 3000, 6000 and 12000 milliseconds
  apart. The first success of a tier is the result: of the primary tier in attempt \<open>n\<close>
  after \<open>n\<close> attempts in which both tiers failed, or of the fallback tier in attempt \<open>n\<close>
  when the primary tier failed there too. When both tiers fail in all four attempts,
  the call rejects with the error of the last fallback call; and the call rejects only
  then.
\<close>

theorem generateSlidePlan_tiers:
  "((\<forall>j<n. isl (primaryAt JSON_parse remote (slidePlanPrompt tpl inputTxt slideCount style designSystem) w j)
          \<and> isl (fallbackAt JSON_parse remote (slidePlanPrompt tpl inputTxt slideCount style designSystem) w j))
     \<and> n \<le> 3
     \<and> primaryAt JSON_parse remote (slidePlanPrompt tpl inputTxt slideCount style designSystem) w n = Inr plan
    \<longrightarrow> generateSlidePlan tpl JSON_parse remote inputTxt slideCount style designSystem w
        = (Inr plan,
           w\<lparr> sleeps := sleeps w @ backoff 3000 n,
              env := env w
                @ concat (replicate n (bothTiers (slidePlanPrompt tpl inputTxt slideCount style designSystem)))
                @ [planRequest primaryModel (slidePlanPrompt tpl inputTxt slideCount style designSystem)] \<rparr>))
   \<and> ((\<forall>j<n. isl (primaryAt JSON_parse remote (slidePlanPrompt tpl inputTxt slideCount style designSystem) w j)
          \<and> isl (fallbackAt JSON_parse remote (slidePlanPrompt tpl inputTxt slideCount style designSystem) w j))
     \<and> n \<le> 3
     \<and> isl (primaryAt JSON_parse remote (slidePlanPrompt tpl inputTxt slideCount style designSystem) w n)
     \<and> fallbackAt JSON_parse remote (slidePlanPrompt tpl inputTxt slideCount style designSystem) w n = Inr plan
    \<longrightarrow> generateSlidePlan tpl JSON_parse remote inputTxt slideCount style designSystem w
        = (Inr plan,
           w\<lparr> sleeps := sleeps w @ backoff 3000 n,
              env := env w
                @ concat (replicate (Suc n) (bothTiers (slidePlanPrompt tpl inputTxt slideCount style designSystem))) \<rparr>))
   \<and> ((\<forall>j<4. isl (primaryAt JSON_parse remote (slidePlanPrompt tpl inputTxt slideCount style designSystem) w j)
          \<and> isl (fallbackAt JSON_parse remote (slidePlanPrompt tpl inputTxt slideCount style designSystem) w j))
    \<longrightarrow> generateSlidePlan tpl JSON_parse remote inputTxt slideCount style designSystem w
        = (fallbackAt JSON_parse remote (slidePlanPrompt tpl inputTxt slideCount style designSystem) w 3,
           w\<lparr> sleeps := sleeps w @ [3000, 6000, 12000],
              env := env w
                @ concat (replicate 4 (bothTiers (slidePlanPrompt tpl inputTxt slideCount style designSystem))) \<rparr>))
   \<and> (isl (fst (generateSlidePlan tpl JSON_parse remote inputTxt slideCount style designSystem w))
    \<longrightarrow> (\<forall>j<4. isl (primaryAt JSON_parse remote (slidePlanPrompt tpl inputTxt slideCount style designSystem) w j)
          \<and> isl (fallbackAt JSON_parse remote (slidePlanPrompt tpl inputTxt slideCount style designSystem) w j)))"
proof (intro conjI impI)
  let ?prompt = "slidePlanPrompt tpl inputTxt slideCount style designSystem"
  assume a: "(\<forall>j<n. isl (primaryAt JSON_parse remote ?prompt w j)
          \<and> isl (fallbackAt JSON_parse remote ?prompt w j))
     \<and> n \<le> 3 \<and> primaryAt JSON_parse remote ?prompt w n = Inr plan"
  then have n: "int n \<le> 3" by simp
  from a have fails: "\<forall>j<n. isl (primaryAt JSON_parse remote ?prompt w j)
          \<and> isl (fallbackAt JSON_parse remote ?prompt w j)"
    and ok: "primaryAt JSON_parse remote ?prompt w n = Inr plan" by simp_all
  from retry_plan_primary [OF fails n ok, of 3000]
  show "generateSlidePlan tpl JSON_parse remote inputTxt slideCount style designSystem w
        = (Inr plan,
           w\<lparr> sleeps := sleeps w @ backoff 3000 n,
              env := env w @ concat (replicate n (bothTiers ?prompt))
                @ [planRequest primaryModel ?prompt] \<rparr>)"
    by (simp add: generateSlidePlan_def retryOperation_default_def)
next
  let ?prompt = "slidePlanPrompt tpl inputTxt slideCount style designSystem"
  assume a: "(\<forall>j<n. isl (primaryAt JSON_parse remote ?prompt w j)
          \<and> isl (fallbackAt JSON_parse remote ?prompt w j))
     \<and> n \<le> 3 \<and> isl (primaryAt JSON_parse remote ?prompt w n)
     \<and> fallbackAt JSON_parse remote ?prompt w n = Inr plan"
  then have n: "int n \<le> 3" by simp
  from a have fails: "\<forall>j<n. isl (primaryAt JSON_parse remote ?prompt w j)
          \<and> isl (fallbackAt JSON_parse remote ?prompt w j)"
    and p: "isl (primaryAt JSON_parse remote ?prompt w n)"
    and ok: "fallbackAt JSON_parse remote ?prompt w n = Inr plan" by simp_all
  from retry_plan_fallback [OF fails n p ok, of 3000]
  show "generateSlidePlan tpl JSON_parse remote inputTxt slideCount style designSystem w
        = (Inr plan,
           w\<lparr> sleeps := sleeps w @ backoff 3000 n,
              env := env w @ concat (replicate (Suc n) (bothTiers ?prompt)) \<rparr>)"
    by (simp add: generateSlidePlan_def retryOperation_default_def)
next
  let ?prompt = "slidePlanPrompt tpl inputTxt slideCount style designSystem"
  assume a: "\<forall>j<4. isl (primaryAt JSON_parse remote ?prompt w j)
          \<and> isl (fallbackAt JSON_parse remote ?prompt w j)"
  then have "\<forall>j<Suc 3. isl (primaryAt JSON_parse remote ?prompt w j)
          \<and> isl (fallbackAt JSON_parse remote ?prompt w j)" by simp
  from retry_plan_exhausted [OF this, of 3000]
  show "generateSlidePlan tpl JSON_parse remote inputTxt slideCount style designSystem w
        = (fallbackAt JSON_parse remote ?prompt w 3,
           w\<lparr> sleeps := sleeps w @ [3000, 6000, 12000],
              env := env w @ concat (replicate 4 (bothTiers ?prompt)) \<rparr>)"
    by (simp add: generateSlidePlan_def retryOperation_default_def backoff_def upt_conv_Cons
        numeral_eq_Suc)
next
  let ?prompt = "slidePlanPrompt tpl inputTxt slideCount style designSystem"
  assume "isl (fst (generateSlidePlan tpl JSON_parse remote inputTxt slideCount style designSystem w))"
  then have "isl (fst (retryOperation warnError (planAttempt JSON_parse remote ?prompt) (int 3) 3000 w))"
    by (simp add: generateSlidePlan_def retryOperation_default_def)
  from retry_plan_fails_all [OF this]
  show "\<forall>j<4. isl (primaryAt JSON_parse remote ?prompt w j)
          \<and> isl (fallbackAt JSON_parse remote ?prompt w j)"
    by (simp add: numeral_eq_Suc)
qed

lemma cleanText_empty_list: "cleanText (Some (js ''[]'')) = js ''[]''"
  by (simp add: cleanText_def orElse_def js_simps trim_def isWhiteSpace_def)

lemma parse_empty_list: "parseResponse stubParse (Some (js ''[]'')) = Inr []"
  by (simp add: parseResponse_def cleanText_empty_list stubParse_def)

lemma models_differ: "fallbackModel \<noteq> primaryModel"
  by (simp add: fallbackModel_def primaryModel_def js_simps)

lemma tierOutcome_downUntil:
  "tierOutcome stubParse (downUntil m) mdl prompt k
   = (if k < m then Inl (RemoteError (js ''down'')) else Inr [])"
  by (simp add: tierOutcome_def downUntil_def parse_empty_list)

text \<open>
  Remote models that reject the first 2, the first 3 and the first 8 calls.
\<close>

theorem generateSlidePlan_tiers_witness:
  "generateSlidePlan stubTemplates stubParse (downUntil 2) (js ''A'') 3 CONCISE (js ''D'') freshWorld
   = (Inr [],
      \<lparr> sleeps = [3000],
        env = bothTiers (slidePlanPrompt stubTemplates (js ''A'') 3 CONCISE (js ''D''))
              @ [planRequest primaryModel (slidePlanPrompt stubTemplates (js ''A'') 3 CONCISE (js ''D''))] \<rparr>)
   \<and> generateSlidePlan stubTemplates stubParse (downUntil 3) (js ''A'') 3 CONCISE (js ''D'') freshWorld
   = (Inr [],
      \<lparr> sleeps = [3000],
        env = bothTiers (slidePlanPrompt stubTemplates (js ''A'') 3 CONCISE (js ''D''))
              @ bothTiers (slidePlanPrompt stubTemplates (js ''A'') 3 CONCISE (js ''D'')) \<rparr>)
   \<and> generateSlidePlan stubTemplates stubParse (downUntil 8) (js ''A'') 3 CONCISE (js ''D'') freshWorld
   = (Inl (RemoteError (js ''down'')),
      \<lparr> sleeps = [3000, 6000, 12000],
        env = bothTiers (slidePlanPrompt stubTemplates (js ''A'') 3 CONCISE (js ''D''))
              @ bothTiers (slidePlanPrompt stubTemplates (js ''A'') 3 CONCISE (js ''D''))
              @ bothTiers (slidePlanPrompt stubTemplates (js ''A'') 3 CONCISE (js ''D''))
              @ bothTiers (slidePlanPrompt stubTemplates (js ''A'') 3 CONCISE (js ''D'')) \<rparr>)"
proof (intro conjI)
  let ?prompt = "slidePlanPrompt stubTemplates (js ''A'') 3 CONCISE (js ''D'')"
  show "generateSlidePlan stubTemplates stubParse (downUntil 2) (js ''A'') 3 CONCISE (js ''D'') freshWorld
   = (Inr [], \<lparr> sleeps = [3000], env = bothTiers ?prompt @ [planRequest primaryModel ?prompt] \<rparr>)"
    using generateSlidePlan_tiers [where n = 1 and JSON_parse = stubParse and remote = "downUntil 2"
        and tpl = stubTemplates and inputTxt = "js ''A''" and slideCount = 3 and style = CONCISE
        and designSystem = "js ''D''" and w = freshWorld and plan = "[]"]
    by (simp add: primaryAt_def fallbackAt_def tierOutcome_downUntil freshWorld_def backoff_def)
  show "generateSlidePlan stubTemplates stubParse (downUntil 3) (js ''A'') 3 CONCISE (js ''D'') freshWorld
   = (Inr [], \<lparr> sleeps = [3000], env = bothTiers ?prompt @ bothTiers ?prompt \<rparr>)"
    using generateSlidePlan_tiers [where n = 1 and JSON_parse = stubParse and remote = "downUntil 3"
        and tpl = stubTemplates and inputTxt = "js ''A''" and slideCount = 3 and style = CONCISE
        and designSystem = "js ''D''" and w = freshWorld and plan = "[]"]
    by (simp add: primaryAt_def fallbackAt_def tierOutcome_downUntil freshWorld_def backoff_def)
  show "generateSlidePlan stubTemplates stubParse (downUntil 8) (js ''A'') 3 CONCISE (js ''D'') freshWorld
   = (Inl (RemoteError (js ''down'')),
      \<lparr> sleeps = [3000, 6000, 12000],
        env = bothTiers ?prompt @ bothTiers ?prompt @ bothTiers ?prompt @ bothTiers ?prompt \<rparr>)"
    using generateSlidePlan_tiers [where n = 0 and JSON_parse = stubParse and remote = "downUntil 8"
        and tpl = stubTemplates and inputTxt = "js ''A''" and slideCount = 3 and style = CONCISE
        and designSystem = "js ''D''" and w = freshWorld and plan = "[]"]
    by (simp add: primaryAt_def fallbackAt_def tierOutcome_downUntil freshWorld_def numeral_eq_Suc)
qed

text \<open>
  C5 as stated fails: with the primary model down and the fallback model answering, the
  fallback tier is called right after the first failure of the primary tier, with no
  delay and no further attempt of the primary tier.
\<close>

theorem generateSlidePlan_counterexample:
  "generateSlidePlan stubTemplates stubParse primaryDown (js ''A'') 3 CONCISE (js ''D'') freshWorld
   = (Inr [],
      \<lparr> sleeps = [],
        env = [planRequest primaryModel (slidePlanPrompt stubTemplates (js ''A'') 3 CONCISE (js ''D'')),
               planRequest fallbackModel (slidePlanPrompt stubTemplates (js ''A'') 3 CONCISE (js ''D''))] \<rparr>)"
proof -
  let ?prompt = "slidePlanPrompt stubTemplates (js ''A'') 3 CONCISE (js ''D'')"
  have p: "isl (tierOutcome stubParse primaryDown primaryModel ?prompt (length (env freshWorld)))"
    by (simp add: tierOutcome_def primaryDown_def planRequest_def)
  have f: "tierOutcome stubParse primaryDown fallbackModel ?prompt (Suc (length (env freshWorld))) = Inr []"
    by (simp add: tierOutcome_def primaryDown_def planRequest_def models_differ parse_empty_list)
  have "planAttempt stubParse primaryDown ?prompt freshWorld
        = (Inr [], freshWorld\<lparr> env := env freshWorld @ bothTiers ?prompt \<rparr>)"
    using planAttempt_fallback [OF p] f by simp
  then have "retryOperation warnError (planAttempt stubParse primaryDown ?prompt) 3 3000 freshWorld
        = (Inr [], freshWorld\<lparr> env := env freshWorld @ bothTiers ?prompt \<rparr>)"
    by (rule retry_Inr)
  then show ?thesis
    by (simp add: generateSlidePlan_def retryOperation_default_def freshWorld_def bothTiers_def)
qed

section \<open>Properties of the design-system step of outline generation\<close>

text \<open>
  C7, as the code has it. The custom style is trimmed first. When the trimmed text is
  not empty, the derivation step resolves to the trimmed text and leaves the world as
  it is: no remote call, no delay. When the trimmed text is empty (the custom style is
  empty or white space only), the step is \<open>generateDesignSystem\<close>, which sends the
  derivation request at least once. And when the outline is then planned successfully,
  \<open>handleGeneratePlan\<close> stores the trimmed custom style as the design system of the deck,
  the only remote calls being those of the planner.
\<close>

theorem determineDesignSystem_trimmed:
  "(trim (customStylePrompt st) \<noteq> [] \<longrightarrow>
      determineDesignSystem tpl remote st w = (Inr (trim (customStylePrompt st)), w))
   \<and> (trim (customStylePrompt st) = [] \<longrightarrow>
      determineDesignSystem tpl remote st w
        = generateDesignSystem tpl remote (customStylePrompt st) (selectedStyle st) w
      \<and> (\<exists>m. env (snd (determineDesignSystem tpl remote st w))
             = env w @ replicate (Suc m)
                 (designSystemRequest tpl (customStylePrompt st) (selectedStyle st))))
   \<and> (trim (inputText (state ui)) \<noteq> [] \<and> trim (customStylePrompt (state ui)) \<noteq> []
       \<and> generateSlidePlan tpl JSON_parse remote (inputText (state ui))
            (targetSlideCount (state ui)) (selectedStyle (state ui))
            (trim (customStylePrompt (state ui))) w = (Inr plan, stripAll_fence)
      \<longrightarrow> handleGeneratePlan tpl JSON_parse typed remote ui w
          = (ui\<lparr> state := (state ui)\<lparr> step := PLANNING, slides := typed plan,
                     designSystemPrompt := trim (customStylePrompt (state ui)),
                     isProcessing := False \<rparr>,
                  errorMsg := None \<rparr>, stripAll_fence))"
proof (intro conjI impI)
  assume "trim (customStylePrompt st) \<noteq> []"
  then show "determineDesignSystem tpl remote st w = (Inr (trim (customStylePrompt st)), w)"
    by (simp add: determineDesignSystem_def Let_def)
next
  assume e: "trim (customStylePrompt st) = []"
  then show d: "determineDesignSystem tpl remote st w
        = generateDesignSystem tpl remote (customStylePrompt st) (selectedStyle st) w"
    by (simp add: determineDesignSystem_def Let_def)
  show "\<exists>m. env (snd (determineDesignSystem tpl remote st w))
             = env w @ replicate (Suc m)
                 (designSystemRequest tpl (customStylePrompt st) (selectedStyle st))"
    unfolding d generateDesignSystem_ask retryOperation_default_def
    by (rule retry_ask_calls)
next
  assume a: "trim (inputText (state ui)) \<noteq> [] \<and> trim (customStylePrompt (state ui)) \<noteq> []
       \<and> generateSlidePlan tpl JSON_parse remote (inputText (state ui))
            (targetSlideCount (state ui)) (selectedStyle (state ui))
            (trim (customStylePrompt (state ui))) w = (Inr plan, stripAll_fence)"
  then have d: "determineDesignSystem tpl remote (state ui) w
                = (Inr (trim (customStylePrompt (state ui))), w)"
    by (simp add: determineDesignSystem_def Let_def)
  show "handleGeneratePlan tpl JSON_parse typed remote ui w
          = (ui\<lparr> state := (state ui)\<lparr> step := PLANNING, slides := typed plan,
                     designSystemPrompt := trim (customStylePrompt (state ui)),
                     isProcessing := False \<rparr>,
                  errorMsg := None \<rparr>, stripAll_fence)"
    using a by (simp add: handleGeneratePlan_def Let_def d)
qed

lemma plan_answering_empty:
  "generateSlidePlan tpl stubParse (downUntil 0) i c s d freshWorld
   = (Inr [], \<lparr> sleeps = [], env = [planRequest primaryModel (slidePlanPrompt tpl i c s d)] \<rparr>)"
proof -
  have "primaryAt stubParse (downUntil 0) (slidePlanPrompt tpl i c s d) freshWorld 0 = Inr []"
    by (simp add: primaryAt_def tierOutcome_downUntil)
  from retry_plan_primary [where n = 0 and r = 3 and d = 3000, OF _ _ this]
  show ?thesis
    by (simp add: generateSlidePlan_def retryOperation_default_def freshWorld_def backoff_simps)
qed

text \<open>
  The custom style \<open>" dark "\<close> is used as \<open>"dark"\<close> with no derivation call; the custom style
  \<open>" "\<close> leads to derivation calls.
\<close>

theorem determineDesignSystem_trimmed_witness:
  "determineDesignSystem stubTemplates (downUntil 0) (state (styledUI (js '' dark ''))) freshWorld
     = (Inr (js ''dark''), freshWorld)
   \<and> (\<exists>m. env (snd (determineDesignSystem stubTemplates (downUntil 0) blankStyleState freshWorld))
          = replicate (Suc m) (designSystemRequest stubTemplates (js '' '') CONCISE))
   \<and> handleGeneratePlan stubTemplates stubParse typedAsIdle (downUntil 0)
        (styledUI (js '' dark '')) freshWorld
     = (\<lparr> state = blankStyleState\<lparr> step := PLANNING, customStylePrompt := js '' dark '',
                designSystemPrompt := js ''dark'' \<rparr>,
          errorMsg = None, alerts = [] \<rparr>,
        \<lparr> sleeps = [],
          env = [planRequest primaryModel
                   (slidePlanPrompt stubTemplates (js ''A'') 3 CONCISE (js ''dark''))] \<rparr>)"
proof -
  have t1: "trim (js '' dark '') = js ''dark''"
    by (simp add: js_simps trim_def isWhiteSpace_def)
  have t2: "trim (js '' '') = []"
    by (simp add: js_simps trim_def isWhiteSpace_def)
  have t3: "trim (js ''A'') = js ''A''"
    by (simp add: js_simps trim_def isWhiteSpace_def)
  have ne: "js ''dark'' \<noteq> []" "js ''A'' \<noteq> []"
    by (simp_all add: js_simps)
  have a: "determineDesignSystem stubTemplates (downUntil 0) (state (styledUI (js '' dark ''))) freshWorld
     = (Inr (js ''dark''), freshWorld)"
    using determineDesignSystem_trimmed [where st = "state (styledUI (js '' dark ''))"
        and tpl = stubTemplates and remote = "downUntil 0" and w = freshWorld
        and ui = stubUI and JSON_parse = stubParse and typed = typedAsIdle and plan = "[]"
        and ?stripAll_fence.0 = freshWorld]
    by (simp add: styledUI_def blankStyleState_def t1 ne)
  have b: "\<exists>m. env (snd (determineDesignSystem stubTemplates (downUntil 0) blankStyleState freshWorld))
          = replicate (Suc m) (designSystemRequest stubTemplates (js '' '') CONCISE)"
  proof -
    have e: "trim (customStylePrompt blankStyleState) = []"
      by (simp add: blankStyleState_def t2)
    from determineDesignSystem_trimmed [where st = blankStyleState
        and tpl = stubTemplates and remote = "downUntil 0" and w = freshWorld
        and ui = stubUI and JSON_parse = stubParse and typed = typedAsIdle and plan = "[]"
        and ?stripAll_fence.0 = freshWorld, THEN conjunct2, THEN conjunct1, THEN mp, OF e, THEN conjunct2]
    have "\<exists>m. env (snd (determineDesignSystem stubTemplates (downUntil 0) blankStyleState freshWorld))
          = env freshWorld @ replicate (Suc m)
              (designSystemRequest stubTemplates (customStylePrompt blankStyleState)
                 (selectedStyle blankStyleState))"
      .
    moreover have "customStylePrompt blankStyleState = js '' ''"
      "selectedStyle blankStyleState = CONCISE" "env freshWorld = []"
      by (simp_all add: blankStyleState_def freshWorld_def)
    ultimately show ?thesis by simp
  qed
  have c: "handleGeneratePlan stubTemplates stubParse typedAsIdle (downUntil 0)
        (styledUI (js '' dark '')) freshWorld
     = (\<lparr> state = blankStyleState\<lparr> step := PLANNING, customStylePrompt := js '' dark '',
                designSystemPrompt := js ''dark'' \<rparr>,
          errorMsg = None, alerts = [] \<rparr>,
        \<lparr> sleeps = [],
          env = [planRequest primaryModel
                   (slidePlanPrompt stubTemplates (js ''A'') 3 CONCISE (js ''dark''))] \<rparr>)"
    using determineDesignSystem_trimmed [where ui = "styledUI (js '' dark '')"
        and st = blankStyleState and tpl = stubTemplates and remote = "downUntil 0" and w = freshWorld
        and JSON_parse = stubParse and typed = typedAsIdle and plan = "[]"
        and ?stripAll_fence.0 = "\<lparr> sleeps = [], env = [planRequest primaryModel
                   (slidePlanPrompt stubTemplates (js ''A'') 3 CONCISE (js ''dark''))] \<rparr>"]
      plan_answering_empty [of stubTemplates "js ''A''" 3 CONCISE "js ''dark''"]
    by (simp add: styledUI_def blankStyleState_def t1 t3 ne typedAsIdle_def)
  from a b c show ?thesis by simp
qed

text \<open>
  C7 as stated fails: the custom style of one space is a non-empty text, yet the
  derivation step calls the remote model and the design system is the model's answer.
\<close>

theorem determineDesignSystem_counterexample:
  "customStylePrompt blankStyleState \<noteq> []
   \<and> determineDesignSystem stubTemplates (answering (Some (js ''X''))) blankStyleState freshWorld
     = (Inr (js ''X''),
        \<lparr> sleeps = [],
          env = [designSystemRequest stubTemplates (js '' '') CONCISE] \<rparr>)"
  by (simp add: determineDesignSystem_def generateDesignSystem_def retryOperation_default_def
      retry_Inr generateContent_def answering_def blankStyleState_def freshWorld_def
      trim_def isWhiteSpace_def js_simps orElse_def)

section \<open>Properties of image synthesis\<close>

lemma retry_ask_rejected:
  "fst (retryOperation warnError (ask remote req g) (int m) d w) = Inl e \<Longrightarrow>
   snd (retryOperation warnError (ask remote req g) (int m) d w)
   = w\<lparr> sleeps := sleeps w @ backoff d m, env := env w @ replicate (Suc m) req \<rparr>"
proof (induction m arbitrary: w d)
  case 0
  let ?w' = "w\<lparr> env := env w @ [req] \<rparr>"
  obtain res where op: "ask remote req g w = (res, ?w')"
    using ask_world [of remote req g w] by (cases "ask remote req g w") simp
  show ?case
  proof (cases res)
    case (Inr v)
    with op "0.prems" show ?thesis by (simp add: retry_Inr)
  next
    case (Inl e')
    with op have "retryOperation warnError (ask remote req g) (int 0) d w = (Inl e', ?w')"
      by (intro retry_Inl_last [where operation = "ask remote req g"]) simp_all
    then show ?thesis by (simp add: backoff_simps)
  qed
next
  case (Suc m)
  let ?w' = "w\<lparr> env := env w @ [req] \<rparr>"
  obtain res where op: "ask remote req g w = (res, ?w')"
    using ask_world [of remote req g w] by (cases "ask remote req g w") simp
  show ?case
  proof (cases res)
    case (Inr v)
    with op Suc.prems show ?thesis by (simp add: retry_Inr)
  next
    case (Inl e')
    with op have step: "retryOperation warnError (ask remote req g) (int (Suc m)) d w
        = retryOperation warnError (ask remote req g) (int m) (d * 2) (delay d ?w')"
      using retry_Inl_more [where operation = "ask remote req g" and w = w and e = e'
          and w' = ?w' and r = "int (Suc m)" and d = d] by simp
    with Suc.prems have "fst (retryOperation warnError (ask remote req g) (int m) (d * 2) (delay d ?w')) = Inl e"
      by simp
    from Suc.IH [OF this] step show ?thesis
      by (simp add: delay_def backoff_simps)
  qed
qed

lemma generateSlideImage_ask:
  "\<exists>req g. generateSlideImage tpl remote slide designSystem = retryOperation_default warnError (ask remote req g)
     \<and> (\<forall>response u. g response = Inr u \<longrightarrow> u \<noteq> [])"
proof -
  let ?req = "\<lparr> model = js ''gemini-3-pro-image-preview'',
                contents = slideImageTemplate tpl designSystem (visualDescription slide)
                  (orElse (userPromptOverride slide) (js ''None'')) (title slide) (content slide),
                responseMimeType = None, imageConfig = Some (js ''16:9'', js ''2K'') \<rparr>"
  let ?g = "\<lambda>response::response.
              case List.find (\<lambda>part. part \<noteq> None) (parts response) of
                Some (Some inlineData) \<Rightarrow> Inr (js ''data:image/png;base64,'' @ inlineData)
              | _ \<Rightarrow> (Inl NoImageData :: error + jsstring)"
  have "(\<lambda>w. case generateContent remote ?req w of
               (Inl e, w') \<Rightarrow> (Inl e, w')
             | (Inr response, w') \<Rightarrow>
                 (case List.find (\<lambda>part. part \<noteq> None) (parts response) of
                    Some (Some inlineData) \<Rightarrow> (Inr (js ''data:image/png;base64,'' @ inlineData), w')
                  | _ \<Rightarrow> (Inl NoImageData, w')))
        = ask remote ?req ?g"
    by (rule ext) (simp add: ask_def split: sum.splits option.splits prod.splits)
  then have "generateSlideImage tpl remote slide designSystem
             = retryOperation_default warnError (ask remote ?req ?g)"
    by (simp add: generateSlideImage_def Let_def)
  moreover have "\<forall>response u. ?g response = Inr u \<longrightarrow> u \<noteq> []"
    by (auto simp: js_simps split: option.splits)
  ultimately show ?thesis by blast
qed

text \<open>
  An image \<open>generateSlideImage\<close> resolves to is never the empty string, and it rejects
  only after four calls of the remote model, 3000, 6000 and 12000 milliseconds apart.
\<close>

lemma generateSlideImage_resolves_nonempty:
  assumes "fst (generateSlideImage tpl remote slide designSystem w) = Inr u"
  shows "u \<noteq> []"
proof -
  from generateSlideImage_ask [of tpl remote slide designSystem] obtain req g
    where eq: "generateSlideImage tpl remote slide designSystem
               = retryOperation_default warnError (ask remote req g)"
      and g: "\<And>response u. g response = Inr u \<Longrightarrow> u \<noteq> []" by blast
  from assms obtain stripAll_fence where "retryOperation warnError (ask remote req g) 3 3000 w = (Inr u, stripAll_fence)"
    by (cases "retryOperation warnError (ask remote req g) 3 3000 w")
       (simp add: eq retryOperation_default_def)
  from retry_Inr_from_operation [OF this] obtain w0 stripAll_fence_json
    where "ask remote req g w0 = (Inr u, stripAll_fence_json)" by blast
  from ask_Inr_result [OF this] obtain response where "g response = Inr u" ..
  then show ?thesis by (rule g)
qed

lemma generateSlideImage_rejects_after_four_calls:
  assumes "fst (generateSlideImage tpl remote slide designSystem w) = Inl e"
  shows "sleeps (snd (generateSlideImage tpl remote slide designSystem w))
           = sleeps w @ [3000, 6000, 12000]
         \<and> length (env (snd (generateSlideImage tpl remote slide designSystem w)))
           = length (env w) + 4"
proof -
  from generateSlideImage_ask [of tpl remote slide designSystem] obtain req g
    where eq: "generateSlideImage tpl remote slide designSystem
               = retryOperation_default warnError (ask remote req g)" by blast
  from assms have "fst (retryOperation warnError (ask remote req g) (int 3) 3000 w) = Inl e"
    by (simp add: eq retryOperation_default_def)
  from retry_ask_rejected [OF this] show ?thesis
    by (simp add: eq retryOperation_default_def backoff_def upt_conv_Cons numeral_eq_Suc)
qed

section \<open>Properties of the orchestrator\<close>

lemma findIndex_Some:
  "findIndex p xs = Some k \<Longrightarrow> k < length xs \<and> p (xs ! k) \<and> (\<forall>j<k. \<not> p (xs ! j))"
proof (induction xs arbitrary: k)
  case Nil
  then show ?case by simp
next
  case (Cons x xs)
  show ?case
  proof (cases "p x")
    case True
    with Cons.prems show ?thesis by simp
  next
    case False
    with Cons.prems obtain k' where k': "findIndex p xs = Some k'" "k = Suc k'" by auto
    from Cons.IH [OF k'(1)] False k'(2) show ?thesis
      by (auto simp: nth_Cons split: nat.splits)
  qed
qed

lemma findIndex_None: "findIndex p xs = None \<longleftrightarrow> (\<forall>x\<in>set xs. \<not> p x)"
  by (induction xs) auto

lemma find_findIndex: "List.find p xs = map_option (\<lambda>k. xs ! k) (findIndex p xs)"
  by (induction xs) (auto simp: option.map_comp o_def)

lemma findIndex_distinct_id:
  "distinct (map slideId ss) \<Longrightarrow> k < length ss \<Longrightarrow>
   findIndex (\<lambda>s. slideId s = slideId (ss ! k)) ss = Some k"
proof (induction ss arbitrary: k)
  case Nil
  then show ?case by simp
next
  case (Cons x xs)
  show ?case
  proof (cases k)
    case 0
    then show ?thesis by simp
  next
    case (Suc k')
    with Cons.prems have "xs ! k' \<in> set xs" by simp
    with Cons.prems have "slideId x \<noteq> slideId (xs ! k')" by auto
    with Cons Suc show ?thesis by simp
  qed
qed

lemma map_if_distinct_id:
  "distinct (map slideId ss) \<Longrightarrow> k < length ss \<Longrightarrow>
   map (\<lambda>s. if slideId s = slideId (ss ! k) then f s else s) ss = ss[k := f (ss ! k)]"
proof (induction ss arbitrary: k)
  case Nil
  then show ?case by simp
next
  case (Cons x xs)
  show ?case
  proof (cases k)
    case 0
    from Cons.prems have "slideId x \<notin> slideId ` set xs" by simp
    then have "\<And>s. s \<in> set xs \<Longrightarrow> slideId s \<noteq> slideId x" by (metis image_eqI)
    then have "map (\<lambda>s. if slideId s = slideId x then f s else s) xs = xs"
      by (simp add: map_idI)
    with 0 show ?thesis by simp
  next
    case (Suc k')
    with Cons.prems have "xs ! k' \<in> set xs" by simp
    with Cons.prems have "slideId x \<noteq> slideId (xs ! k')" by auto
    with Cons Suc show ?thesis by simp
  qed
qed

lemma gen_manual: "generateSingleSlideImage ds i False w = Some (launch ds i False w)"
  by (subst generateSingleSlideImage.simps) simp

lemma gen_idle:
  "List.find (\<lambda>s. slideId s = i) (slidesRef w) = Some t \<Longrightarrow> \<not> busy t \<Longrightarrow>
   generateSingleSlideImage ds i True w = Some (launch ds i True w)"
  by (subst generateSingleSlideImage.simps) simp

lemma gen_absent:
  "List.find (\<lambda>s. slideId s = i) (slidesRef w) = None \<Longrightarrow>
   generateSingleSlideImage ds i True w = Some w"
  by (subst generateSingleSlideImage.simps) (simp add: launch_def find_findIndex)

lemma gen_busy_next:
  "List.find (\<lambda>s. slideId s = i) (slidesRef w) = Some t \<Longrightarrow> busy t \<Longrightarrow>
   findIndex (\<lambda>s. slideId s = i) (slidesRef w) = Some k \<Longrightarrow> k < length (slidesRef w) - 1 \<Longrightarrow>
   generateSingleSlideImage ds i True w
   = generateSingleSlideImage ds (slideId (slidesRef w ! (k + 1))) True w"
  by (subst generateSingleSlideImage.simps) simp

lemma gen_busy_last:
  "List.find (\<lambda>s. slideId s = i) (slidesRef w) = Some t \<Longrightarrow> busy t \<Longrightarrow>
   findIndex (\<lambda>s. slideId s = i) (slidesRef w) = Some k \<Longrightarrow> \<not> k < length (slidesRef w) - 1 \<Longrightarrow>
   generateSingleSlideImage ds i True w = Some w"
  by (subst generateSingleSlideImage.simps) simp

lemma chain_skips:
  "distinct (map slideId (slidesRef w)) \<Longrightarrow> k < length (slidesRef w) \<Longrightarrow>
   generateSingleSlideImage ds (slideId (slidesRef w ! k)) True w
   = (case List.find (\<lambda>s. \<not> busy s) (drop k (slidesRef w)) of
        None \<Rightarrow> Some w
      | Some t \<Rightarrow> Some (launch ds (slideId t) True w))"
proof (induction "length (slidesRef w) - k" arbitrary: k)
  case 0
  then show ?case by simp
next
  case (Suc n)
  let ?ss = "slidesRef w"
  from Suc.prems have idx: "findIndex (\<lambda>s. slideId s = slideId (?ss ! k)) ?ss = Some k"
    by (rule findIndex_distinct_id)
  then have fnd: "List.find (\<lambda>s. slideId s = slideId (?ss ! k)) ?ss = Some (?ss ! k)"
    by (simp add: find_findIndex)
  have dr: "drop k ?ss = ?ss ! k # drop (Suc k) ?ss"
    using Suc.prems(2) by (simp add: Cons_nth_drop_Suc)
  show ?case
  proof (cases "busy (?ss ! k)")
    case False
    with gen_idle [OF fnd] dr show ?thesis by simp
  next
    case True
    show ?thesis
    proof (cases "k < length ?ss - 1")
      case last: False
      with Suc.prems(2) have "drop (Suc k) ?ss = []" by simp
      with gen_busy_last [OF fnd True idx last] dr True show ?thesis by simp
    next
      case more: True
      then have k1: "Suc k < length ?ss" by simp
      from Suc.hyps(2) have n: "n = length ?ss - Suc k" by simp
      from gen_busy_next [OF fnd True idx more, of ds] Suc.hyps(1) [OF n Suc.prems(1) k1]
      show ?thesis using dr True by simp
    qed
  qed
qed

lemma status_IDLE: "status s = IDLE \<longleftrightarrow> \<not> isGenerating s \<and> \<not> truthy (generatedImageUrl s)"
  by (simp add: status_def)

lemma status_IDLE_busy: "status s = IDLE \<longleftrightarrow> \<not> busy s"
  by (auto simp: status_def busy_def)

lemma status_DONE: "status s = DONE \<longleftrightarrow> \<not> isGenerating s \<and> truthy (generatedImageUrl s)"
  by (simp add: status_def)

lemma drain_settles:
  "inFlight w = c # cs \<Longrightarrow>
   drain synth w
   = drain synth (render (settle c (synth (callSlide c) (callDesignSystem c)) (w\<lparr> inFlight := cs \<rparr>)))"
  by (subst drain.simps) (simp add: removeAt_def settleCall_def)

lemma drain_fires:
  "inFlight w = [] \<Longrightarrow> timers w = (ds, i) # ts \<Longrightarrow>
   generateSingleSlideImage ds i True (w\<lparr> timers := ts \<rparr>) = Some w' \<Longrightarrow>
   drain synth w = drain synth (render w')"
  by (subst drain.simps) (simp add: removeAt_def fireTimer_def)

lemma drain_settled: "inFlight w = [] \<Longrightarrow> timers w = [] \<Longrightarrow> drain synth w = Some w"
  by (subst drain.simps) simp

lemma launch_at:
  assumes "distinct (map slideId (slidesRef w))" "stateSlides w = slidesRef w"
    "k < length (slidesRef w)"
  shows "launch ds (slideId (slidesRef w ! k)) ac w
   = w\<lparr> stateSlides := (slidesRef w)[k := (slidesRef w ! k)\<lparr> isGenerating := True \<rparr>],
        activeSlideIndex := (if ac then k else activeSlideIndex w),
        inFlight := inFlight w @
           [\<lparr> callSlideId = slideId (slidesRef w ! k), callAutoChain = ac,
              callSlide = slidesRef w ! k, callDesignSystem = ds \<rparr>],
        started := started w @ [slideId (slidesRef w ! k)] \<rparr>"
  using assms
  by (simp add: launch_def findIndex_distinct_id map_if_distinct_id)

lemma settle_resolved_at:
  assumes "distinct (map slideId (slidesRef w))" "stateSlides w = slidesRef w"
    "k < length (slidesRef w)" "callSlideId c = slideId (slidesRef w ! k)" "callAutoChain c"
  shows "settle c (Inr u) w
   = w\<lparr> stateSlides :=
          (slidesRef w)[k := (slidesRef w ! k)\<lparr> generatedImageUrl := Some u, isGenerating := False \<rparr>],
        timers := timers w @
          (if k < length (slidesRef w) - 1 \<and> \<not> busy (slidesRef w ! (k + 1))
           then [(callDesignSystem c, slideId (slidesRef w ! (k + 1)))] else []) \<rparr>"
  using assms
  by (simp add: settle_def Let_def findIndex_distinct_id map_if_distinct_id busy_def)

lemma settle_rejected_at:
  assumes "distinct (map slideId (slidesRef w))" "stateSlides w = slidesRef w"
    "k < length (slidesRef w)" "callSlideId c = slideId (slidesRef w ! k)"
  shows "settle c (Inl e) w
   = w\<lparr> stateSlides := (slidesRef w)[k := (slidesRef w ! k)\<lparr> isGenerating := False \<rparr>],
        sessionAlerts := sessionAlerts w @ [SlideFailed (slideId (slidesRef w ! k))] \<rparr>"
  using assms
  by (simp add: settle_def map_if_distinct_id)

lemma three_slide_run:
  assumes d: "distinct (map slideId [a, b, c])"
    and idle: "\<not> busy a" "\<not> busy b" "\<not> busy c"
    and sa: "synth a ds = Inr ua"
  shows "autoChainFrom synth ds (slideId a) (session [a, b, c])
         = drain synth
             \<lparr> stateSlides = [a\<lparr> generatedImageUrl := Some ua, isGenerating := False \<rparr>,
                              b\<lparr> isGenerating := True \<rparr>, c],
               slidesRef = [a\<lparr> generatedImageUrl := Some ua, isGenerating := False \<rparr>,
                            b\<lparr> isGenerating := True \<rparr>, c],
               activeSlideIndex = 1,
               inFlight = [\<lparr> callSlideId = slideId b, callAutoChain = True, callSlide = b,
                             callDesignSystem = ds \<rparr>],
               timers = [], sessionAlerts = [], started = [slideId a, slideId b] \<rparr>"
proof -
  let ?a2 = "a\<lparr> generatedImageUrl := Some ua, isGenerating := False \<rparr>"
  let ?ca = "\<lparr> callSlideId = slideId a, callAutoChain = True, callSlide = a,
               callDesignSystem = ds \<rparr>"
  let ?W1 = "\<lparr> stateSlides = [a\<lparr> isGenerating := True \<rparr>, b, c],
               slidesRef = [a\<lparr> isGenerating := True \<rparr>, b, c],
               activeSlideIndex = 0, inFlight = [?ca],
               timers = [], sessionAlerts = [], started = [slideId a] \<rparr>"
  let ?W2 = "\<lparr> stateSlides = [?a2, b, c], slidesRef = [?a2, b, c],
               activeSlideIndex = 0, inFlight = [],
               timers = [(ds, slideId b)], sessionAlerts = [], started = [slideId a] \<rparr>"
  let ?W3 = "\<lparr> stateSlides = [?a2, b\<lparr> isGenerating := True \<rparr>, c],
               slidesRef = [?a2, b\<lparr> isGenerating := True \<rparr>, c],
               activeSlideIndex = 1,
               inFlight = [\<lparr> callSlideId = slideId b, callAutoChain = True, callSlide = b,
                             callDesignSystem = ds \<rparr>],
               timers = [], sessionAlerts = [], started = [slideId a, slideId b] \<rparr>"
  have fa: "List.find (\<lambda>s. slideId s = slideId a) (slidesRef (session [a, b, c])) = Some a"
    by (simp add: session_def)
  have "generateSingleSlideImage ds (slideId a) True (session [a, b, c])
        = Some (launch ds (slideId ((slidesRef (session [a, b, c])) ! 0)) True (session [a, b, c]))"
    using gen_idle [OF fa idle(1)] by (simp add: session_def)
  also have "launch ds (slideId ((slidesRef (session [a, b, c])) ! 0)) True (session [a, b, c])
        = (session [a, b, c])\<lparr> stateSlides := [a\<lparr> isGenerating := True \<rparr>, b, c],
             activeSlideIndex := 0, inFlight := [?ca], started := [slideId a] \<rparr>"
    using d by (subst launch_at) (simp_all add: session_def)
  finally have start: "autoChainFrom synth ds (slideId a) (session [a, b, c]) = drain synth ?W1"
    by (simp add: autoChainFrom_def render_def session_def)
  have "settle ?ca (Inr ua) (?W1\<lparr> inFlight := [] \<rparr>)
        = (?W1\<lparr> inFlight := [] \<rparr>)\<lparr> stateSlides := [?a2, b, c], timers := [(ds, slideId b)] \<rparr>"
    using d idle(2) by (subst settle_resolved_at [where k = 0]) simp_all
  then have s1: "drain synth ?W1 = drain synth ?W2"
    using sa by (subst drain_settles [where c = ?ca and cs = "[]"]) (simp_all add: render_def)
  have fb: "List.find (\<lambda>s. slideId s = slideId b) (slidesRef (?W2\<lparr> timers := [] \<rparr>)) = Some b"
    using d by simp
  have "launch ds (slideId (slidesRef (?W2\<lparr> timers := [] \<rparr>) ! 1)) True (?W2\<lparr> timers := [] \<rparr>)
        = (?W2\<lparr> timers := [] \<rparr>)\<lparr> stateSlides := [?a2, b\<lparr> isGenerating := True \<rparr>, c],
             activeSlideIndex := 1,
             inFlight := [\<lparr> callSlideId = slideId b, callAutoChain = True, callSlide = b,
                             callDesignSystem = ds \<rparr>],
             started := [slideId a, slideId b] \<rparr>"
    using d by (subst launch_at) simp_all
  then have "generateSingleSlideImage ds (slideId b) True (?W2\<lparr> timers := [] \<rparr>)
        = Some ((?W2\<lparr> timers := [] \<rparr>)\<lparr> stateSlides := [?a2, b\<lparr> isGenerating := True \<rparr>, c],
             activeSlideIndex := 1,
             inFlight := [\<lparr> callSlideId = slideId b, callAutoChain = True, callSlide = b,
                             callDesignSystem = ds \<rparr>],
             started := [slideId a, slideId b] \<rparr>)"
    using gen_idle [OF fb idle(2), of ds] by simp
  from drain_fires [OF _ _ this, of synth]
  have s2: "drain synth ?W2 = drain synth ?W3"
    by (simp add: render_def)
  from start s1 s2 show ?thesis by simp
qed

lemma three_slide_success:
  assumes d: "distinct (map slideId [a, b, c])"
    and idle: "\<not> busy a" "\<not> busy b" "\<not> busy c"
    and sa: "synth a ds = Inr ua" and sb: "synth b ds = Inr ub" and sc: "synth c ds = Inr uc"
  shows "autoChainFrom synth ds (slideId a) (session [a, b, c])
         = Some
             \<lparr> stateSlides = [a\<lparr> generatedImageUrl := Some ua, isGenerating := False \<rparr>,
                              b\<lparr> generatedImageUrl := Some ub, isGenerating := False \<rparr>,
                              c\<lparr> generatedImageUrl := Some uc, isGenerating := False \<rparr>],
               slidesRef = [a\<lparr> generatedImageUrl := Some ua, isGenerating := False \<rparr>,
                            b\<lparr> generatedImageUrl := Some ub, isGenerating := False \<rparr>,
                            c\<lparr> generatedImageUrl := Some uc, isGenerating := False \<rparr>],
               activeSlideIndex = 2, inFlight = [], timers = [], sessionAlerts = [],
               started = [slideId a, slideId b, slideId c] \<rparr>"
proof -
  let ?a2 = "a\<lparr> generatedImageUrl := Some ua, isGenerating := False \<rparr>"
  let ?b2 = "b\<lparr> generatedImageUrl := Some ub, isGenerating := False \<rparr>"
  let ?c2 = "c\<lparr> generatedImageUrl := Some uc, isGenerating := False \<rparr>"
  let ?cb = "\<lparr> callSlideId = slideId b, callAutoChain = True, callSlide = b,
               callDesignSystem = ds \<rparr>"
  let ?cc = "\<lparr> callSlideId = slideId c, callAutoChain = True, callSlide = c,
               callDesignSystem = ds \<rparr>"
  let ?W3 = "\<lparr> stateSlides = [?a2, b\<lparr> isGenerating := True \<rparr>, c],
               slidesRef = [?a2, b\<lparr> isGenerating := True \<rparr>, c],
               activeSlideIndex = 1, inFlight = [?cb],
               timers = [], sessionAlerts = [], started = [slideId a, slideId b] \<rparr>"
  let ?W4 = "\<lparr> stateSlides = [?a2, ?b2, c], slidesRef = [?a2, ?b2, c],
               activeSlideIndex = 1, inFlight = [],
               timers = [(ds, slideId c)], sessionAlerts = [], started = [slideId a, slideId b] \<rparr>"
  let ?W5 = "\<lparr> stateSlides = [?a2, ?b2, c\<lparr> isGenerating := True \<rparr>],
               slidesRef = [?a2, ?b2, c\<lparr> isGenerating := True \<rparr>],
               activeSlideIndex = 2, inFlight = [?cc],
               timers = [], sessionAlerts = [], started = [slideId a, slideId b, slideId c] \<rparr>"
  let ?W6 = "\<lparr> stateSlides = [?a2, ?b2, ?c2], slidesRef = [?a2, ?b2, ?c2],
               activeSlideIndex = 2, inFlight = [],
               timers = [], sessionAlerts = [], started = [slideId a, slideId b, slideId c] \<rparr>"
  have s0: "autoChainFrom synth ds (slideId a) (session [a, b, c]) = drain synth ?W3"
    by (rule three_slide_run [where synth = synth, OF d idle sa])
  have "settle ?cb (Inr ub) (?W3\<lparr> inFlight := [] \<rparr>)
        = (?W3\<lparr> inFlight := [] \<rparr>)\<lparr> stateSlides := [?a2, ?b2, c], timers := [(ds, slideId c)] \<rparr>"
    using d idle(3) by (subst settle_resolved_at [where k = 1]) simp_all
  then have s3: "drain synth ?W3 = drain synth ?W4"
    using sb by (subst drain_settles [where c = ?cb and cs = "[]"]) (simp_all add: render_def)
  have fc: "List.find (\<lambda>s. slideId s = slideId c) (slidesRef (?W4\<lparr> timers := [] \<rparr>)) = Some c"
    using d by simp
  have "launch ds (slideId (slidesRef (?W4\<lparr> timers := [] \<rparr>) ! 2)) True (?W4\<lparr> timers := [] \<rparr>)
        = (?W4\<lparr> timers := [] \<rparr>)\<lparr> stateSlides := [?a2, ?b2, c\<lparr> isGenerating := True \<rparr>],
             activeSlideIndex := 2, inFlight := [?cc],
             started := [slideId a, slideId b, slideId c] \<rparr>"
    using d by (subst launch_at) simp_all
  then have "generateSingleSlideImage ds (slideId c) True (?W4\<lparr> timers := [] \<rparr>)
        = Some ((?W4\<lparr> timers := [] \<rparr>)\<lparr> stateSlides := [?a2, ?b2, c\<lparr> isGenerating := True \<rparr>],
             activeSlideIndex := 2, inFlight := [?cc],
             started := [slideId a, slideId b, slideId c] \<rparr>)"
    using gen_idle [OF fc idle(3), of ds] by simp
  from drain_fires [OF _ _ this, of synth]
  have s4: "drain synth ?W4 = drain synth ?W5"
    by (simp add: render_def)
  have "settle ?cc (Inr uc) (?W5\<lparr> inFlight := [] \<rparr>)
        = (?W5\<lparr> inFlight := [] \<rparr>)\<lparr> stateSlides := [?a2, ?b2, ?c2], timers := [] \<rparr>"
    using d by (subst settle_resolved_at [where k = 2]) simp_all
  then have s5: "drain synth ?W5 = drain synth ?W6"
    using sc by (subst drain_settles [where c = ?cc and cs = "[]"]) (simp_all add: render_def)
  have s6: "drain synth ?W6 = Some ?W6"
    by (rule drain_settled) simp_all
  from s0 s3 s4 s5 s6 show ?thesis by simp
qed

lemma three_slide_failure:
  assumes d: "distinct (map slideId [a, b, c])"
    and idle: "\<not> busy a" "\<not> busy b" "\<not> busy c"
    and sa: "synth a ds = Inr ua" and sb: "synth b ds = Inl e"
  shows "autoChainFrom synth ds (slideId a) (session [a, b, c])
         = Some
             \<lparr> stateSlides = [a\<lparr> generatedImageUrl := Some ua, isGenerating := False \<rparr>, b, c],
               slidesRef = [a\<lparr> generatedImageUrl := Some ua, isGenerating := False \<rparr>, b, c],
               activeSlideIndex = 1, inFlight = [], timers = [],
               sessionAlerts = [SlideFailed (slideId b)],
               started = [slideId a, slideId b] \<rparr>"
proof -
  let ?a2 = "a\<lparr> generatedImageUrl := Some ua, isGenerating := False \<rparr>"
  let ?cb = "\<lparr> callSlideId = slideId b, callAutoChain = True, callSlide = b,
               callDesignSystem = ds \<rparr>"
  let ?W3 = "\<lparr> stateSlides = [?a2, b\<lparr> isGenerating := True \<rparr>, c],
               slidesRef = [?a2, b\<lparr> isGenerating := True \<rparr>, c],
               activeSlideIndex = 1, inFlight = [?cb],
               timers = [], sessionAlerts = [], started = [slideId a, slideId b] \<rparr>"
  let ?W4 = "\<lparr> stateSlides = [?a2, b, c], slidesRef = [?a2, b, c],
               activeSlideIndex = 1, inFlight = [],
               timers = [], sessionAlerts = [SlideFailed (slideId b)],
               started = [slideId a, slideId b] \<rparr>"
  from idle(2) have nb: "\<not> isGenerating b" by (simp add: busy_def)
  then have b: "b\<lparr> isGenerating := False \<rparr> = b" by simp
  have s0: "autoChainFrom synth ds (slideId a) (session [a, b, c]) = drain synth ?W3"
    by (rule three_slide_run [where synth = synth, OF d idle sa])
  have "settle ?cb (Inl e) (?W3\<lparr> inFlight := [] \<rparr>)
        = (?W3\<lparr> inFlight := [] \<rparr>)\<lparr> stateSlides := [?a2, b, c],
             sessionAlerts := [SlideFailed (slideId b)] \<rparr>"
    using d b by (subst settle_rejected_at [where k = 1]) simp_all
  then have s3: "drain synth ?W3 = drain synth ?W4"
    using sb by (subst drain_settles [where c = ?cb and cs = "[]"]) (simp_all add: render_def)
  have s4: "drain synth ?W4 = Some ?W4"
    by (rule drain_settled) simp_all
  from s0 s3 s4 show ?thesis by simp
qed

lemma find_idle_busy: "List.find (\<lambda>s. status s = IDLE) xs = List.find (\<lambda>s. \<not> busy s) xs"
  by (simp add: status_IDLE_busy)

lemma idleSlide_fields:
  "slideId (idleSlide i) = i" "\<not> isGenerating (idleSlide i)"
  "generatedImageUrl (idleSlide i) = None" "\<not> busy (idleSlide i)" "status (idleSlide i) = IDLE"
  by (simp_all add: idleSlide_def busy_def truthy_def status_def)

lemma doneSlide_fields:
  "slideId (doneSlide i) = i" "status (doneSlide i) = DONE"
  "(idleSlide i)\<lparr> generatedImageUrl := Some (js ''data:image/png;base64,AAAA''),
                  isGenerating := False \<rparr> = doneSlide i"
  by (simp_all add: doneSlide_def idleSlide_def status_def truthy_def js_simps)

text \<open>
  C1. For every deck of three slides with distinct ids that are all \<open>IDLE\<close>, and every
  synthesizer that resolves to a non-empty image for each of them: the auto-chain
  started on the first slide settles with all three slides \<open>DONE\<close>, each holding its
  image, after \<open>generateSlideImage\<close> was called for the three slides in slide order, with
  no call in flight, no timer pending and no alert. And for every session with distinct
  ids: an auto-chained call on a slide that is \<open>DONE\<close> or \<open>GENERATING\<close> skips it and
  launches the first slide after it that is \<open>IDLE\<close>, and does nothing when there is none
  up to the end of the list.
\<close>

theorem autoChain_generates_in_order:
  "(distinct (map slideId [a, b, c]) \<and> status a = IDLE \<and> status b = IDLE \<and> status c = IDLE
     \<and> synth a ds = Inr ua \<and> synth b ds = Inr ub \<and> synth c ds = Inr uc
     \<and> ua \<noteq> [] \<and> ub \<noteq> [] \<and> uc \<noteq> []
    \<longrightarrow> autoChainFrom synth ds (slideId a) (session [a, b, c])
        = Some
            \<lparr> stateSlides = [a\<lparr> generatedImageUrl := Some ua, isGenerating := False \<rparr>,
                             b\<lparr> generatedImageUrl := Some ub, isGenerating := False \<rparr>,
                             c\<lparr> generatedImageUrl := Some uc, isGenerating := False \<rparr>],
              slidesRef = [a\<lparr> generatedImageUrl := Some ua, isGenerating := False \<rparr>,
                           b\<lparr> generatedImageUrl := Some ub, isGenerating := False \<rparr>,
                           c\<lparr> generatedImageUrl := Some uc, isGenerating := False \<rparr>],
              activeSlideIndex = 2, inFlight = [], timers = [], sessionAlerts = [],
              started = [slideId a, slideId b, slideId c] \<rparr>
      \<and> status (a\<lparr> generatedImageUrl := Some ua, isGenerating := False \<rparr>) = DONE
      \<and> status (b\<lparr> generatedImageUrl := Some ub, isGenerating := False \<rparr>) = DONE
      \<and> status (c\<lparr> generatedImageUrl := Some uc, isGenerating := False \<rparr>) = DONE)
   \<and> (distinct (map slideId (slidesRef w)) \<and> k < length (slidesRef w)
       \<and> status (slidesRef w ! k) \<noteq> IDLE
    \<longrightarrow> generateSingleSlideImage ds (slideId (slidesRef w ! k)) True w
        = (case List.find (\<lambda>s. status s = IDLE) (drop (Suc k) (slidesRef w)) of
             None \<Rightarrow> Some w
           | Some t \<Rightarrow> Some (launch ds (slideId t) True w)))"
proof (intro conjI impI)
  assume a: "distinct (map slideId [a, b, c]) \<and> status a = IDLE \<and> status b = IDLE \<and> status c = IDLE
     \<and> synth a ds = Inr ua \<and> synth b ds = Inr ub \<and> synth c ds = Inr uc
     \<and> ua \<noteq> [] \<and> ub \<noteq> [] \<and> uc \<noteq> []"
  then have d: "distinct (map slideId [a, b, c])"
    and idle: "\<not> busy a" "\<not> busy b" "\<not> busy c"
    and s: "synth a ds = Inr ua" "synth b ds = Inr ub" "synth c ds = Inr uc"
    by (simp_all add: status_IDLE_busy)
  show "autoChainFrom synth ds (slideId a) (session [a, b, c])
        = Some
            \<lparr> stateSlides = [a\<lparr> generatedImageUrl := Some ua, isGenerating := False \<rparr>,
                             b\<lparr> generatedImageUrl := Some ub, isGenerating := False \<rparr>,
                             c\<lparr> generatedImageUrl := Some uc, isGenerating := False \<rparr>],
              slidesRef = [a\<lparr> generatedImageUrl := Some ua, isGenerating := False \<rparr>,
                           b\<lparr> generatedImageUrl := Some ub, isGenerating := False \<rparr>,
                           c\<lparr> generatedImageUrl := Some uc, isGenerating := False \<rparr>],
              activeSlideIndex = 2, inFlight = [], timers = [], sessionAlerts = [],
              started = [slideId a, slideId b, slideId c] \<rparr>"
    by (rule three_slide_success [where synth = synth, OF d idle s])
  from a show "status (a\<lparr> generatedImageUrl := Some ua, isGenerating := False \<rparr>) = DONE"
    "status (b\<lparr> generatedImageUrl := Some ub, isGenerating := False \<rparr>) = DONE"
    "status (c\<lparr> generatedImageUrl := Some uc, isGenerating := False \<rparr>) = DONE"
    by (simp_all add: status_def truthy_def)
next
  assume a: "distinct (map slideId (slidesRef w)) \<and> k < length (slidesRef w)
       \<and> status (slidesRef w ! k) \<noteq> IDLE"
  then have b: "busy (slidesRef w ! k)" by (simp add: status_IDLE_busy)
  from a have dr: "drop k (slidesRef w) = slidesRef w ! k # drop (Suc k) (slidesRef w)"
    by (simp add: Cons_nth_drop_Suc)
  from a chain_skips [of w k ds] b dr
  show "generateSingleSlideImage ds (slideId (slidesRef w ! k)) True w
        = (case List.find (\<lambda>s. status s = IDLE) (drop (Suc k) (slidesRef w)) of
             None \<Rightarrow> Some w
           | Some t \<Rightarrow> Some (launch ds (slideId t) True w))"
    by (simp add: find_idle_busy)
qed

text \<open>
  Three idle slides and the synthesizer that always resolves; an auto-chained call on
  the first of two done slides, with and without an idle slide after them.
\<close>

theorem autoChain_generates_in_order_witness:
  "autoChainFrom stubSynth (js ''D'') 1 (session [idleSlide 1, idleSlide 2, idleSlide 3])
     = Some \<lparr> stateSlides = [doneSlide 1, doneSlide 2, doneSlide 3],
              slidesRef = [doneSlide 1, doneSlide 2, doneSlide 3],
              activeSlideIndex = 2, inFlight = [], timers = [], sessionAlerts = [],
              started = [1, 2, 3] \<rparr>
   \<and> status (doneSlide 1) = DONE \<and> status (doneSlide 2) = DONE \<and> status (doneSlide 3) = DONE
   \<and> generateSingleSlideImage (js ''D'') 1 True (session [doneSlide 1, doneSlide 2, idleSlide 3])
     = Some (launch (js ''D'') 3 True (session [doneSlide 1, doneSlide 2, idleSlide 3]))
   \<and> generateSingleSlideImage (js ''D'') 1 True (session [doneSlide 1, doneSlide 2])
     = Some (session [doneSlide 1, doneSlide 2])"
proof -
  have u: "js ''data:image/png;base64,AAAA'' \<noteq> []" by (simp add: js_simps)
  have r1: "autoChainFrom stubSynth (js ''D'') 1 (session [idleSlide 1, idleSlide 2, idleSlide 3])
     = Some \<lparr> stateSlides = [doneSlide 1, doneSlide 2, doneSlide 3],
              slidesRef = [doneSlide 1, doneSlide 2, doneSlide 3],
              activeSlideIndex = 2, inFlight = [], timers = [], sessionAlerts = [],
              started = [1, 2, 3] \<rparr>
    \<and> status (doneSlide 1) = DONE \<and> status (doneSlide 2) = DONE \<and> status (doneSlide 3) = DONE"
    using autoChain_generates_in_order [where a = "idleSlide 1" and b = "idleSlide 2"
        and c = "idleSlide 3" and synth = stubSynth and ds = "js ''D''"
        and ua = "js ''data:image/png;base64,AAAA''" and ub = "js ''data:image/png;base64,AAAA''"
        and uc = "js ''data:image/png;base64,AAAA''"
        and w = "session [doneSlide 1, doneSlide 2]" and k = 0] u
    by (simp add: idleSlide_fields doneSlide_fields stubSynth_def)
  have r2: "generateSingleSlideImage (js ''D'') 1 True (session [doneSlide 1, doneSlide 2, idleSlide 3])
     = Some (launch (js ''D'') 3 True (session [doneSlide 1, doneSlide 2, idleSlide 3]))"
    using autoChain_generates_in_order [where a = "idleSlide 1" and b = "idleSlide 2"
        and c = "idleSlide 3" and synth = stubSynth and ds = "js ''D''"
        and ua = "[]" and ub = "[]" and uc = "[]"
        and w = "session [doneSlide 1, doneSlide 2, idleSlide 3]" and k = 0]
    by (simp add: idleSlide_fields doneSlide_fields session_def)
  have r3: "generateSingleSlideImage (js ''D'') 1 True (session [doneSlide 1, doneSlide 2])
     = Some (session [doneSlide 1, doneSlide 2])"
    using autoChain_generates_in_order [where a = "idleSlide 1" and b = "idleSlide 2"
        and c = "idleSlide 3" and synth = stubSynth and ds = "js ''D''"
        and ua = "[]" and ub = "[]" and uc = "[]"
        and w = "session [doneSlide 1, doneSlide 2]" and k = 0]
    by (simp add: idleSlide_fields doneSlide_fields session_def)
  from r1 r2 r3 show ?thesis by simp
qed

text \<open>
  C2. For every deck of three \<open>IDLE\<close> slides with distinct ids, when the synthesis of the
  first slide resolves and that of the second rejects: the auto-chain started on the
  first slide settles with the first slide \<open>DONE\<close>, the second and the third slide as
  they were (\<open>IDLE\<close>), \<open>generateSlideImage\<close> called for the first and the second slide
  only, one alert for the second slide, and no timer pending. And for every call that
  rejects, in every session: the slides of its id are not generating afterwards, no
  slide's image or id changes, the failure is alerted, and neither a timer nor a call
  is added.
\<close>

theorem autoChain_halts_on_failure:
  "(distinct (map slideId [a, b, c]) \<and> status a = IDLE \<and> status b = IDLE \<and> status c = IDLE
     \<and> synth a ds = Inr ua \<and> ua \<noteq> [] \<and> synth b ds = Inl e
    \<longrightarrow> autoChainFrom synth ds (slideId a) (session [a, b, c])
        = Some
            \<lparr> stateSlides = [a\<lparr> generatedImageUrl := Some ua, isGenerating := False \<rparr>, b, c],
              slidesRef = [a\<lparr> generatedImageUrl := Some ua, isGenerating := False \<rparr>, b, c],
              activeSlideIndex = 1, inFlight = [], timers = [],
              sessionAlerts = [SlideFailed (slideId b)],
              started = [slideId a, slideId b] \<rparr>
      \<and> status (a\<lparr> generatedImageUrl := Some ua, isGenerating := False \<rparr>) = DONE)
   \<and> list_all (\<lambda>s. slideId s = callSlideId call \<longrightarrow> \<not> isGenerating s)
        (stateSlides (settle call (Inl e) w))
   \<and> map generatedImageUrl (stateSlides (settle call (Inl e) w))
       = map generatedImageUrl (stateSlides w)
   \<and> map slideId (stateSlides (settle call (Inl e) w)) = map slideId (stateSlides w)
   \<and> sessionAlerts (settle call (Inl e) w) = sessionAlerts w @ [SlideFailed (callSlideId call)]
   \<and> timers (settle call (Inl e) w) = timers w
   \<and> inFlight (settle call (Inl e) w) = inFlight w
   \<and> started (settle call (Inl e) w) = started w"
proof (intro conjI impI)
  assume a: "distinct (map slideId [a, b, c]) \<and> status a = IDLE \<and> status b = IDLE \<and> status c = IDLE
     \<and> synth a ds = Inr ua \<and> ua \<noteq> [] \<and> synth b ds = Inl e"
  then have d: "distinct (map slideId [a, b, c])"
    and idle: "\<not> busy a" "\<not> busy b" "\<not> busy c"
    and s: "synth a ds = Inr ua" "synth b ds = Inl e"
    by (simp_all add: status_IDLE_busy)
  show "autoChainFrom synth ds (slideId a) (session [a, b, c])
        = Some
            \<lparr> stateSlides = [a\<lparr> generatedImageUrl := Some ua, isGenerating := False \<rparr>, b, c],
              slidesRef = [a\<lparr> generatedImageUrl := Some ua, isGenerating := False \<rparr>, b, c],
              activeSlideIndex = 1, inFlight = [], timers = [],
              sessionAlerts = [SlideFailed (slideId b)],
              started = [slideId a, slideId b] \<rparr>"
    by (rule three_slide_failure [where synth = synth, OF d idle s])
  from a show "status (a\<lparr> generatedImageUrl := Some ua, isGenerating := False \<rparr>) = DONE"
    by (simp add: status_def truthy_def)
next
  show "list_all (\<lambda>s. slideId s = callSlideId call \<longrightarrow> \<not> isGenerating s)
        (stateSlides (settle call (Inl e) w))"
    by (auto simp: settle_def list_all_iff)
  show "map generatedImageUrl (stateSlides (settle call (Inl e) w))
       = map generatedImageUrl (stateSlides w)"
    by (simp add: settle_def)
  show "map slideId (stateSlides (settle call (Inl e) w)) = map slideId (stateSlides w)"
    by (simp add: settle_def)
qed (simp_all add: settle_def)

text \<open>
  Three idle slides and the synthesizer that rejects slide 2; the rejection of the call
  in flight of the one-slide session.
\<close>

theorem autoChain_halts_on_failure_witness:
  "autoChainFrom (failingOn 2) (js ''D'') 1 (session [idleSlide 1, idleSlide 2, idleSlide 3])
     = Some \<lparr> stateSlides = [doneSlide 1, idleSlide 2, idleSlide 3],
              slidesRef = [doneSlide 1, idleSlide 2, idleSlide 3],
              activeSlideIndex = 1, inFlight = [], timers = [],
              sessionAlerts = [SlideFailed 2], started = [1, 2] \<rparr>
   \<and> status (doneSlide 1) = DONE \<and> status (idleSlide 2) = IDLE \<and> status (idleSlide 3) = IDLE
   \<and> list_all (\<lambda>s. \<not> isGenerating s)
        (stateSlides (settle (hd (inFlight generatingSession)) (Inl NoImageData) generatingSession))
   \<and> sessionAlerts (settle (hd (inFlight generatingSession)) (Inl NoImageData) generatingSession)
       = [SlideFailed 1]
   \<and> timers (settle (hd (inFlight generatingSession)) (Inl NoImageData) generatingSession) = []"
proof -
  have u: "js ''data:image/png;base64,AAAA'' \<noteq> []" by (simp add: js_simps)
  note t = autoChain_halts_on_failure [where a = "idleSlide 1" and b = "idleSlide 2"
        and c = "idleSlide 3" and synth = "failingOn 2" and ds = "js ''D''"
        and ua = "js ''data:image/png;base64,AAAA''" and e = NoImageData
        and call = "hd (inFlight generatingSession)" and w = generatingSession]
  have r1: "autoChainFrom (failingOn 2) (js ''D'') 1 (session [idleSlide 1, idleSlide 2, idleSlide 3])
     = Some \<lparr> stateSlides = [doneSlide 1, idleSlide 2, idleSlide 3],
              slidesRef = [doneSlide 1, idleSlide 2, idleSlide 3],
              activeSlideIndex = 1, inFlight = [], timers = [],
              sessionAlerts = [SlideFailed 2], started = [1, 2] \<rparr>"
    using t u by (simp add: idleSlide_fields doneSlide_fields failingOn_def)
  have ids: "map slideId (stateSlides (settle (hd (inFlight generatingSession)) (Inl NoImageData)
                generatingSession)) = [1]"
    using t by (simp add: generatingSession_def idleSlide_fields)
  have "list_all (\<lambda>s. slideId s = 1 \<longrightarrow> \<not> isGenerating s)
        (stateSlides (settle (hd (inFlight generatingSession)) (Inl NoImageData) generatingSession))"
    using t by (simp add: generatingSession_def)
  with ids have r2: "list_all (\<lambda>s. \<not> isGenerating s)
        (stateSlides (settle (hd (inFlight generatingSession)) (Inl NoImageData) generatingSession))"
    by (cases "stateSlides (settle (hd (inFlight generatingSession)) (Inl NoImageData) generatingSession)")
       auto
  have r3: "sessionAlerts (settle (hd (inFlight generatingSession)) (Inl NoImageData) generatingSession)
       = [SlideFailed 1]"
    "timers (settle (hd (inFlight generatingSession)) (Inl NoImageData) generatingSession) = []"
    using t by (simp_all add: generatingSession_def)
  from r1 r2 r3 show ?thesis by (simp add: idleSlide_fields doneSlide_fields)
qed

section \<open>Mutual exclusion of the calls of a slide\<close>

lemma callsMarked_iff:
  "callsMarked w \<longleftrightarrow>
   (\<forall>c\<in>set (inFlight w). \<exists>s\<in>set (stateSlides w). slideId s = callSlideId c \<and> isGenerating s)"
  by (simp add: callsMarked_def list_all_iff list_ex_iff)

lemma launch_absent:
  "findIndex (\<lambda>s. slideId s = i) (slidesRef w) = None \<Longrightarrow> launch ds i ac w = w"
  by (simp add: launch_def)

lemma launch_fields:
  "findIndex (\<lambda>s. slideId s = i) (slidesRef w) = Some k \<Longrightarrow>
   stateSlides (launch ds i ac w)
     = map (\<lambda>s. if slideId s = i then s\<lparr> isGenerating := True \<rparr> else s) (stateSlides w)
   \<and> slidesRef (launch ds i ac w) = slidesRef w
   \<and> map callSlideId (inFlight (launch ds i ac w)) = map callSlideId (inFlight w) @ [i]
   \<and> set (inFlight (launch ds i ac w))
       = insert \<lparr> callSlideId = i, callAutoChain = ac, callSlide = slidesRef w ! k,
                  callDesignSystem = ds \<rparr> (set (inFlight w))"
  by (simp add: launch_def)

lemma map_mark_ids:
  "map slideId (map (\<lambda>s. if slideId s = i then f s else s) ss) = map slideId ss"
  if "\<And>s. slideId (f s) = slideId s"
  using that by (induction ss) auto

lemma launch_sound:
  assumes s: "sound w"
    and free: "\<forall>s\<in>set (slidesRef w). slideId s = i \<longrightarrow> \<not> isGenerating s"
  shows "sound (render (launch ds i ac w))"
proof (cases "findIndex (\<lambda>s. slideId s = i) (slidesRef w)")
  case None
  with s show ?thesis by (simp add: launch_absent sound_def render_def oneCallPerSlide_def callsMarked_def)
next
  case (Some k)
  note lf = launch_fields [OF Some, of ds ac]
  from s have ref: "slidesRef w = stateSlides w" by (simp add: sound_def)
  from findIndex_Some [OF Some] have k: "k < length (slidesRef w)" "slideId (slidesRef w ! k) = i"
    by simp_all
  let ?ss' = "map (\<lambda>s. if slideId s = i then s\<lparr> isGenerating := True \<rparr> else s) (stateSlides w)"
  have ids: "map slideId ?ss' = map slideId (stateSlides w)"
    by (rule map_mark_ids) simp
  have notin: "i \<notin> callSlideId ` set (inFlight w)"
  proof
    assume "i \<in> callSlideId ` set (inFlight w)"
    then obtain c where "c \<in> set (inFlight w)" "callSlideId c = i" by auto
    with s obtain x where "x \<in> set (stateSlides w)" "slideId x = i" "isGenerating x"
      by (auto simp: sound_def callsMarked_iff)
    with free ref show False by auto
  qed
  have st: "stateSlides (render (launch ds i ac w)) = ?ss'"
    using lf by (simp add: render_def)
  have d1: "distinct (map slideId (stateSlides (render (launch ds i ac w))))"
    unfolding st ids using s by (simp add: sound_def)
  have d2: "oneCallPerSlide (render (launch ds i ac w))"
    using s lf notin by (simp add: render_def sound_def oneCallPerSlide_def)
  have new: "\<exists>x\<in>set ?ss'. slideId x = i \<and> isGenerating x"
  proof -
    from k ref have "stateSlides w ! k \<in> set (stateSlides w)" "slideId (stateSlides w ! k) = i"
      by simp_all
    then have "(stateSlides w ! k)\<lparr> isGenerating := True \<rparr> \<in> set ?ss'" by force
    then show ?thesis using k ref by (intro bexI [of _ "(stateSlides w ! k)\<lparr> isGenerating := True \<rparr>"]) simp_all
  qed
  have old: "\<exists>x\<in>set ?ss'. slideId x = callSlideId c \<and> isGenerating x"
    if c: "c \<in> set (inFlight w)" for c
  proof -
    from s c obtain x where x: "x \<in> set (stateSlides w)" "slideId x = callSlideId c" "isGenerating x"
      by (auto simp: sound_def callsMarked_iff)
    show ?thesis
    proof (cases "slideId x = i")
      case True
      with x have "x\<lparr> isGenerating := True \<rparr> \<in> set ?ss'" by force
      with x show ?thesis by (intro bexI [of _ "x\<lparr> isGenerating := True \<rparr>"]) simp_all
    next
      case False
      with x have "x \<in> set ?ss'" by force
      with x show ?thesis by blast
    qed
  qed
  have d3: "callsMarked (render (launch ds i ac w))"
    unfolding callsMarked_iff using lf new old by (auto simp: render_def)
  from d1 d2 d3 show ?thesis by (simp add: sound_def render_def)
qed

lemma removeAt_distinct:
  assumes "distinct (map g xs)" "k < length xs"
  shows "distinct (map g (removeAt k xs))"
    and "set (removeAt k xs) \<subseteq> set xs"
    and "\<forall>c\<in>set (removeAt k xs). g c \<noteq> g (xs ! k)"
proof -
  from assms(2) have xs: "xs = take k xs @ xs ! k # drop (Suc k) xs"
    by (rule id_take_nth_drop)
  from assms(1) have "distinct (map g (take k xs @ xs ! k # drop (Suc k) xs))"
    using xs by simp
  then have d: "distinct (map g (take k xs))" "distinct (map g (drop (Suc k) xs))"
    "g (xs ! k) \<notin> g ` set (take k xs)" "g (xs ! k) \<notin> g ` set (drop (Suc k) xs)"
    "g ` set (take k xs) \<inter> g ` set (drop (Suc k) xs) = {}"
    by auto
  then show "distinct (map g (removeAt k xs))" by (simp add: removeAt_def)
  show "set (removeAt k xs) \<subseteq> set xs"
    by (auto simp: removeAt_def dest: in_set_takeD in_set_dropD)
  from d(3,4) show "\<forall>c\<in>set (removeAt k xs). g c \<noteq> g (xs ! k)"
    by (auto simp: removeAt_def) (metis image_eqI)+
qed

lemma settle_fields:
  "\<exists>f. (\<forall>s. slideId (f s) = slideId s)
     \<and> stateSlides (settle c outcome w)
         = map (\<lambda>s. if slideId s = callSlideId c then f s else s) (stateSlides w)
     \<and> inFlight (settle c outcome w) = inFlight w"
proof (cases outcome)
  case (Inl e)
  have "(\<forall>s. slideId (s\<lparr> isGenerating := False \<rparr>) = slideId s)
     \<and> stateSlides (settle c outcome w)
         = map (\<lambda>s. if slideId s = callSlideId c then s\<lparr> isGenerating := False \<rparr> else s)
             (stateSlides w)
     \<and> inFlight (settle c outcome w) = inFlight w"
    using Inl by (simp add: settle_def)
  then show ?thesis
    by (intro exI [of _ "\<lambda>s::SlidePlan. s\<lparr> isGenerating := False \<rparr>"])
next
  case (Inr u)
  have "(\<forall>s. slideId (s\<lparr> generatedImageUrl := Some u, isGenerating := False \<rparr>) = slideId s)
     \<and> stateSlides (settle c outcome w)
         = map (\<lambda>s. if slideId s = callSlideId c
                    then s\<lparr> generatedImageUrl := Some u, isGenerating := False \<rparr> else s)
             (stateSlides w)
     \<and> inFlight (settle c outcome w) = inFlight w"
    using Inr by (simp add: settle_def Let_def split: option.splits)
  then show ?thesis
    by (intro exI [of _ "\<lambda>s::SlidePlan. s\<lparr> generatedImageUrl := Some u, isGenerating := False \<rparr>"])
qed

lemma settle_sound:
  assumes s: "sound w" and k: "k < length (inFlight w)"
  shows "sound (render (settle (inFlight w ! k) outcome (w\<lparr> inFlight := removeAt k (inFlight w) \<rparr>)))"
proof -
  let ?c = "inFlight w ! k"
  let ?w = "w\<lparr> inFlight := removeAt k (inFlight w) \<rparr>"
  from settle_fields [of ?c outcome ?w] obtain f where
    f: "\<And>x. slideId (f x) = slideId x"
    and st: "stateSlides (settle ?c outcome ?w)
         = map (\<lambda>x. if slideId x = callSlideId ?c then f x else x) (stateSlides w)"
    and fl: "inFlight (settle ?c outcome ?w) = removeAt k (inFlight w)"
    by auto
  from s have dc: "distinct (map callSlideId (inFlight w))"
    by (simp add: sound_def oneCallPerSlide_def)
  note ra = removeAt_distinct [OF dc k]
  have ids: "map slideId (map (\<lambda>x. if slideId x = callSlideId ?c then f x else x) (stateSlides w))
             = map slideId (stateSlides w)"
    by (rule map_mark_ids) (rule f)
  have d1: "distinct (map slideId (stateSlides (render (settle ?c outcome ?w))))"
    unfolding render_def using s by (simp add: st ids sound_def del: map_map)
  have d2: "oneCallPerSlide (render (settle ?c outcome ?w))"
    using ra(1) by (simp add: oneCallPerSlide_def render_def fl)
  have d3: "callsMarked (render (settle ?c outcome ?w))"
    unfolding callsMarked_iff
  proof
    fix c' assume "c' \<in> set (inFlight (render (settle ?c outcome ?w)))"
    then have c': "c' \<in> set (removeAt k (inFlight w))" by (simp add: render_def fl)
    with ra have "c' \<in> set (inFlight w)" "callSlideId c' \<noteq> callSlideId ?c" by auto
    with s obtain x where x: "x \<in> set (stateSlides w)" "slideId x = callSlideId c'" "isGenerating x"
      by (auto simp: sound_def callsMarked_iff)
    with \<open>callSlideId c' \<noteq> callSlideId ?c\<close>
    have "x \<in> set (map (\<lambda>x. if slideId x = callSlideId ?c then f x else x) (stateSlides w))"
      by force
    with x show "\<exists>x\<in>set (stateSlides (render (settle ?c outcome ?w))).
        slideId x = callSlideId c' \<and> isGenerating x"
      by (auto simp: render_def st)
  qed
  from d1 d2 d3 show ?thesis by (simp add: sound_def render_def)
qed

lemma auto_cases:
  assumes d: "distinct (map slideId (slidesRef w))"
  shows "generateSingleSlideImage ds i True w = Some w
     \<or> (\<exists>j. generateSingleSlideImage ds i True w = Some (launch ds j True w)
            \<and> (\<forall>s\<in>set (slidesRef w). slideId s = j \<longrightarrow> \<not> busy s))"
proof (cases "findIndex (\<lambda>s. slideId s = i) (slidesRef w)")
  case None
  then have "List.find (\<lambda>s. slideId s = i) (slidesRef w) = None" by (simp add: find_findIndex)
  then show ?thesis by (simp add: gen_absent)
next
  case (Some k)
  from findIndex_Some [OF Some] have k: "k < length (slidesRef w)" "slideId (slidesRef w ! k) = i"
    by simp_all
  from chain_skips [OF d k(1), of ds] k(2)
  have g: "generateSingleSlideImage ds i True w
     = (case List.find (\<lambda>s. \<not> busy s) (drop k (slidesRef w)) of
        None \<Rightarrow> Some w
      | Some t \<Rightarrow> Some (launch ds (slideId t) True w))" by simp
  show ?thesis
  proof (cases "List.find (\<lambda>s. \<not> busy s) (drop k (slidesRef w))")
    case None
    with g show ?thesis by simp
  next
    case (Some t)
    then have t: "t \<in> set (slidesRef w)" "\<not> busy t"
      by (auto simp: find_Some_iff dest: in_set_dropD nth_mem)
    have "\<forall>s\<in>set (slidesRef w). slideId s = slideId t \<longrightarrow> \<not> busy s"
    proof (intro ballI impI)
      fix s assume "s \<in> set (slidesRef w)" "slideId s = slideId t"
      with d t(1) have "s = t" by (meson distinct_map inj_onD)
      with t(2) show "\<not> busy s" by simp
    qed
    with g Some show ?thesis by auto
  qed
qed

lemma sound_timers: "sound (w\<lparr> timers := ts \<rparr>) = sound w"
  by (simp add: sound_def oneCallPerSlide_def callsMarked_def)

lemma sound_active: "sound (w\<lparr> activeSlideIndex := k \<rparr>) = sound w"
  by (simp add: sound_def oneCallPerSlide_def callsMarked_def)

lemma sound_render: "sound w \<Longrightarrow> render w = w"
  by (simp add: sound_def render_def)

lemma fireTimer_sound:
  assumes s: "sound w" and e: "fireTimer k w = Some v"
  shows "sound (render v)"
proof -
  let ?w = "w\<lparr> timers := removeAt k (timers w) \<rparr>"
  let ?ds = "fst (timers w ! k)" and ?i = "snd (timers w ! k)"
  from s have sw: "sound ?w" by (simp add: sound_timers)
  then have d: "distinct (map slideId (slidesRef ?w))" by (simp add: sound_def)
  from e have v: "generateSingleSlideImage ?ds ?i True ?w = Some v"
    by (auto simp: fireTimer_def split: if_splits)
  from auto_cases [OF d, of ?ds ?i] v
  consider "v = ?w"
    | j where "v = launch ?ds j True ?w" "\<forall>s\<in>set (slidesRef ?w). slideId s = j \<longrightarrow> \<not> busy s"
    by auto
  then show ?thesis
  proof cases
    case 1
    with sw show ?thesis by (simp add: sound_render)
  next
    case 2
    from 2(2) have "\<forall>s\<in>set (slidesRef ?w). slideId s = j \<longrightarrow> \<not> isGenerating s"
      by (auto simp: busy_def)
    from launch_sound [OF sw this, of ?ds True] 2(1) show ?thesis by simp
  qed
qed

lemma settleCall_sound:
  assumes s: "sound w" and e: "settleCall k outcome w = Some v"
  shows "sound (render v)"
proof -
  from e have k: "k < length (inFlight w)"
    and v: "v = settle (inFlight w ! k) outcome (w\<lparr> inFlight := removeAt k (inFlight w) \<rparr>)"
    by (auto simp: settleCall_def split: if_splits)
  from settle_sound [OF s k, of outcome] v show ?thesis by simp
qed

lemma click_sound:
  assumes s: "sound w" and k: "k < length (slidesRef w)"
    and free: "\<not> isGenerating (slidesRef w ! k)"
    and e: "generateSingleSlideImage ds (slideId (slidesRef w ! k)) False w = Some v"
  shows "sound (render v)"
proof -
  let ?i = "slideId (slidesRef w ! k)"
  from e have v: "v = launch ds ?i False w" by (simp add: gen_manual)
  from s have d: "distinct (map slideId (slidesRef w))" by (simp add: sound_def)
  have "\<forall>x\<in>set (slidesRef w). slideId x = ?i \<longrightarrow> \<not> isGenerating x"
  proof (intro ballI impI)
    fix x assume "x \<in> set (slidesRef w)" "slideId x = ?i"
    with d k have "x = slidesRef w ! k" by (meson distinct_map inj_onD nth_mem)
    with free show "\<not> isGenerating x" by simp
  qed
  from launch_sound [OF s this, of ds False] v show ?thesis by simp
qed

lemma rendered_commit: "rendered p \<Longrightarrow> commit p = p"
  by (simp add: rendered_def commit_def sound_render)

lemma rendered_commitI: "sound (render (live q)) \<Longrightarrow> rendered (commit q)"
  by (simp add: rendered_def commit_def render_def)

lemma handleEvent_rendered:
  assumes r: "rendered p" and e: "handleEvent e p = Some q"
  shows "rendered (commit q)"
proof -
  from r have s: "sound (live p)" and ix: "shownIndex p = activeSlideIndex (live p)"
    by (simp_all add: rendered_def)
  have "sound (render (live q))"
  proof (cases e)
    case (StartWorkbench ds)
    with s e show ?thesis
      by (cases "slidesRef (live p)") (auto simp: sound_timers sound_render)
  next
    case (TimerFires k)
    with e obtain v where "fireTimer k (live p) = Some v" "q = p\<lparr> live := v \<rparr>" by auto
    with fireTimer_sound [OF s] show ?thesis by simp
  next
    case (CallSettles k outcome)
    with e obtain v where "settleCall k outcome (live p) = Some v" "q = p\<lparr> live := v \<rparr>" by auto
    with settleCall_sound [OF s] show ?thesis by simp
  next
    case (SelectSlide k)
    with s e show ?thesis by (auto simp: sound_active sound_render split: if_splits)
  next
    case (ClickRegenerate ds)
    let ?w = "live p"
    let ?k = "shownIndex p"
    from e ClickRegenerate have k: "?k < length (slidesRef ?w)"
      and free: "\<not> isGenerating (slidesRef ?w ! ?k)"
      by (auto split: if_splits)
    with e ClickRegenerate obtain v
      where v: "generateSingleSlideImage ds (slideId (slidesRef ?w ! ?k)) False ?w = Some v"
        and q: "q = p\<lparr> live := v \<rparr>"
      by auto
    from click_sound [OF s k free v] q show ?thesis by simp
  next
    case Commit
    with e have "live q = render (live p)" by (auto simp: commit_def)
    with s show ?thesis by (simp add: sound_render)
  qed
  then show ?thesis by (rule rendered_commitI)
qed

lemma run_committing_rendered:
  "rendered p \<Longrightarrow> run (committing events) p = Some q \<Longrightarrow> rendered q"
proof (induction events arbitrary: p)
  case Nil
  then show ?case by (simp add: committing_def)
next
  case (Cons e es)
  from Cons.prems(2) obtain v where v: "handleEvent e p = Some v"
    and rest: "run (committing es) (commit v) = Some q"
    by (auto simp: committing_def split: option.splits)
  from Cons.IH [OF handleEvent_rendered [OF Cons.prems(1) v] rest] show ?case .
qed

lemma session_sound: "distinct (map slideId deck) \<Longrightarrow> sound (session deck)"
  by (simp add: sound_def session_def oneCallPerSlide_def callsMarked_def)

lemma page_rendered: "distinct (map slideId deck) \<Longrightarrow> rendered (page deck)"
  by (simp add: rendered_def page_def session_sound) (simp add: session_def)

text \<open>
  What the marker and the disabled button achieve together. \<open>generateSingleSlideImage\<close>
  skips a slide that is generating on the auto-chain path only; on the manual path the
  one check is the regenerate button, which is disabled while the active slide is
  rendered as generating. For every deck with distinct ids and every sequence of events
  of the workbench in which React commits a render after each event and before the
  next: no two calls in flight are for the same slide, and every call in flight is for
  a slide that is marked as generating.
\<close>

lemma one_call_per_slide_when_committed:
  "distinct (map slideId deck) \<and> run (committing events) (page deck) = Some p
   \<longrightarrow> oneCallPerSlide (live p) \<and> callsMarked (live p)"
proof
  assume a: "distinct (map slideId deck) \<and> run (committing events) (page deck) = Some p"
  then have "rendered (page deck)" by (simp add: page_rendered)
  with a have "rendered p" using run_committing_rendered by blast
  then show "oneCallPerSlide (live p) \<and> callsMarked (live p)"
    by (simp add: rendered_def sound_def)
qed

lemma run_snoc: "run es p = Some q \<Longrightarrow> run (es @ [e]) p = handleEvent e q"
  by (induction es arbitrary: p) (auto split: option.splits)

lemma enter_and_fire:
  "run [StartWorkbench (js ''D''), Commit, TimerFires 0] (page [idleSlide 1])
   = Some \<lparr> shownIndex = 0, live = generatingSession\<lparr> slidesRef := [idleSlide 1] \<rparr> \<rparr>"
  by (simp add: page_def session_def commit_def render_def fireTimer_def
      generateSingleSlideImage.simps idleSlide_fields launch_def removeAt_def
      generatingSession_def)

text \<open>
  C3 fails on the deck of one idle slide, when the user clicks the regenerate button
  after the timer of the auto-chain has fired and before React commits the render. The
  claim says that no slide ever has two calls in flight, the marker being checked on
  both paths. The callback of the timer queues the marker of slide 1 and starts its
  call. Until the commit the button is enabled, and its handler, which is on the
  manual path and checks nothing, starts a second call for slide 1 while the first is
  in flight. Once the render is committed the button is disabled and the click cannot
  happen.
\<close>

theorem regenerate_before_commit:
  "run [StartWorkbench (js ''D''), Commit, TimerFires 0, ClickRegenerate (js ''D'')]
     (page [idleSlide 1])
   = Some \<lparr> shownIndex = 0, live = racingSession \<rparr>
   \<and> map callSlideId (inFlight racingSession) = [1, 1]
   \<and> map callSlide (inFlight racingSession) = [idleSlide 1, idleSlide 1]
   \<and> \<not> oneCallPerSlide racingSession
   \<and> run [StartWorkbench (js ''D''), Commit, TimerFires 0, Commit, ClickRegenerate (js ''D'')]
       (page [idleSlide 1])
     = None"
proof (intro conjI)
  have "handleEvent (ClickRegenerate (js ''D''))
          \<lparr> shownIndex = 0, live = generatingSession\<lparr> slidesRef := [idleSlide 1] \<rparr> \<rparr>
        = Some \<lparr> shownIndex = 0, live = racingSession \<rparr>"
    by (simp add: gen_manual launch_def generatingSession_def racingSession_def
        idleSlide_fields)
  with run_snoc [OF enter_and_fire, of "ClickRegenerate (js ''D'')"]
  show "run [StartWorkbench (js ''D''), Commit, TimerFires 0, ClickRegenerate (js ''D'')]
     (page [idleSlide 1])
   = Some \<lparr> shownIndex = 0, live = racingSession \<rparr>"
    by simp
  show "map callSlideId (inFlight racingSession) = [1, 1]"
    by (simp add: racingSession_def)
  show "map callSlide (inFlight racingSession) = [idleSlide 1, idleSlide 1]"
    by (simp add: racingSession_def)
  show "\<not> oneCallPerSlide racingSession"
    by (simp add: oneCallPerSlide_def racingSession_def)
  have c: "run [StartWorkbench (js ''D''), Commit, TimerFires 0, Commit] (page [idleSlide 1])
        = Some (commit \<lparr> shownIndex = 0,
                          live = generatingSession\<lparr> slidesRef := [idleSlide 1] \<rparr> \<rparr>)"
    using run_snoc [OF enter_and_fire, of Commit] by simp
  have "handleEvent (ClickRegenerate (js ''D''))
          (commit \<lparr> shownIndex = 0, live = generatingSession\<lparr> slidesRef := [idleSlide 1] \<rparr> \<rparr>)
        = None"
    by (simp add: commit_def render_def generatingSession_def)
  with run_snoc [OF c, of "ClickRegenerate (js ''D'')"]
  show "run [StartWorkbench (js ''D''), Commit, TimerFires 0, Commit, ClickRegenerate (js ''D'')]
       (page [idleSlide 1])
     = None"
    by simp
qed

end
